(* ===== verification/Prelude.thy ===== *)
theory Prelude
  imports Main "HOL-Library.Multiset" "HOL-Library.Code_Target_Numeral"
begin

text \<open>
  Shared vocabulary of the development.  Every Go function that returns \<open>(T, error)\<close>
  is a HOL function into a sum type whose left side is the error; the monadic bind
  \<open>bindr\<close> is the source's \<open>if err != nil { return err }\<close>.
  The theory also holds the generic list and map facts that the component theories use.
\<close>

named_theorems guard_simps \<open>unfolding of early-return guards\<close>

section \<open>Errors as values\<close>

text \<open>\<open>bindr\<close> propagates the error of a call, as the early return after each call does.\<close>

definition bindr :: "'e + 'a \<Rightarrow> ('a \<Rightarrow> 'e + 'b) \<Rightarrow> 'e + 'b" where
  "bindr r f = (case r of Inl e \<Rightarrow> Inl e | Inr x \<Rightarrow> f x)"

text \<open>\<open>guardr c e k\<close> returns the error \<open>e\<close> when \<open>c\<close> holds and goes on with \<open>k\<close> otherwise.\<close>

definition guardr :: "bool \<Rightarrow> 'e \<Rightarrow> 'e + 'b \<Rightarrow> 'e + 'b" where
  "guardr c e k = (if c then Inl e else k)"

lemma bindr_simps [simp]:
  "bindr (Inl e) f = Inl e"
  "bindr (Inr x) f = f x"
  by (simp_all add: bindr_def)

lemma bindr_Inr_iff [guard_simps]: "bindr r f = Inr y \<longleftrightarrow> (\<exists>x. r = Inr x \<and> f x = Inr y)"
  by (cases r) auto

lemma bindr_Inl_iff [guard_simps]:
  "bindr r f = Inl e \<longleftrightarrow> r = Inl e \<or> (\<exists>x. r = Inr x \<and> f x = Inl e)"
  by (cases r) auto

lemma guardr_Inr_iff [guard_simps]: "guardr c e k = Inr y \<longleftrightarrow> \<not> c \<and> k = Inr y"
  by (simp add: guardr_def)

lemma guardr_simps [simp]:
  "guardr True e k = Inl e"
  "guardr False e k = k"
  by (simp_all add: guardr_def)

lemma bindr_cong [fundef_cong]:
  "r = r' \<Longrightarrow> (\<And>x. r' = Inr x \<Longrightarrow> f x = g x) \<Longrightarrow> bindr r f = bindr r' g"
  by (cases r') auto

text \<open>A \<open>for\<close> loop that calls a fallible function on every element and collects the results.\<close>

fun map_res :: "('a \<Rightarrow> 'e + 'b) \<Rightarrow> 'a list \<Rightarrow> 'e + 'b list" where
  "map_res f [] = Inr []"
| "map_res f (x # xs) = bindr (f x) (\<lambda>y. bindr (map_res f xs) (\<lambda>ys. Inr (y # ys)))"

lemma map_res_Inr_iff:
  "map_res f xs = Inr ys \<longleftrightarrow> list_all2 (\<lambda>x y. f x = Inr y) xs ys"
proof (induction xs arbitrary: ys)
  case Nil
  then show ?case by auto
next
  case (Cons x xs)
  then show ?case by (cases ys) (auto simp: guard_simps)
qed

lemma map_res_append:
  "map_res f (xs @ ys) = bindr (map_res f xs) (\<lambda>a. bindr (map_res f ys) (\<lambda>b. Inr (a @ b)))"
proof (induction xs)
  case Nil
  then show ?case by (cases "map_res f ys") auto
next
  case (Cons x xs)
  then show ?case
    by (cases "f x"; cases "map_res f xs"; cases "map_res f ys") auto
qed

lemma map_res_all_Inr:
  "(\<And>x. x \<in> set xs \<Longrightarrow> f x = Inr (g x)) \<Longrightarrow> map_res f xs = Inr (map g xs)"
  by (induction xs) auto

lemma map_res_map: "map_res f (map h xs) = map_res (\<lambda>x. f (h x)) xs"
  by (induction xs) auto

section \<open>Fallible operations on a state\<close>

text \<open>
  A method that may fail and may change the state it is called on.  \<open>sbind\<close> runs one after the
  other and stops at the first error, keeping the state reached so far; \<open>slift\<close> is a step that
  does not touch the state, \<open>sread\<close> one that only reads it.
\<close>

definition sbind ::
  "('s \<Rightarrow> ('e + 'a) \<times> 's) \<Rightarrow> ('a \<Rightarrow> 's \<Rightarrow> ('e + 'b) \<times> 's) \<Rightarrow> 's \<Rightarrow> ('e + 'b) \<times> 's" where
  "sbind m f s = (case m s of (Inl e, s') \<Rightarrow> (Inl e, s') | (Inr x, s') \<Rightarrow> f x s')"

definition slift :: "'e + 'a \<Rightarrow> 's \<Rightarrow> ('e + 'a) \<times> 's" where
  "slift r s = (r, s)"

definition sread :: "('s \<Rightarrow> 'e + 'a) \<Rightarrow> 's \<Rightarrow> ('e + 'a) \<times> 's" where
  "sread f s = (f s, s)"

lemma slift_eq [simp]: "slift r s = (r, s)"
  by (simp add: slift_def)

lemma sread_eq [simp]: "sread f s = (f s, s)"
  by (simp add: sread_def)

lemma sbind_Inr_iff [guard_simps]:
  "sbind m f s = (Inr y, s') \<longleftrightarrow> (\<exists>x t. m s = (Inr x, t) \<and> f x t = (Inr y, s'))"
  by (auto simp: sbind_def split: prod.splits sum.splits)

lemma sbind_Inl_iff [guard_simps]:
  "sbind m f s = (Inl e, s') \<longleftrightarrow>
     m s = (Inl e, s') \<or> (\<exists>x t. m s = (Inr x, t) \<and> f x t = (Inl e, s'))"
  by (auto simp: sbind_def split: prod.splits sum.splits)

text \<open>A state predicate that every step keeps is kept by the sequence, whether it fails or not.\<close>

definition keeps :: "('s \<Rightarrow> bool) \<Rightarrow> ('s \<Rightarrow> ('e + 'a) \<times> 's) \<Rightarrow> bool" where
  "keeps P m \<longleftrightarrow> (\<forall>s. P s \<longrightarrow> P (snd (m s)))"

lemma keeps_sbind: "keeps P m \<Longrightarrow> (\<And>x. keeps P (f x)) \<Longrightarrow> keeps P (sbind m f)"
  unfolding keeps_def sbind_def by (fastforce split: prod.splits sum.splits)

lemma keeps_slift [simp]: "keeps P (slift r)"
  by (simp add: keeps_def)

lemma keeps_sread [simp]: "keeps P (sread f)"
  by (simp add: keeps_def)

section \<open>Lists\<close>

text \<open>The last \<open>n\<close> elements: what \<open>lines[len(lines)-n:]\<close> keeps.\<close>

definition lastn :: "nat \<Rightarrow> 'a list \<Rightarrow> 'a list" where
  "lastn n xs = drop (length xs - n) xs"

lemma length_lastn [simp]: "length (lastn n xs) = min n (length xs)"
  by (simp add: lastn_def)

lemma lastn_Nil [simp]: "lastn n [] = []"
  by (simp add: lastn_def)

lemma lastn_all: "length xs \<le> n \<Longrightarrow> lastn n xs = xs"
  by (simp add: lastn_def)

lemma lastn_append_lastn: "lastn n (lastn n xs @ ys) = lastn n (xs @ ys)"
proof (cases "n \<le> length xs")
  case True
  then show ?thesis by (auto simp: lastn_def add.commute)
next
  case False
  then show ?thesis by (simp add: lastn_all)
qed

text \<open>Elements dropped from both ends while they satisfy a predicate.\<close>

definition trim_both :: "('a \<Rightarrow> bool) \<Rightarrow> 'a list \<Rightarrow> 'a list" where
  "trim_both P xs = rev (dropWhile P (rev (dropWhile P xs)))"

lemma dropWhile_none: "\<forall>x \<in> set xs. \<not> P x \<Longrightarrow> dropWhile P xs = xs"
  by (cases xs) auto

lemma trim_both_id: "\<forall>x \<in> set xs. \<not> P x \<Longrightarrow> trim_both P xs = xs"
  by (simp add: trim_both_def dropWhile_none)

lemma trim_both_set: "set (trim_both P xs) \<subseteq> set xs"
  by (metis set_dropWhileD set_rev subsetI trim_both_def)

text \<open>
  Pairwise statements over lists, for the slices the source compares element by element
  in nested loops.
\<close>

lemma sorted_wrt_sym_append:
  "sorted_wrt R (xs @ ys) \<longleftrightarrow> sorted_wrt R xs \<and> sorted_wrt R ys \<and> (\<forall>x \<in> set xs. \<forall>y \<in> set ys. R x y)"
  by (rule sorted_wrt_append)

lemma sorted_wrt_sym_mset:
  assumes sym: "\<And>x y. R x y \<Longrightarrow> R y x"
    and "mset xs = mset ys" and "sorted_wrt R xs"
  shows "sorted_wrt R ys"
  using assms(2,3)
proof (induction ys arbitrary: xs)
  case Nil
  then show ?case by simp
next
  case (Cons y ys)
  then obtain as bs where xs: "xs = as @ y # bs"
    by (metis list.set_intros(1) set_mset_mset split_list)
  then have m: "mset (as @ bs) = mset ys" using Cons.prems by simp
  have s: "sorted_wrt R (as @ bs)" using Cons.prems xs by (auto simp: sorted_wrt_append)
  have "R y z" if "z \<in> set (as @ bs)" for z
    using that Cons.prems xs sym by (auto simp: sorted_wrt_append)
  moreover have "set (as @ bs) = set ys" using m by (metis set_mset_mset)
  ultimately have "\<forall>z \<in> set ys. R y z" by blast
  with Cons.IH [OF m s] show ?case by simp
qed

end
