(* ===== verification/GoStrings.thy ===== *)
theory GoStrings
  imports Prelude
begin

text \<open>
  The parts of Go's \<open>strings\<close>, \<open>unicode\<close> and \<open>unicode/utf8\<close> packages that the source uses.
  A Go string is a byte sequence: \<open>string\<close> here, one \<open>char\<close> per byte.  Ranging over a
  string decodes UTF-8; an ill-formed byte yields U+FFFD and is one byte wide.
\<close>

section \<open>Decoding UTF-8\<close>

definition utf8_cont :: "nat \<Rightarrow> bool" where
  "utf8_cont b \<longleftrightarrow> 128 \<le> b \<and> b \<le> 191"

text \<open>The second byte a lead byte accepts (surrogates, overlong and out-of-range forms excluded).\<close>

definition utf8_second :: "nat \<Rightarrow> nat \<Rightarrow> bool" where
  "utf8_second a b \<longleftrightarrow>
     (if a = 224 then 160 \<le> b \<and> b \<le> 191
      else if a = 237 then 128 \<le> b \<and> b \<le> 159
      else if a = 240 then 144 \<le> b \<and> b \<le> 191
      else if a = 244 then 128 \<le> b \<and> b \<le> 143
      else utf8_cont b)"

text \<open>\<open>utf8_step a bs\<close> is the rune that starts with byte \<open>a\<close> before \<open>bs\<close>, and its width.\<close>

fun utf8_step :: "nat \<Rightarrow> nat list \<Rightarrow> nat \<times> nat" where
  "utf8_step a bs =
     (if a < 128 then (a, 1)
      else if 194 \<le> a \<and> a \<le> 223 then
        (case bs of b # _ \<Rightarrow> if utf8_second a b then ((a - 192) * 64 + (b - 128), 2) else (65533, 1)
         | _ \<Rightarrow> (65533, 1))
      else if 224 \<le> a \<and> a \<le> 239 then
        (case bs of b # c # _ \<Rightarrow>
           if utf8_second a b \<and> utf8_cont c
           then ((a - 224) * 4096 + (b - 128) * 64 + (c - 128), 3) else (65533, 1)
         | _ \<Rightarrow> (65533, 1))
      else if 240 \<le> a \<and> a \<le> 244 then
        (case bs of b # c # d # _ \<Rightarrow>
           if utf8_second a b \<and> utf8_cont c \<and> utf8_cont d
           then ((a - 240) * 262144 + (b - 128) * 4096 + (c - 128) * 64 + (d - 128), 4)
           else (65533, 1)
         | _ \<Rightarrow> (65533, 1))
      else (65533, 1))"

text \<open>The runes of a string, each with the bytes it was read from.\<close>

function runes :: "string \<Rightarrow> (nat \<times> string) list" where
  "runes [] = []"
| "runes (c # cs) =
     (case utf8_step (of_char c) (map of_char (take 3 cs)) of
        (r, w) \<Rightarrow> (r, take w (c # cs)) # runes (drop (w - 1) cs))"
  by pat_completeness auto
termination by (relation "measure length") auto

declare utf8_step.simps [simp del]

lemma utf8_step_ascii: "a < 128 \<Longrightarrow> utf8_step a bs = (a, 1)"
  by (simp add: utf8_step.simps)

text \<open>ASCII strings decode byte by byte.\<close>

definition ascii :: "string \<Rightarrow> bool" where
  "ascii s \<longleftrightarrow> (\<forall>c \<in> set s. (of_char c :: nat) < 128)"

lemma ascii_simps [simp]:
  "ascii []"
  "ascii (c # s) \<longleftrightarrow> (of_char c :: nat) < 128 \<and> ascii s"
  "ascii (s @ t) \<longleftrightarrow> ascii s \<and> ascii t"
  by (auto simp: ascii_def)

lemma runes_ascii: "ascii s \<Longrightarrow> runes s = map (\<lambda>c. (of_char c, [c])) s"
  by (induction s) (simp_all add: utf8_step_ascii)

text \<open>Nothing is lost: the bytes of the runes, concatenated, are the string.\<close>

lemma utf8_width: "utf8_step a bs = (r, w) \<Longrightarrow> 1 \<le> w"
  by (auto simp: utf8_step.simps split: if_splits list.splits)

lemma runes_concat: "concat (map snd (runes s)) = s"
proof (induction s rule: runes.induct)
  case 1
  then show ?case by simp
next
  case (2 c cs)
  obtain r w where st: "utf8_step (of_char c) (map of_char (take 3 cs)) = (r, w)"
    by (cases "utf8_step (of_char c) (map of_char (take 3 cs))") auto
  then have "1 \<le> w" by (rule utf8_width)
  then obtain k where w: "w = Suc k" by (cases w) auto
  from st 2 have "concat (map snd (runes (drop (w - 1) cs))) = drop (w - 1) cs" by simp
  with st w show ?case by simp
qed

text \<open>A byte below 128 is a rune of its own, so it is found by ranging over the runes.\<close>

lemma utf8_step_multi:
  assumes "utf8_step a bs = (r, w)" and "k < w - 1"
  shows "k < length bs \<and> 128 \<le> bs ! k"
proof -
  have second: "128 \<le> b" if "utf8_second a b" for a b
    using that by (auto simp: utf8_second_def utf8_cont_def split: if_splits)
  have cont: "128 \<le> b" if "utf8_cont b" for b
    using that by (simp add: utf8_cont_def)
  have "k = 0 \<or> k = 1 \<or> k = 2"
    using assms by (auto simp: utf8_step.simps split: if_splits list.splits)
  then show ?thesis
    using assms
    by (auto simp: utf8_step.simps nth_Cons split: if_splits list.splits nat.splits
        dest!: second cont)
qed

lemma runes_ascii_member:
  "c \<in> set s \<Longrightarrow> (of_char c :: nat) < 128 \<Longrightarrow> (of_char c, [c]) \<in> set (runes s)"
proof (induction s rule: runes.induct)
  case 1
  then show ?case by simp
next
  case (2 d cs)
  obtain r w where st: "utf8_step (of_char d) (map of_char (take 3 cs)) = (r, w)"
    by (cases "utf8_step (of_char d) (map of_char (take 3 cs))") auto
  show ?case
  proof (cases "c = d")
    case True
    then show ?thesis using 2(3) by (simp add: utf8_step_ascii)
  next
    case False
    then obtain k where k: "k < length cs" "cs ! k = c" using 2(2) by (auto simp: in_set_conv_nth)
    have "w - 1 \<le> k"
    proof (rule ccontr)
      assume "\<not> w - 1 \<le> k"
      then have lt: "k < w - 1" by simp
      from utf8_step_multi [OF st this] have "k < 3" "(128::nat) \<le> map of_char (take 3 cs) ! k" by auto
      then have "128 \<le> (of_char c :: nat)" using k by simp
      with 2(3) show False by simp
    qed
    then have "c \<in> set (drop (w - 1) cs)"
      using k by (auto simp: in_set_conv_nth intro!: exI [of _ "k - (w - 1)"])
    with st 2(1) 2(3) show ?thesis by simp
  qed
qed

section \<open>Character classes\<close>

text \<open>\<open>unicode.IsSpace\<close> and \<open>unicode.IsControl\<close>.\<close>

definition IsSpace :: "nat \<Rightarrow> bool" where
  "IsSpace r \<longleftrightarrow> (9 \<le> r \<and> r \<le> 13) \<or> r = 32 \<or> r = 133 \<or> r = 160 \<or> r = 5760
     \<or> (8192 \<le> r \<and> r \<le> 8202) \<or> r = 8232 \<or> r = 8233 \<or> r = 8239 \<or> r = 8287 \<or> r = 12288"

definition IsControl :: "nat \<Rightarrow> bool" where
  "IsControl r \<longleftrightarrow> r < 32 \<or> (127 \<le> r \<and> r < 160)"

definition is_digit :: "char \<Rightarrow> bool" where
  "is_digit c \<longleftrightarrow> (48::nat) \<le> of_char c \<and> (of_char c :: nat) \<le> 57"

section \<open>The strings package\<close>

definition TrimSpace :: "string \<Rightarrow> string" where
  "TrimSpace s = concat (map snd (trim_both (\<lambda>(r, _). IsSpace r) (runes s)))"

definition TrimRight :: "string \<Rightarrow> string \<Rightarrow> string" where
  "TrimRight s cutset = rev (dropWhile (\<lambda>c. c \<in> set cutset) (rev s))"

definition HasPrefix :: "string \<Rightarrow> string \<Rightarrow> bool" where
  "HasPrefix s p \<longleftrightarrow> take (length p) s = p"

definition HasSuffix :: "string \<Rightarrow> string \<Rightarrow> bool" where
  "HasSuffix s p \<longleftrightarrow> length p \<le> length s \<and> drop (length s - length p) s = p"

fun Contains :: "string \<Rightarrow> string \<Rightarrow> bool" where
  "Contains [] p \<longleftrightarrow> p = []"
| "Contains (c # cs) p \<longleftrightarrow> HasPrefix (c # cs) p \<or> Contains cs p"

text \<open>\<open>strings.Cut(s, sep)\<close>: the text before and after the first separator, and whether it occurs.\<close>

fun Cut :: "string \<Rightarrow> string \<Rightarrow> string \<times> string \<times> bool" where
  "Cut [] sep = (if sep = [] then ([], [], True) else ([], [], False))"
| "Cut (c # cs) sep =
     (if HasPrefix (c # cs) sep then ([], drop (length sep) (c # cs), True)
      else (case Cut cs sep of (before, after, found) \<Rightarrow> (c # before, after, found)))"

fun join :: "string \<Rightarrow> string list \<Rightarrow> string" where
  "join sep [] = []"
| "join sep [x] = x"
| "join sep (x # y # zs) = x @ sep @ join sep (y # zs)"

text \<open>\<open>strings.Split\<close> with a one-byte separator.\<close>

fun split_on :: "char \<Rightarrow> string \<Rightarrow> string list" where
  "split_on d [] = [[]]"
| "split_on d (c # cs) =
     (if c = d then [] # split_on d cs
      else (case split_on d cs of w # ws \<Rightarrow> (c # w) # ws | [] \<Rightarrow> [[c]]))"

text \<open>The lines of a text without their newlines; a last line needs no newline.\<close>

definition stream_lines :: "string \<Rightarrow> string list" where
  "stream_lines content =
     (let ls = split_on (CHR 0x0A) content in if last ls = [] then butlast ls else ls)"

text \<open>\<open>strings.FieldsFunc\<close> for byte classes and \<open>strings.Fields\<close> for Unicode space.\<close>

definition FieldsFunc :: "(char \<Rightarrow> bool) \<Rightarrow> string \<Rightarrow> string list" where
  "FieldsFunc f s = filter (\<lambda>w. w \<noteq> [])
     (foldr (\<lambda>c ws. if f c then [] # ws else (case ws of w # r \<Rightarrow> (c # w) # r | [] \<Rightarrow> [[c]])) s [[]])"

definition Fields :: "string \<Rightarrow> string list" where
  "Fields s = filter (\<lambda>w. w \<noteq> [])
     (foldr (\<lambda>(r, b) ws. if IsSpace r then [] # ws
        else (case ws of w # t \<Rightarrow> (b @ w) # t | [] \<Rightarrow> [b])) (runes s) [[]])"

text \<open>
  \<open>strings.ToLower\<close> as far as a search for an ASCII phrase sees it: ASCII capitals, and the two
  non-ASCII runes whose lower case is ASCII (U+0130 and U+212A).  Every other rune keeps its bytes;
  its lower case is not ASCII either.
\<close>

definition ToLower :: "string \<Rightarrow> string" where
  "ToLower s = concat (map (\<lambda>(r, b).
     if 65 \<le> r \<and> r \<le> 90 then [char_of (r + 32)]
     else if r = 304 then ''i'' else if r = 8490 then ''k'' else b) (runes s))"

section \<open>strconv: decimal and hexadecimal numerals\<close>

text \<open>\<open>strconv.Itoa\<close> on non-negative values and \<open>strconv.FormatInt\<close> on all of them.\<close>

fun dec :: "nat \<Rightarrow> string" where
  "dec n = (if n < 10 then [char_of (48 + n)] else dec (n div 10) @ [char_of (48 + n mod 10)])"

declare dec.simps [simp del]

definition dec_int :: "int \<Rightarrow> string" where
  "dec_int i = (if i < 0 then ''-'' @ dec (nat (- i)) else dec (nat i))"

definition digit_val :: "char \<Rightarrow> nat" where
  "digit_val c = of_char c - 48"

text \<open>Lower-case hexadecimal without leading zeros, and the value of a hexadecimal digit.\<close>

definition hex_digit :: "nat \<Rightarrow> char" where
  "hex_digit d = char_of (if d < 10 then 48 + d else 87 + d)"

fun hex :: "nat \<Rightarrow> string" where
  "hex n = (if n < 16 then [hex_digit n] else hex (n div 16) @ [hex_digit (n mod 16)])"

declare hex.simps [simp del]

definition hex_val :: "char \<Rightarrow> nat option" where
  "hex_val c =
     (let k = (of_char c :: nat)
      in if 48 \<le> k \<and> k \<le> 57 then Some (k - 48)
         else if 97 \<le> k \<and> k \<le> 102 then Some (k - 87)
         else if 65 \<le> k \<and> k \<le> 70 then Some (k - 55)
         else None)"

text \<open>
  \<open>strconv.ParseInt(s, 10, 64)\<close>: an optional sign, decimal digits, and a value that fits
  64 bits; otherwise an error.
\<close>

definition all_digits :: "string \<Rightarrow> bool" where
  "all_digits s \<longleftrightarrow> s \<noteq> [] \<and> (\<forall>c \<in> set s. is_digit c)"

definition digits_val :: "string \<Rightarrow> nat" where
  "digits_val s = foldl (\<lambda>v c. v * 10 + digit_val c) 0 s"

definition ParseInt :: "string \<Rightarrow> int option" where
  "ParseInt s =
     (let (neg, ds) = (case s of c # cs \<Rightarrow> if c = CHR ''-'' then (True, cs)
                          else if c = CHR ''+'' then (False, cs) else (False, s) | [] \<Rightarrow> (False, []));
          v = int (digits_val ds)
      in if \<not> all_digits ds then None
         else if neg then (if v \<le> 2 ^ 63 then Some (- v) else None)
         else if v < 2 ^ 63 then Some v else None)"

section \<open>Facts\<close>

lemma of_char_digit: "n < 10 \<Longrightarrow> (of_char (char_of (48 + n)) :: nat) = 48 + n"
  by simp

lemma dec_digits: "\<forall>c \<in> set (dec n). is_digit c"
proof (induction n rule: dec.induct)
  case (1 n)
  then show ?case
    by (subst dec.simps) (auto simp: is_digit_def)
qed

lemma dec_nonempty [simp]: "dec n \<noteq> []"
  by (subst dec.simps) simp

lemma all_digits_dec [simp]: "all_digits (dec n)"
  using dec_digits by (simp add: all_digits_def)

lemma digits_val_dec [simp]: "digits_val (dec n) = n"
proof (induction n rule: dec.induct)
  case (1 n)
  then show ?case
    by (subst dec.simps) (auto simp: digits_val_def digit_val_def)
qed

lemma hd_dec: "0 < n \<Longrightarrow> hd (dec n) \<noteq> CHR ''0''"
proof (induction n rule: dec.induct)
  case (1 n)
  show ?case
  proof (cases "n < 10")
    case True
    have "(of_char (char_of (48 + n) :: char) :: nat) \<noteq> of_char CHR ''0''"
      using True 1(2) by simp
    then have "char_of (48 + n) \<noteq> CHR ''0''" by metis
    with True show ?thesis by (subst dec.simps) simp
  next
    case False
    with 1 have "hd (dec (n div 10)) \<noteq> CHR ''0''" by simp
    with False show ?thesis by (subst dec.simps) simp
  qed
qed

lemma dec_inject: "dec m = dec n \<Longrightarrow> m = n"
  by (metis digits_val_dec)

lemma hex_nonempty [simp]: "hex n \<noteq> []"
  by (subst hex.simps) simp

lemma hex_val_digit: "d < 16 \<Longrightarrow> hex_val (hex_digit d) = Some d"
  by (auto simp: hex_val_def hex_digit_def)

lemma hex_chars: "\<forall>c \<in> set (hex n). \<exists>d. hex_val c = Some d \<and> d < 16"
proof (induction n rule: hex.induct)
  case (1 n)
  then show ?case
    by (subst hex.simps) (auto simp: hex_val_digit)
qed

text \<open>Numerals are made of visible ASCII characters, so they hold no separator.\<close>

lemma is_digit_visible: "is_digit c \<Longrightarrow> 48 \<le> (of_char c :: nat) \<and> (of_char c :: nat) \<le> 57"
  by (simp add: is_digit_def)

lemma hex_val_visible: "hex_val c = Some d \<Longrightarrow> 48 \<le> (of_char c :: nat) \<and> (of_char c :: nat) \<le> 102"
  by (auto simp: hex_val_def Let_def split: if_splits)

lemma TrimSpace_plain:
  assumes "\<forall>c \<in> set s. 33 \<le> (of_char c :: nat) \<and> (of_char c :: nat) < 127"
  shows "TrimSpace s = s"
proof -
  have a: "ascii s" using assms by (auto simp: ascii_def)
  have "trim_both (\<lambda>(r, _). IsSpace r) (runes s) = runes s"
    by (rule trim_both_id) (use assms in \<open>auto simp: runes_ascii [OF a] IsSpace_def\<close>)
  then show ?thesis by (simp add: TrimSpace_def runes_concat)
qed

lemma split_on_nonempty [simp]: "split_on d s \<noteq> []"
  by (induction s) (auto split: list.splits)

lemma split_on_append_sep: "split_on d (s @ d # t) = split_on d s @ split_on d t"
  by (induction s) (auto split: list.splits)

lemma split_on_fresh: "d \<notin> set s \<Longrightarrow> split_on d s = [s]"
  by (induction s) auto

lemma join_append: "xs \<noteq> [] \<Longrightarrow> ys \<noteq> [] \<Longrightarrow> join sep (xs @ ys) = join sep xs @ sep @ join sep ys"
proof (induction sep xs rule: join.induct)
  case (2 sep x)
  then show ?case by (cases ys) auto
qed auto

lemma join_Cons: "xs \<noteq> [] \<Longrightarrow> join sep (x # xs) = x @ sep @ join sep xs"
  by (cases xs) auto

lemma set_join: "set (join sep xs) \<subseteq> set sep \<union> (\<Union>x \<in> set xs. set x)"
  by (induction sep xs rule: join.induct) auto

text \<open>Splitting undoes joining when no element holds the separator, and joining undoes splitting.\<close>

lemma split_on_join:
  "xs \<noteq> [] \<Longrightarrow> \<forall>x \<in> set xs. d \<notin> set x \<Longrightarrow> split_on d (join [d] xs) = xs"
proof (induction xs)
  case Nil
  then show ?case by simp
next
  case (Cons x xs)
  then show ?case
    by (cases xs) (auto simp: split_on_fresh split_on_append_sep)
qed

lemma join_split_on: "join [d] (split_on d s) = s"
proof (induction s)
  case Nil
  then show ?case by simp
next
  case (Cons c s)
  obtain w ws where "split_on d s = w # ws" by (cases "split_on d s") auto
  with Cons show ?case by (cases ws) auto
qed

lemma join_inject:
  assumes "join [d] xs = join [d] ys" and "xs \<noteq> []" and "ys \<noteq> []"
    and "\<forall>x \<in> set xs. d \<notin> set x" and "\<forall>y \<in> set ys. d \<notin> set y"
  shows "xs = ys"
  using assms by (metis split_on_join)

lemma HasPrefix_append [simp]: "HasPrefix (p @ s) p"
  by (simp add: HasPrefix_def)

lemma HasPrefix_iff: "HasPrefix s p \<longleftrightarrow> (\<exists>t. s = p @ t)"
  by (metis HasPrefix_append HasPrefix_def append_take_drop_id)

lemma Contains_iff: "Contains s p \<longleftrightarrow> (\<exists>a b. s = a @ p @ b)"
proof (induction s)
  case Nil
  then show ?case by auto
next
  case (Cons c s)
  have "(\<exists>a b. c # s = a @ p @ b) \<longleftrightarrow> HasPrefix (c # s) p \<or> (\<exists>a b. s = a @ p @ b)"
    by (auto simp: HasPrefix_iff Cons_eq_append_conv)
  with Cons show ?case by simp
qed

lemma Cut_notfound: "\<not> Contains s sep \<Longrightarrow> Cut s sep = (s, [], False)"
  by (induction s) auto

lemma Cut_found: "Cut s sep = (a, b, True) \<Longrightarrow> s = a @ sep @ b"
proof (induction s arbitrary: a b)
  case Nil
  then show ?case by (auto split: if_splits)
next
  case (Cons c s)
  then show ?case
    by (auto simp: HasPrefix_iff split: if_splits prod.splits)
qed

lemma TrimSpace_ascii:
  assumes "ascii s"
  shows "TrimSpace s = trim_both (\<lambda>c. IsSpace (of_char c)) s"
proof -
  have dw: "dropWhile (\<lambda>(r, _). IsSpace r) (map (\<lambda>c. (of_char c, [c])) t) =
      map (\<lambda>c. (of_char c, [c])) (dropWhile (\<lambda>c. IsSpace (of_char c)) t)" for t :: string
    by (induction t) auto
  have cc: "concat (rev (map snd (map (\<lambda>c. (of_char c :: nat, [c])) t))) = rev t" for t :: string
    by (induction t) auto
  show ?thesis
    unfolding TrimSpace_def runes_ascii[OF assms] trim_both_def dw rev_map
    by (simp add: rev_map[symmetric] dw cc del: map_map)
qed

lemma Cut_here:
  "hd sep \<notin> set v \<Longrightarrow> sep \<noteq> [] \<Longrightarrow> Cut (v @ sep @ d) sep = (v, d, True)"
proof (induction v)
  case Nil
  then show ?case by (cases sep) (auto simp: HasPrefix_def)
next
  case (Cons c v)
  then show ?case by (cases sep) (auto simp: HasPrefix_def)
qed

lemma stream_lines_concat:
  "\<forall>l \<in> set ls. CHR 0x0A \<notin> set l \<Longrightarrow> stream_lines (concat (map (\<lambda>l. l @ [CHR 0x0A]) ls)) = ls"
proof -
  assume a: "\<forall>l \<in> set ls. CHR 0x0A \<notin> set l"
  have "split_on (CHR 0x0A) (concat (map (\<lambda>l. l @ [CHR 0x0A]) ls)) = ls @ [[]]"
    using a by (induction ls) (auto simp: split_on_append_sep split_on_fresh)
  then show ?thesis by (simp add: stream_lines_def)
qed

end
