(* ===== verification/Netip.thy ===== *)
theory Netip
  imports GoStrings "HOL-Library.Word"
begin

text \<open>
  The parts of Go's \<open>net/netip\<close> that the source uses: addresses and prefixes, their textual
  form, masking, containment and overlap.  An IPv4 address is a 32-bit word and an IPv6
  address a 128-bit word with a zone; the zero \<open>Addr\<close> is \<open>AddrZero\<close>.
\<close>

unbundle bit_operations_syntax

section \<open>Masks on words of any width\<close>

definition net_masked :: "'a::len word \<Rightarrow> nat \<Rightarrow> 'a word" where
  "net_masked w b = w AND NOT (mask (LENGTH('a) - b))"

definition net_agree :: "'a::len word \<Rightarrow> 'a word \<Rightarrow> nat \<Rightarrow> bool" where
  "net_agree x y b \<longleftrightarrow> drop_bit (LENGTH('a) - b) (x XOR y) = 0"

lemma word_eq_0_bits: "w = (0 :: 'a::len word) \<longleftrightarrow> (\<forall>k. \<not> bit w k)"
  by (metis bit_0_eq bit_word_eqI bot_apply bot_bool_def)

lemma word_xor_eq_0: "x XOR y = (0 :: 'a::len word) \<longleftrightarrow> x = y"
  by (metis xor.assoc xor.left_neutral xor.right_neutral xor_self_eq)

lemma net_agree_bits:
  "net_agree (x :: 'a::len word) y b \<longleftrightarrow>
     (\<forall>i < LENGTH('a). LENGTH('a) - b \<le> i \<longrightarrow> bit x i = bit y i)"
proof -
  have "net_agree x y b \<longleftrightarrow> (\<forall>k. \<not> bit (drop_bit (LENGTH('a) - b) (x XOR y)) k)"
    by (simp only: net_agree_def word_eq_0_bits)
  also have "\<dots> \<longleftrightarrow> (\<forall>k. bit x (LENGTH('a) - b + k) = bit y (LENGTH('a) - b + k))"
    by (simp add: bit_simps)
  also have "\<dots> \<longleftrightarrow> (\<forall>i < LENGTH('a). LENGTH('a) - b \<le> i \<longrightarrow> bit x i = bit y i)"
    by (metis bit_imp_le_length le_add1 le_add_diff_inverse linorder_not_le)
  finally show ?thesis .
qed

lemma net_masked_eq_iff:
  "net_masked (x :: 'a::len word) b = net_masked y b \<longleftrightarrow> net_agree x y b"
  unfolding net_agree_bits
  by (auto simp: net_masked_def bit_eq_iff bit_simps)

lemma net_agree_refl [simp]: "net_agree x x b"
  by (simp add: net_agree_bits)

lemma net_agree_sym: "net_agree x y b \<longleftrightarrow> net_agree y x b"
  by (auto simp: net_agree_bits)

lemma net_agree_trans: "net_agree x y b \<Longrightarrow> net_agree y z b \<Longrightarrow> net_agree x z b"
  by (auto simp: net_agree_bits)

lemma net_agree_mono: "net_agree x y b \<Longrightarrow> c \<le> b \<Longrightarrow> net_agree x y c"
  by (auto simp: net_agree_bits)

lemma net_agree_0 [simp]: "net_agree x y 0"
  by (auto simp: net_agree_bits)

lemma net_masked_idem [simp]: "net_masked (net_masked w b) b = net_masked w b"
  by (simp add: net_masked_def and.assoc)

lemma net_agree_masked [simp]: "net_agree (net_masked w b) w b"
  by (simp flip: net_masked_eq_iff)

text \<open>
  Two blocks meet exactly when their bases agree on the shorter prefix: the meaning of
  \<open>Overlaps\<close> as sets of addresses.
\<close>

lemma net_agree_meet:
  "net_agree (x :: 'a::len word) y (min b c) \<longleftrightarrow> (\<exists>a. net_agree a x b \<and> net_agree a y c)"
proof
  assume ag: "net_agree x y (min b c)"
  show "\<exists>a. net_agree a x b \<and> net_agree a y c"
  proof (cases "b \<le> c")
    case True
    with ag show ?thesis by (auto simp: min_def net_agree_sym [of y] intro: exI [of _ y])
  next
    case False
    with ag show ?thesis by (auto simp: min_def intro: exI [of _ x])
  qed
next
  assume "\<exists>a. net_agree a x b \<and> net_agree a y c"
  then show "net_agree x y (min b c)"
    by (metis min.cobounded1 min.cobounded2 net_agree_mono net_agree_sym net_agree_trans)
qed

text \<open>A masked base is the least address of its block, which is an interval of \<open>2 ^ n\<close> addresses.\<close>

lemma net_agree_div:
  "net_agree (x :: 'a::len word) y b \<longleftrightarrow>
     unat x div 2 ^ (LENGTH('a) - b) = unat y div 2 ^ (LENGTH('a) - b)"
proof -
  have "net_agree x y b \<longleftrightarrow> drop_bit (LENGTH('a) - b) x = drop_bit (LENGTH('a) - b) y"
    by (simp only: net_agree_def drop_bit_xor word_xor_eq_0)
  also have "\<dots> \<longleftrightarrow> unat (drop_bit (LENGTH('a) - b) x) = unat (drop_bit (LENGTH('a) - b) y)"
    by (simp add: word_unat_eq_iff)
  finally show ?thesis unfolding unat_drop_bit_eq by (simp only: drop_bit_eq_div)
qed

section \<open>Addresses and prefixes\<close>

datatype addr = AddrZero | Addr4 "32 word" | Addr6 "128 word" string

text \<open>\<open>Bits\<close> is -1 for a prefix that is not valid, as in the source's library.\<close>

datatype prefix = Prefix (pfx_addr: addr) (pfx_bits: int)

fun BitLen :: "addr \<Rightarrow> nat" where
  "BitLen AddrZero = 0"
| "BitLen (Addr4 _) = 32"
| "BitLen (Addr6 _ _) = 128"

fun Is4 :: "addr \<Rightarrow> bool" where
  "Is4 (Addr4 _) = True"
| "Is4 _ = False"

fun Is6 :: "addr \<Rightarrow> bool" where
  "Is6 (Addr6 _ _) = True"
| "Is6 _ = False"

definition addr_valid :: "addr \<Rightarrow> bool" where
  "addr_valid a \<longleftrightarrow> a \<noteq> AddrZero"

fun addr_zone :: "addr \<Rightarrow> string" where
  "addr_zone (Addr6 _ z) = z"
| "addr_zone _ = []"

fun withoutZone :: "addr \<Rightarrow> addr" where
  "withoutZone (Addr6 w _) = Addr6 w []"
| "withoutZone a = a"

definition PrefixFrom :: "addr \<Rightarrow> int \<Rightarrow> prefix" where
  "PrefixFrom a b =
     Prefix (withoutZone a) (if addr_valid a \<and> 0 \<le> b \<and> b \<le> int (BitLen a) then b else -1)"

definition pfx_valid :: "prefix \<Rightarrow> bool" where
  "pfx_valid p \<longleftrightarrow> 0 \<le> pfx_bits p \<and> pfx_bits p \<le> int (BitLen (pfx_addr p)) \<and> addr_valid (pfx_addr p)"

text \<open>\<open>Prefix.Masked\<close>: host bits cleared; the zero prefix when the prefix is not valid.\<close>

fun addr_masked :: "addr \<Rightarrow> nat \<Rightarrow> addr" where
  "addr_masked AddrZero b = AddrZero"
| "addr_masked (Addr4 w) b = Addr4 (net_masked w b)"
| "addr_masked (Addr6 w z) b = Addr6 (net_masked w b) []"

definition Masked :: "prefix \<Rightarrow> prefix" where
  "Masked p = (if pfx_valid p then Prefix (addr_masked (pfx_addr p) (nat (pfx_bits p))) (pfx_bits p)
               else Prefix AddrZero (-1))"

definition pfx_contains :: "prefix \<Rightarrow> addr \<Rightarrow> bool" where
  "pfx_contains p a =
     (if \<not> pfx_valid p \<or> addr_zone a \<noteq> [] then False
      else (case (pfx_addr p, a) of
          (Addr4 x, Addr4 y) \<Rightarrow> net_agree y x (nat (pfx_bits p))
        | (Addr6 x _, Addr6 y _) \<Rightarrow> net_agree y x (nat (pfx_bits p))
        | _ \<Rightarrow> False))"

definition Overlaps :: "prefix \<Rightarrow> prefix \<Rightarrow> bool" where
  "Overlaps p q =
     (if \<not> pfx_valid p \<or> \<not> pfx_valid q then False
      else if p = q then True
      else if Is4 (pfx_addr p) \<noteq> Is4 (pfx_addr q) then False
      else (let m = min (nat (pfx_bits p)) (nat (pfx_bits q))
            in if m = 0 then True else addr_masked (pfx_addr p) m = addr_masked (pfx_addr q) m))"

text \<open>\<open>Addr.Next\<close>: the zero address after the last one.\<close>

fun Next :: "addr \<Rightarrow> addr" where
  "Next AddrZero = AddrZero"
| "Next (Addr4 w) = (if w = - 1 then AddrZero else Addr4 (w + 1))"
| "Next (Addr6 w z) = (if w = - 1 then AddrZero else Addr6 (w + 1) z)"

text \<open>\<open>Addr.Less\<close> (by bit length, then value, then zone).\<close>

fun str_less :: "string \<Rightarrow> string \<Rightarrow> bool" where
  "str_less s [] = False"
| "str_less [] (d # t) = True"
| "str_less (c # s) (d # t) =
     ((of_char c :: nat) < of_char d \<or> (c = d \<and> str_less s t))"

fun addr_less :: "addr \<Rightarrow> addr \<Rightarrow> bool" where
  "addr_less (Addr4 x) (Addr4 y) = (x < y)"
| "addr_less (Addr6 x z) (Addr6 y z') = (x < y \<or> (x = y \<and> str_less z z'))"
| "addr_less a b = (BitLen a < BitLen b)"

section \<open>Meaning of containment and overlap\<close>

text \<open>Prefixes carry no zone: \<open>PrefixFrom\<close> strips it and \<open>ParsePrefix\<close> refuses it.\<close>

definition pfx_wf :: "prefix \<Rightarrow> bool" where
  "pfx_wf p \<longleftrightarrow> pfx_valid p \<and> addr_zone (pfx_addr p) = []"

lemma pfx_contains_4:
  "pfx_contains (Prefix (Addr4 x) b) a \<longleftrightarrow>
     pfx_valid (Prefix (Addr4 x) b) \<and> (\<exists>y. a = Addr4 y \<and> net_agree y x (nat b))"
  by (cases a) (auto simp: pfx_contains_def)

lemma pfx_contains_6:
  "pfx_contains (Prefix (Addr6 x z) b) a \<longleftrightarrow>
     pfx_valid (Prefix (Addr6 x z) b) \<and> (\<exists>y. a = Addr6 y [] \<and> net_agree y x (nat b))"
  by (cases a) (auto simp: pfx_contains_def)

lemma pfx_contains_0: "\<not> pfx_contains (Prefix AddrZero b) a"
  by (cases a) (auto simp: pfx_contains_def pfx_valid_def addr_valid_def)

lemmas pfx_contains_cases = pfx_contains_4 pfx_contains_6 pfx_contains_0

lemma Overlaps_iff_meet:
  assumes "pfx_wf p" "pfx_wf q"
  shows "Overlaps p q \<longleftrightarrow> (\<exists>a. pfx_contains p a \<and> pfx_contains q a)"
proof -
  obtain x b y c where pq: "p = Prefix x b" "q = Prefix y c" by (metis prefix.exhaust)
  have self: "pfx_contains r (pfx_addr r)" if "pfx_wf r" for r
    using that by (cases "pfx_addr r") (auto simp: pfx_wf_def pfx_valid_def addr_valid_def pfx_contains_def)
  show ?thesis
  proof (cases "p = q")
    case True
    then show ?thesis using assms self [of p] by (auto simp: Overlaps_def pfx_wf_def)
  next
    case False
    show ?thesis
    proof (cases "x"; cases "y")
      fix v w assume *: "x = Addr4 v" "y = Addr4 w"
      have "Overlaps p q \<longleftrightarrow> net_agree v w (min (nat b) (nat c))"
        using assms False * pq by (auto simp: Overlaps_def pfx_wf_def Let_def net_masked_eq_iff)
      also have "\<dots> \<longleftrightarrow> (\<exists>a. pfx_contains p a \<and> pfx_contains q a)"
        using assms * pq by (auto simp: net_agree_meet pfx_contains_cases pfx_wf_def)
      finally show ?thesis .
    next
      fix v z w z' assume *: "x = Addr6 v z" "y = Addr6 w z'"
      have zs: "z = []" "z' = []" using assms * pq by (auto simp: pfx_wf_def)
      have "Overlaps p q \<longleftrightarrow> net_agree v w (min (nat b) (nat c))"
        using assms False * pq zs by (auto simp: Overlaps_def pfx_wf_def Let_def net_masked_eq_iff)
      also have "\<dots> \<longleftrightarrow> (\<exists>a. pfx_contains p a \<and> pfx_contains q a)"
        using assms * pq by (auto simp: net_agree_meet pfx_contains_cases pfx_wf_def)
      finally show ?thesis .
    qed (use assms pq False in \<open>auto simp: Overlaps_def pfx_contains_cases pfx_wf_def pfx_valid_def addr_valid_def\<close>)
  qed
qed

lemma Overlaps_sym: "Overlaps p q = Overlaps q p"
  by (auto simp: Overlaps_def Let_def min.commute)

lemma Overlaps_refl: "pfx_valid p \<Longrightarrow> Overlaps p p"
  by (simp add: Overlaps_def)

end
