(* ===== verification/NetipRoundtrip.thy ===== *)
theory NetipRoundtrip
  imports NetipText
begin

text \<open>
  Parsing an address or a prefix reads back exactly what printing wrote, for both families,
  and the printed text holds only visible ASCII characters other than the comma.
  These are the facts the database relies on when it joins canonical CIDRs with commas.
\<close>

section \<open>Character facts\<close>

lemma is_digit_hex: "is_digit c \<Longrightarrow> hex_val c = Some (digit_val c)"
  by (auto simp: is_digit_def hex_val_def digit_val_def Let_def)

lemma digit_char [simp]: "n < 10 \<Longrightarrow> is_digit (char_of (48 + n))"
  "n < 10 \<Longrightarrow> digit_val (char_of (48 + n)) = n"
  by (simp_all add: is_digit_def digit_val_def)

lemma sep_not_digit [simp]:
  "\<not> is_digit (CHR ''.'')" "\<not> is_digit (CHR '':'')" "\<not> is_digit (CHR ''%'')"
  "\<not> is_digit (CHR ''/'')" "\<not> is_digit (CHR '','')"
  by (simp_all add: is_digit_def)

lemma sep_not_hex [simp]:
  "hex_val (CHR ''.'') = None" "hex_val (CHR '':'') = None" "hex_val (CHR ''%'') = None"
  "hex_val (CHR ''/'') = None"
  by (simp_all add: hex_val_def)

lemma sep_notin_dec [simp]:
  "CHR ''.'' \<notin> set (dec n)" "CHR '':'' \<notin> set (dec n)" "CHR ''%'' \<notin> set (dec n)"
  "CHR ''/'' \<notin> set (dec n)"
  using dec_digits by fastforce+

lemma sep_notin_hex [simp]:
  "CHR ''.'' \<notin> set (hex n)" "CHR '':'' \<notin> set (hex n)" "CHR ''%'' \<notin> set (hex n)"
  "CHR ''/'' \<notin> set (hex n)"
  using hex_chars [of n] by force+

section \<open>Dotted decimal\<close>

lemma parse4_dec:
  "n < 256 \<Longrightarrow> parse4 (dec n @ rest) 0 0 fs = parse4 rest n (length (dec n)) fs"
proof (induction n arbitrary: rest rule: dec.induct)
  case (1 n)
  show ?case
  proof (cases "n < 10")
    case True
    then show ?thesis by (subst (1 2) dec.simps) simp
  next
    case False
    then have d: "dec n = dec (n div 10) @ [char_of (48 + n mod 10)]" by (subst dec.simps) simp
    have "parse4 (dec n @ rest) 0 0 fs
        = parse4 (dec (n div 10) @ char_of (48 + n mod 10) # rest) 0 0 fs" by (simp add: d)
    also have "\<dots> = parse4 (char_of (48 + n mod 10) # rest) (n div 10) (length (dec (n div 10))) fs"
      using 1 False by simp
    also have "\<dots> = parse4 rest n (length (dec n)) fs"
    proof -
      have "n div 10 \<noteq> 0" using False by simp
      moreover have "n div 10 * 10 + n mod 10 = n" by simp
      ultimately show ?thesis using 1(2) by (simp add: d Let_def del: div_eq_0_iff)
    qed
    finally show ?thesis .
  qed
qed

lemma parse4_octet:
  "n < 256 \<Longrightarrow> length fs < 3 \<Longrightarrow> rest \<noteq> [] \<Longrightarrow>
   parse4 (dec n @ CHR ''.'' # rest) 0 0 fs = parse4 rest 0 0 (fs @ [n])"
  by (simp add: parse4_dec)

lemma parse4_last: "n < 256 \<Longrightarrow> length fs = 3 \<Longrightarrow> parse4 (dec n) 0 0 fs = Some (fs @ [n])"
  using parse4_dec [of n "[]" fs] by simp

lemma octets4_bound: "\<forall>d \<in> set (octets4 w). d < 256"
  by (auto simp: octets4_def dest: to_base_bound [rotated])

lemma octets4_cases: obtains a b c d where "octets4 w = [a, b, c, d]"
  "a < 256" "b < 256" "c < 256" "d < 256"
proof -
  have "length (octets4 w) = 4" by (simp add: octets4_def)
  then obtain a b c d where "octets4 w = [a, b, c, d]"
    by (auto simp: length_Suc_conv eval_nat_numeral)
  with octets4_bound [of w] that show ?thesis by auto
qed

lemma parse4_show4: "parse4 (show4 w) 0 0 [] = Some (octets4 w)"
proof -
  obtain a b c d where o: "octets4 w = [a, b, c, d]" "a < 256" "b < 256" "c < 256" "d < 256"
    by (rule octets4_cases)
  then show ?thesis by (simp add: show4_def parse4_octet parse4_last)
qed

lemma show4_first:
  obtains n rest where "show4 w = dec n @ CHR ''.'' # rest" "n < 256"
proof -
  obtain a b c d where "octets4 w = [a, b, c, d]" "a < 256" by (rule octets4_cases)
  with that [of a "join ''.'' (map dec [b, c, d])"] show ?thesis by (simp add: show4_def)
qed

lemma show4_chars: "\<forall>c \<in> set (show4 w). is_digit c \<or> c = CHR ''.''"
proof
  fix c assume "c \<in> set (show4 w)"
  then have "c \<in> set ''.'' \<union> (\<Union>x \<in> set (map dec (octets4 w)). set x)"
    using set_join unfolding show4_def by blast
  then show "is_digit c \<or> c = CHR ''.''" using dec_digits by auto
qed

lemma ParseAddr_show4: "ParseAddr (show4 w) = Some (Addr4 w)"
proof -
  obtain n rest where s: "show4 w = dec n @ CHR ''.'' # rest" by (rule show4_first)
  have "dropWhile (\<lambda>c. c \<notin> set ''.:%'') (show4 w) = CHR ''.'' # rest"
    unfolding s by (subst dropWhile_append2) (use sep_notin_dec in force, simp)
  then show ?thesis
    by (simp add: ParseAddr_def parse_addr4_def parse4_show4)
qed

section \<open>Hexadecimal groups\<close>

lemma length_hex: "n < 16 ^ k \<Longrightarrow> 0 < k \<Longrightarrow> length (hex n) \<le> k"
proof (induction n arbitrary: k rule: hex.induct)
  case (1 n)
  show ?case
  proof (cases "n < 16")
    case True
    then show ?thesis using 1(3) by (subst hex.simps) simp
  next
    case False
    then obtain j where k: "k = Suc j" "0 < j" using 1(2,3) by (cases k; cases "k - 1") auto
    have "n div 16 < 16 ^ j" using 1(2) k by (simp add: less_mult_imp_div_less mult.commute)
    then have "length (hex (n div 16)) \<le> j" using 1(1) False k by simp
    then show ?thesis using False k by (subst hex.simps) simp
  qed
qed

lemma hexrun_hex:
  "n < 65536 \<Longrightarrow> length (hex n) \<le> 4 \<Longrightarrow>
   hexrun (hex n @ rest) 0 0 = hexrun rest (length (hex n)) n"
proof (induction n arbitrary: rest rule: hex.induct)
  case (1 n)
  show ?case
  proof (cases "n < 16")
    case True
    then have "hex n = [hex_digit n]" by (subst hex.simps) simp
    with True show ?thesis by (simp add: hex_val_digit)
  next
    case False
    then have h: "hex n = hex (n div 16) @ [hex_digit (n mod 16)]" by (subst hex.simps) simp
    have l: "length (hex (n div 16)) \<le> 3" using 1(3) h by simp
    have "hexrun (hex n @ rest) 0 0 = hexrun (hex (n div 16) @ hex_digit (n mod 16) # rest) 0 0"
      by (simp add: h)
    also have "\<dots> = hexrun (hex_digit (n mod 16) # rest) (length (hex (n div 16))) (n div 16)"
      using 1(1,2) False l by simp
    also have "\<dots> = hexrun rest (length (hex n)) n"
      using l 1(2) by (simp add: h hex_val_digit)
    finally show ?thesis .
  qed
qed

lemma hexrun_group:
  assumes "n < 65536" and "rest = [] \<or> hex_val (hd rest) = None"
  shows "hexrun (hex n @ rest) 0 0 = Some (length (hex n), n, rest)"
proof -
  have "length (hex n) \<le> 4" using assms(1) length_hex [of n 4] by simp
  then have "hexrun (hex n @ rest) 0 0 = hexrun rest (length (hex n)) n"
    using assms(1) by (rule hexrun_hex [rotated])
  also have "\<dots> = Some (length (hex n), n, rest)" using assms(2) by (cases rest) auto
  finally show ?thesis .
qed

text \<open>A decimal octet read as hexadecimal digits up to the dot.\<close>

lemma hexrun_any:
  "\<forall>c \<in> set ds. is_digit c \<Longrightarrow> off + length ds \<le> 4 \<Longrightarrow> acc < 16 ^ off \<Longrightarrow>
   hex_val (hd rest) = None \<Longrightarrow> rest \<noteq> [] \<Longrightarrow>
   \<exists>v. hexrun (ds @ rest) off acc = Some (off + length ds, v, rest)"
proof (induction ds arbitrary: off acc)
  case Nil
  then show ?case by (cases rest) auto
next
  case (Cons c ds)
  have c: "hex_val c = Some (digit_val c)" "digit_val c < 16"
    using Cons.prems(1) by (auto simp: is_digit_hex digit_val_def is_digit_def)
  have "(16::nat) ^ off \<le> 16 ^ 3" using Cons.prems(2) by (intro power_increasing) auto
  then have b: "acc * 16 + digit_val c \<le> 65535" "acc * 16 + digit_val c < 16 ^ Suc off"
    using Cons.prems(3) c(2) by auto
  have "\<exists>v. hexrun (ds @ rest) (Suc off) (acc * 16 + digit_val c) = Some (Suc off + length ds, v, rest)"
    by (rule Cons.IH) (use Cons.prems b in auto)
  with c b(1) Cons.prems(2) show ?case by simp
qed

lemma length_dec: "n < 10 ^ k \<Longrightarrow> 0 < k \<Longrightarrow> length (dec n) \<le> k"
proof (induction n arbitrary: k rule: dec.induct)
  case (1 n)
  show ?case
  proof (cases "n < 10")
    case True
    then show ?thesis using 1(3) by (subst dec.simps) simp
  next
    case False
    then obtain j where k: "k = Suc j" "0 < j" using 1(2,3) by (cases k; cases "k - 1") auto
    have "n div 10 < 10 ^ j" using 1(2) k by (simp add: less_mult_imp_div_less mult.commute)
    then have "length (dec (n div 10)) \<le> j" using 1(1) False k by simp
    then show ?thesis using False k by (subst dec.simps) simp
  qed
qed

lemma hexrun_octet:
  assumes "n < 256"
  shows "\<exists>v. hexrun (dec n @ CHR ''.'' # rest) 0 0 = Some (length (dec n), v, CHR ''.'' # rest)"
proof -
  have "length (dec n) \<le> 3" using assms length_dec [of n 3] by simp
  then show ?thesis
    using hexrun_any [of "dec n" 0 0 "CHR ''.'' # rest"] dec_digits by auto
qed

section \<open>The loop of parseIPv6\<close>

lemma loop_last:
  "g < 65536 \<Longrightarrow> length gs < 8 \<Longrightarrow> parse6_loop (hex g) gs ell = Some ([], gs @ [g], ell)"
  using hexrun_group [of g "[]"] by (subst parse6_loop.simps) simp

lemma loop_next:
  "g < 65536 \<Longrightarrow> length gs < 8 \<Longrightarrow> hex_val c \<noteq> None \<Longrightarrow>
   parse6_loop (hex g @ CHR '':'' # c # rest) gs ell = parse6_loop (c # rest) (gs @ [g]) ell"
  using hexrun_group [of g "CHR '':'' # c # rest"] sep_not_hex(2)
  by (subst parse6_loop.simps) auto

lemma loop_ellipsis:
  "g < 65536 \<Longrightarrow> length gs < 8 \<Longrightarrow>
   parse6_loop (hex g @ ''::'' @ rest) gs None =
     (if rest = [] then Some ([], gs @ [g], Some (length gs + 1))
      else parse6_loop rest (gs @ [g]) (Some (length gs + 1)))"
  using hexrun_group [of g "''::'' @ rest"]
  by (subst parse6_loop.simps) simp

lemma loop_v4:
  assumes "ell \<noteq> None \<or> length gs = 6" and "length gs \<le> 6"
  shows "parse6_loop (show4 w) gs ell = Some ([], gs @ to_base 65536 2 (unat w), ell)"
proof -
  obtain n rest where s: "show4 w = dec n @ CHR ''.'' # rest" "n < 256" by (rule show4_first)
  then obtain v where h: "hexrun (show4 w) 0 0 = Some (length (dec n), v, CHR ''.'' # rest)"
    using hexrun_octet by fastforce
  have "unat w < 256 ^ 4" using unsigned_less [of w] by simp
  then have "of_base 256 (octets4 w) = unat w" by (simp add: octets4_def of_base_to_base)
  with h assms show ?thesis
    by (subst parse6_loop.simps) (auto simp: parse4_show4)
qed

lemma join_hex_hd:
  assumes "B \<noteq> []" obtains c rest where "join '':'' (map hex B) = c # rest" "hex_val c \<noteq> None"
proof -
  obtain g B' where B: "B = g # B'" using assms by (cases B) auto
  obtain c cs where c: "hex g = c # cs" by (cases "hex g") auto
  with hex_chars [of g] have "hex_val c \<noteq> None" by auto
  with that B c show thesis by (cases B') auto
qed

lemma loop_tail:
  "B \<noteq> [] \<Longrightarrow> length gs + length B \<le> 8 \<Longrightarrow> \<forall>g \<in> set B. g < 65536 \<Longrightarrow>
   parse6_loop (join '':'' (map hex B)) gs ell = Some ([], gs @ B, ell)"
proof (induction B arbitrary: gs)
  case Nil
  then show ?case by simp
next
  case (Cons g B)
  show ?case
  proof (cases "B = []")
    case True
    then show ?thesis using Cons.prems by (simp add: loop_last)
  next
    case False
    then obtain c rest where c: "join '':'' (map hex B) = c # rest" "hex_val c \<noteq> None"
      by (rule join_hex_hd)
    have "parse6_loop (join '':'' (map hex (g # B))) gs ell = parse6_loop (c # rest) (gs @ [g]) ell"
      using Cons.prems False c loop_next [of g gs c rest] by (simp add: join_Cons)
    also have "\<dots> = Some ([], (gs @ [g]) @ B, ell)"
      unfolding c(1) [symmetric] by (rule Cons.IH) (use Cons.prems False in auto)
    finally show ?thesis by simp
  qed
qed

lemma loop_head:
  "A \<noteq> [] \<Longrightarrow> length gs + length A \<le> 8 \<Longrightarrow> \<forall>g \<in> set A. g < 65536 \<Longrightarrow>
   parse6_loop (join '':'' (map hex A) @ ''::'' @ r) gs None =
     (if r = [] then Some ([], gs @ A, Some (length gs + length A))
      else parse6_loop r (gs @ A) (Some (length gs + length A)))"
proof (induction A arbitrary: gs)
  case Nil
  then show ?case by simp
next
  case (Cons g A)
  show ?case
  proof (cases "A = []")
    case True
    then show ?thesis using Cons.prems loop_ellipsis [of g gs r] by simp
  next
    case False
    then obtain c rest where c: "join '':'' (map hex A) = c # rest" "hex_val c \<noteq> None"
      by (rule join_hex_hd)
    have "parse6_loop (join '':'' (map hex (g # A)) @ ''::'' @ r) gs None
        = parse6_loop ((c # rest) @ ''::'' @ r) (gs @ [g]) None"
      using Cons.prems False c loop_next [of g gs c "rest @ ''::'' @ r"] by (simp add: join_Cons)
    also have "\<dots> = (if r = [] then Some ([], (gs @ [g]) @ A, Some (length (gs @ [g]) + length A))
      else parse6_loop r ((gs @ [g]) @ A) (Some (length (gs @ [g]) + length A)))"
      unfolding c(1) [symmetric] by (rule Cons.IH) (use Cons.prems False in auto)
    finally show ?thesis by simp
  qed
qed

section \<open>The compressed run of zeros\<close>

definition run_ok :: "nat list \<Rightarrow> nat \<times> nat \<Rightarrow> bool" where
  "run_ok gs r \<longleftrightarrow> (case r of (s, e) \<Rightarrow> (s = 255 \<and> e = 255) \<or>
     (s + 2 \<le> e \<and> e \<le> length gs \<and> (\<forall>k. s \<le> k \<and> k < e \<longrightarrow> gs ! k = 0)))"

lemma takeWhile_zero_nth: "k < length (takeWhile (\<lambda>g. g = (0::nat)) xs) \<Longrightarrow> xs ! k = 0"
proof (induction xs arbitrary: k)
  case (Cons x xs)
  then show ?case by (cases k) (auto split: if_splits)
qed simp

lemma zero_run_le: "i \<le> length gs \<Longrightarrow> i + zero_run gs i \<le> length gs"
  using length_takeWhile_le [of "\<lambda>g. g = 0" "drop i gs"] by (simp add: zero_run_def)

lemma zero_run_zeros: "i \<le> length gs \<Longrightarrow> i \<le> k \<Longrightarrow> k < i + zero_run gs i \<Longrightarrow> gs ! k = 0"
  using takeWhile_zero_nth [of "k - i" "drop i gs"] by (simp add: zero_run_def)

lemma best_run_fold:
  assumes "run_ok gs r" and "\<forall>i \<in> set is. i \<le> length gs"
  shows "run_ok gs (foldl (\<lambda>(s, e) i. let l = zero_run gs i
       in if 2 \<le> l \<and> e - s < l then (i, i + l) else (s, e)) r is)"
  using assms
proof (induction "is" arbitrary: r)
  case Nil
  then show ?case by simp
next
  case (Cons i "is")
  obtain s e where r: "r = (s, e)" by (cases r)
  have "run_ok gs (i, i + zero_run gs i)" if "2 \<le> zero_run gs i"
    using that Cons.prems(2) zero_run_le [of i gs] zero_run_zeros [of i gs]
    by (simp add: run_ok_def)
  then show ?case using Cons r by (auto simp: Let_def)
qed

lemma best_run_ok: "length gs = 8 \<Longrightarrow> run_ok gs (best_run gs)"
  unfolding best_run_def by (rule best_run_fold) (auto simp: run_ok_def)

lemma parse6_show6:
  assumes len: "length gs = 8" and b: "\<forall>g \<in> set gs. g < 65536"
  shows "parse6_groups (show6 gs) = Some gs"
proof -
  obtain s e where r: "best_run gs = (s, e)" by (cases "best_run gs")
  have hp: "\<not> HasPrefix (c # t) ''::''" if "hex_val c \<noteq> None" for c t
    using that sep_not_hex(2) by (auto simp: HasPrefix_def)
  show ?thesis
  proof (cases "s = 255")
    case True
    then have "show6 gs = join '':'' (map hex gs)" by (simp add: show6_def r)
    moreover obtain c t where "join '':'' (map hex gs) = c # t" "hex_val c \<noteq> None"
      using join_hex_hd [of gs] len by (metis length_0_conv zero_neq_numeral)
    moreover have "gs \<noteq> []" using len by auto
    ultimately show ?thesis
      using loop_tail [of gs "[]" None] len b hp [of c t]
      by (auto simp: parse6_groups_def parse6_finish_def)
  next
    case False
    with best_run_ok [OF len] r have ok: "s + 2 \<le> e" "e \<le> 8" "\<And>k. s \<le> k \<Longrightarrow> k < e \<Longrightarrow> gs ! k = 0"
      by (auto simp: run_ok_def len)
    define A where "A = take s gs"
    define B where "B = drop e gs"
    have AB: "length A = s" "length B = 8 - e" "\<forall>g \<in> set A. g < 65536" "\<forall>g \<in> set B. g < 65536"
      using len ok b by (auto simp: A_def B_def dest: in_set_takeD in_set_dropD)
    have mid: "drop s (take e gs) = replicate (e - s) 0"
      by (rule nth_equalityI) (use ok len in auto)
    have "gs = take s (take e gs) @ drop s (take e gs) @ drop e gs"
      by (metis append_assoc append_take_drop_id)
    then have gs: "gs = A @ replicate (e - s) 0 @ B"
      using ok mid by (simp add: A_def B_def min_def)
    have shown: "show6 gs = join '':'' (map hex A) @ ''::'' @ join '':'' (map hex B)"
      using False by (simp add: show6_def r A_def B_def)
    have tail: "parse6_loop (join '':'' (map hex B)) A (Some s) = Some ([], A @ B, Some s)" if "B \<noteq> []"
      by (rule loop_tail) (use that AB ok in auto)
    have fin: "parse6_finish ([], A @ B, Some s) = Some gs"
    proof -
      have "length (A @ B) < 8" and "8 - length (A @ B) = e - s" using AB ok by auto
      then show ?thesis using AB(1) gs by (simp add: parse6_finish_def)
    qed
    show ?thesis
    proof (cases "A = []")
      case True
      show ?thesis
      proof (cases "B = []")
        case True
        have "gs = replicate 8 0" using gs \<open>A = []\<close> True AB ok by auto
        then show ?thesis using shown \<open>A = []\<close> True by (simp add: parse6_groups_def HasPrefix_def)
      next
        case False
        then obtain c t where "join '':'' (map hex B) = c # t" by (rule join_hex_hd)
        then show ?thesis
          using shown \<open>A = []\<close> tail [OF False] fin AB
          by (simp add: parse6_groups_def HasPrefix_def)
      qed
    next
      case False
      then obtain c t where c: "join '':'' (map hex A) = c # t" "hex_val c \<noteq> None"
        by (rule join_hex_hd)
      have "parse6_loop (show6 gs) [] None = Some ([], A @ B, Some s)"
        unfolding shown
        using loop_head [OF False, of "[]" "join '':'' (map hex B)"] tail AB ok
        by (cases "B = []") (auto elim!: join_hex_hd)
      then show ?thesis
        using shown c hp fin by (simp add: parse6_groups_def)
    qed
  qed
qed

lemma groups6_facts: "length (groups6 w) = 8" "\<forall>g \<in> set (groups6 w). g < 65536"
  by (auto simp: groups6_def dest: to_base_bound [rotated])

text \<open>The colon comes before any dot or percent sign.\<close>

lemma show6_first:
  assumes "length gs = 8"
  obtains p r where "show6 gs = p @ CHR '':'' # r" "\<forall>c \<in> set p. hex_val c \<noteq> None"
proof -
  have hx: "\<forall>c \<in> set (hex n). hex_val c \<noteq> None" for n using hex_chars [of n] by auto
  have split: "\<exists>p r. join '':'' (map hex (g # xs)) @ CHR '':'' # t = p @ CHR '':'' # r
      \<and> (\<forall>c \<in> set p. hex_val c \<noteq> None)" for g xs t
    using hx [of g] by (cases xs) fastforce+
  obtain s e where r: "best_run gs = (s, e)" by (cases "best_run gs")
  obtain g h xs where gs: "gs = g # h # xs" using assms by (auto simp: length_Suc_conv eval_nat_numeral)
  have "\<exists>p r. show6 gs = p @ CHR '':'' # r \<and> (\<forall>c \<in> set p. hex_val c \<noteq> None)"
  proof (cases "s = 255")
    case True
    then show ?thesis using r gs hx [of g] by (fastforce simp: show6_def)
  next
    case False
    then have t: "show6 gs = join '':'' (map hex (take s gs)) @ CHR '':'' # CHR '':'' # join '':'' (map hex (drop e gs))"
      by (simp add: show6_def r)
    show ?thesis
    proof (cases "take s gs")
      case Nil
      then show ?thesis unfolding t by force
    next
      case (Cons g' xs')
      then show ?thesis using split [of g' xs' "CHR '':'' # join '':'' (map hex (drop e gs))"] t by simp
    qed
  qed
  with that show ?thesis by blast
qed

lemma show6_chars: "\<forall>c \<in> set (show6 gs). hex_val c \<noteq> None \<or> c = CHR '':''"
proof -
  have hx: "c \<in> set (hex n) \<Longrightarrow> hex_val c \<noteq> None" for c n using hex_chars [of n] by auto
  have j: "\<forall>c \<in> set (join '':'' (map hex xs)). hex_val c \<noteq> None \<or> c = CHR '':''" for xs
    using set_join [of "'':''" "map hex xs"] hx by fastforce
  show ?thesis using j by (auto simp: show6_def split: prod.splits)
qed

lemma sep_notin_show6: "CHR ''%'' \<notin> set (show6 gs)" "CHR ''/'' \<notin> set (show6 gs)"
  using show6_chars [of gs] by fastforce+

definition show6_body :: "128 word \<Rightarrow> string" where
  "show6_body w = (let gs = groups6 w
     in if Is4In6 gs then ''::ffff:'' @ show4 (of_nat (of_base 65536 (drop 6 gs))) else show6 gs)"

lemma show_addr6: "show_addr (Addr6 w z) = show6_body w @ show_zone z"
  by (simp add: show6_body_def Let_def)

lemma body_4in6:
  assumes "Is4In6 (groups6 w)"
  shows "parse6_groups (''::ffff:'' @ show4 (of_nat (of_base 65536 (drop 6 (groups6 w))))) = Some (groups6 w)"
proof -
  have len: "length (groups6 w) = 8" and b: "\<forall>g \<in> set (groups6 w). g < 65536"
    by (rule groups6_facts)+
  obtain a0 a1 a2 a3 a4 a5 g h where gs8: "groups6 w = [a0, a1, a2, a3, a4, a5, g, h]"
    using len by (auto simp: length_Suc_conv eval_nat_numeral)
  with assms have gs: "groups6 w = [0, 0, 0, 0, 0, 65535, g, h]" by (simp add: Is4In6_def)
  with b have gh: "g < 65536" "h < 65536" by auto
  define v :: "32 word" where "v = of_nat (of_base 65536 (drop 6 (groups6 w)))"
  have v: "unat v = g * 65536 + h"
  proof -
    have "v = of_nat (g * 65536 + h)" by (simp add: v_def gs of_base_def)
    moreover have "unat (of_nat (g * 65536 + h) :: 32 word) = g * 65536 + h"
      using gh by (simp only: unat_of_nat) simp
    ultimately show ?thesis by simp
  qed
  have tb: "to_base 65536 2 (unat v) = [g, h]"
    unfolding v using gh by (simp add: numeral_2_eq_2)
  obtain n rest where s4: "show4 v = dec n @ CHR ''.'' # rest" "n < 256" by (rule show4_first)
  obtain c t where ct: "show4 v = c # t" "hex_val c \<noteq> None"
  proof -
    obtain c t where "dec n = c # t" by (cases "dec n") auto
    with dec_digits [of n] s4 that show thesis by (auto simp: is_digit_hex)
  qed
  have ff: "hex 65535 = ''ffff''" by code_simp
  have "parse6_loop (''ffff:'' @ show4 v) [] (Some 0) = parse6_loop (show4 v) [65535] (Some 0)"
    using loop_next [of 65535 "[]" c t "Some 0"] ct ff by simp
  also have "\<dots> = Some ([], [65535, g, h], Some 0)"
    using loop_v4 [of "Some 0" "[65535]" v] tb by simp
  finally have "parse6_groups (''::ffff:'' @ show4 v) = Some (replicate 5 0 @ [65535, g, h])"
    by (simp add: parse6_groups_def HasPrefix_def parse6_finish_def)
  moreover have "replicate 5 (0::nat) = [0, 0, 0, 0, 0]" by code_simp
  ultimately show ?thesis unfolding v_def gs by simp
qed

section \<open>Round trips\<close>

lemma dropWhile_until: "\<forall>c \<in> set p. P c \<Longrightarrow> \<not> P d \<Longrightarrow> dropWhile P (p @ d # r) = d # r"
  by (simp add: dropWhile_append2)

lemma takeWhile_until: "\<forall>c \<in> set p. P c \<Longrightarrow> \<not> P d \<Longrightarrow> takeWhile P (p @ d # r) = p"
  by (simp add: takeWhile_append2)

lemma body6_facts:
  obtains p r where "show6_body w = p @ CHR '':'' # r" "\<forall>c \<in> set p. hex_val c \<noteq> None"
  and "parse6_groups (show6_body w) = Some (groups6 w)"
  and "CHR ''%'' \<notin> set (show6_body w)" "CHR ''/'' \<notin> set (show6_body w)"
proof (cases "Is4In6 (groups6 w)")
  case True
  define t where "t = show4 (of_nat (of_base 65536 (drop 6 (groups6 w))))"
  have b: "show6_body w = ''::ffff:'' @ t" using True by (simp add: show6_body_def t_def Let_def)
  have "parse6_groups (show6_body w) = Some (groups6 w)"
    unfolding b t_def by (rule body_4in6 [OF True])
  moreover have "CHR ''%'' \<notin> set t" "CHR ''/'' \<notin> set t"
    using show4_chars unfolding t_def by fastforce+
  ultimately show ?thesis using that [of "[]" "'':ffff:'' @ t"] by (simp add: b)
next
  case False
  then have b: "show6_body w = show6 (groups6 w)" by (simp add: show6_body_def Let_def)
  obtain p r where "show6 (groups6 w) = p @ CHR '':'' # r" "\<forall>c \<in> set p. hex_val c \<noteq> None"
    using show6_first groups6_facts(1) by metis
  with that sep_notin_show6 [of "groups6 w"] parse6_show6 groups6_facts show ?thesis
    unfolding b by metis
qed

lemma ParseAddr_show6: "ParseAddr (show_addr (Addr6 w z)) = Some (Addr6 w z)"
proof -
  obtain p r where f: "show6_body w = p @ CHR '':'' # r" "\<forall>c \<in> set p. hex_val c \<noteq> None"
    "parse6_groups (show6_body w) = Some (groups6 w)" "CHR ''%'' \<notin> set (show6_body w)"
    by (rule body6_facts)
  have hx: "c \<notin> set ''.:%''" if "hex_val c \<noteq> None" for c
    using that by auto
  have dw: "dropWhile (\<lambda>c. c \<notin> set ''.:%'') (show_addr (Addr6 w z)) = CHR '':'' # r @ show_zone z"
    unfolding show_addr6 f(1) using f(2) hx by (simp add: dropWhile_until)
  have nb: "\<forall>c \<in> set (show6_body w). c \<noteq> CHR ''%''" using f(4) by auto
  have tw: "takeWhile (\<lambda>c. c \<noteq> CHR ''%'') (show_addr (Addr6 w z)) = show6_body w"
    unfolding show_addr6 using nb
    by (cases "z = []") (auto simp: show_zone_def takeWhile_eq_all_conv intro: takeWhile_until [OF nb])
  have dz: "dropWhile (\<lambda>c. c \<noteq> CHR ''%'') (show_addr (Addr6 w z)) = show_zone z"
    unfolding show_addr6 using nb
    by (cases "z = []") (auto simp: show_zone_def dropWhile_eq_Nil_conv intro: dropWhile_until [OF nb])
  show ?thesis
    by (simp only: ParseAddr_def dw list.case parse_addr6_def Let_def tw dz f(3))
      (simp add: show_zone_def)
qed

theorem ParseAddr_show: "addr_valid a \<Longrightarrow> ParseAddr (show_addr a) = Some a"
  by (cases a) (simp_all add: addr_valid_def ParseAddr_show4 ParseAddr_show6 del: show_addr.simps(3))

lemma last_cut_append:
  assumes "d \<notin> set b" shows "last_cut d (a @ d # b) = Some (a, b)"
proof -
  have "\<forall>c \<in> set (rev b). c \<noteq> d" using assms by auto
  then show ?thesis
    by (simp add: last_cut_def dropWhile_until [of "rev b"] takeWhile_until [of "rev b"])
qed

lemma parse_bits_dec [simp]: "parse_bits (dec n) = Some n"
proof -
  have "hd (dec n) \<noteq> CHR ''0''" if "1 < length (dec n)"
  proof -
    have "0 < n" using that by (cases n) (simp_all add: dec.simps [of 0])
    then show ?thesis by (rule hd_dec)
  qed
  then show ?thesis by (simp add: parse_bits_def)
qed

theorem ParsePrefix_show:
  assumes "pfx_wf p"
  shows "ParsePrefix (show_prefix p) = Some p"
proof -
  obtain a b where p: "p = Prefix a b" by (cases p)
  with assms have v: "addr_valid a" "0 \<le> b" "b \<le> int (BitLen a)" "addr_zone a = []"
    by (auto simp: pfx_wf_def pfx_valid_def)
  have "withoutZone a = a" using v(4) by (cases a) auto
  moreover have "last_cut (CHR ''/'') (show_prefix p) = Some (show_addr a, dec (nat b))"
    using v by (simp add: p show_prefix_def pfx_valid_def last_cut_append)
  ultimately show ?thesis
    using v by (simp add: ParsePrefix_def ParseAddr_show p PrefixFrom_def nat_le_iff not_less)
qed

text \<open>What the parser accepts is well formed, so printing it back is canonical.\<close>

lemma ParsePrefix_wf: "ParsePrefix s = Some p \<Longrightarrow> pfx_wf p"
proof -
  assume "ParsePrefix s = Some p"
  then obtain ip a n where pa: "ParseAddr ip = Some a" and z: "addr_zone a = []"
    and n: "n \<le> BitLen a" and p: "p = PrefixFrom a (int n)"
    by (auto simp: ParsePrefix_def not_less split: option.splits if_splits)
  from pa have "addr_valid a"
    by (auto simp: ParseAddr_def parse_addr4_def parse_addr6_def Let_def addr_valid_def
        split: list.splits if_splits)
  with z n p show "pfx_wf p" by (cases a) (auto simp: PrefixFrom_def pfx_wf_def pfx_valid_def)
qed

text \<open>Printed prefixes are visible ASCII without a comma, so they survive trimming and joining.\<close>

definition visible :: "char \<Rightarrow> bool" where
  "visible c \<longleftrightarrow> 33 \<le> (of_char c :: nat) \<and> (of_char c :: nat) < 127 \<and> c \<noteq> CHR '',''"

lemma visible_chars:
  "is_digit c \<Longrightarrow> visible c" "hex_val c \<noteq> None \<Longrightarrow> visible c" "visible CHR ''.''" "visible CHR '':''"
  "visible CHR ''/''"
  by (auto simp: visible_def is_digit_def hex_val_def Let_def split: if_splits)

lemma show_prefix_visible:
  assumes "pfx_wf p" shows "\<forall>c \<in> set (show_prefix p). visible c"
proof -
  obtain a b where p: "p = Prefix a b" by (cases p)
  have s4: "\<forall>c \<in> set (show4 w). visible c" for w using show4_chars visible_chars by blast
  have s6: "\<forall>c \<in> set (show6_body w). visible c" for w
  proof (cases "Is4In6 (groups6 w)")
    case True
    have "\<forall>c \<in> set ''::ffff:''. visible c" by (simp add: visible_def)
    with True s4 show ?thesis by (auto simp: show6_body_def Let_def)
  next
    case False
    with show6_chars [of "groups6 w"] visible_chars(2,4) show ?thesis
      by (auto simp: show6_body_def Let_def)
  qed
  have "\<forall>c \<in> set (show_addr a). visible c"
    using assms s4 s6 by (cases a) (auto simp: p pfx_wf_def show_addr6 show_zone_def pfx_valid_def addr_valid_def
        simp del: show_addr.simps(3))
  moreover have "\<forall>c \<in> set (dec (nat b)). visible c" using dec_digits visible_chars(1) by blast
  ultimately show ?thesis using assms visible_chars by (auto simp: p show_prefix_def pfx_wf_def)
qed

lemma show_prefix_nonempty: "show_prefix p \<noteq> []"
  by (simp add: show_prefix_def)

end
