(* ===== verification/Validate.thy ===== *)
theory Validate
  imports NetipRoundtrip
begin

text \<open>
  \<open>internal/db/validate.go\<close> and the record types of \<open>internal/db/connections.go\<close>:
  what a connection may look like before it is stored.  The lemmas show what each check
  guarantees about the value it let through: a name that is one safe token, a field that
  cannot leave its line, canonical subnets that do not overlap.
\<close>

section \<open>Data\<close>

text \<open>
  The errors of the package, one constructor per error site.  \<open>NotFoundErr\<close> is the one
  that wraps \<open>ErrNotFound\<close>; \<open>SqlErr\<close> is an error of the database driver.
\<close>

datatype dberr =
    BadName string
  | BadField string
  | SpaceField string
  | NoSubnets
  | NotCIDR string
  | HostBits string prefix
  | OverlapSame prefix prefix
  | OverlapClaim prefix prefix string
  | NotIP string
  | HealthIPErr dberr
  | Required string
  | NotFoundErr string int
  | SqlErr string
  | CipherErr string int
  | MigrationErr string

text \<open>\<open>errors.Is(err, ErrNotFound)\<close>, which looks through wrapped errors.\<close>

fun is_not_found :: "dberr \<Rightarrow> bool" where
  "is_not_found (NotFoundErr _ _) = True"
| "is_not_found (HealthIPErr e) = is_not_found e"
| "is_not_found _ = False"

type_synonym 'a db_res = "dberr + 'a"

record connection =
  c_id :: int
  c_name :: string
  c_gateway :: string
  c_user :: string
  c_subnets :: "string list"
  c_hcip :: string
  c_enabled :: bool
  c_created :: int
  c_updated :: int

record secrets =
  s_psk :: string
  s_pass :: string

section \<open>Checks\<close>

definition is_alnum :: "char \<Rightarrow> bool" where
  "is_alnum c \<longleftrightarrow> is_digit c \<or> ((97::nat) \<le> of_char c \<and> (of_char c :: nat) \<le> 122)"

text \<open>The pattern \<open>^[a-z0-9][a-z0-9-]{0,30}[a-z0-9]$\<close>.\<close>

definition name_pattern :: "string \<Rightarrow> bool" where
  "name_pattern s \<longleftrightarrow> 2 \<le> length s \<and> length s \<le> 32 \<and> is_alnum (hd s) \<and> is_alnum (last s)
     \<and> (\<forall>c \<in> set s. is_alnum c \<or> c = CHR ''-'')"

definition ValidateName :: "string \<Rightarrow> unit db_res" where
  "ValidateName name = guardr (\<not> name_pattern name) (BadName name) (Inr ())"

definition validateConfigField :: "string \<Rightarrow> string \<Rightarrow> unit db_res" where
  "validateConfigField field value =
     guardr (\<exists>(r, b) \<in> set (runes value). r = 34 \<or> IsControl r) (BadField field) (Inr ())"

definition validateHostField :: "string \<Rightarrow> string \<Rightarrow> unit db_res" where
  "validateHostField field value =
     bindr (validateConfigField field value) (\<lambda>_.
     guardr (\<exists>(r, b) \<in> set (runes value). IsSpace r) (SpaceField field) (Inr ()))"

definition ValidateSecrets :: "secrets \<Rightarrow> unit db_res" where
  "ValidateSecrets s =
     bindr (if s_psk s \<noteq> [] then validateConfigField ''psk'' (s_psk s) else Inr ()) (\<lambda>_.
     if s_pass s \<noteq> [] then validateConfigField ''ppp password'' (s_pass s) else Inr ())"

definition ParseSubnet :: "string \<Rightarrow> prefix db_res" where
  "ParseSubnet subnet =
     (case ParsePrefix (TrimSpace subnet) of
        None \<Rightarrow> Inl (NotCIDR subnet)
      | Some p \<Rightarrow> guardr (pfx_addr p \<noteq> pfx_addr (Masked p)) (HostBits subnet (Masked p)) (Inr p))"

fun parse_subnets_loop :: "string list \<Rightarrow> prefix list \<Rightarrow> prefix list db_res" where
  "parse_subnets_loop [] prefixes = Inr prefixes"
| "parse_subnets_loop (s # ss) prefixes =
     bindr (ParseSubnet s) (\<lambda>p.
     (case find (\<lambda>seen. Overlaps seen p) prefixes of
        Some seen \<Rightarrow> Inl (OverlapSame p seen)
      | None \<Rightarrow> parse_subnets_loop ss (prefixes @ [p])))"

definition ParseSubnets :: "string list \<Rightarrow> prefix list db_res" where
  "ParseSubnets subnets = guardr (subnets = []) NoSubnets (parse_subnets_loop subnets [])"

record claim =
  cl_owner :: string
  cl_prefix :: prefix

fun CheckOverlap :: "prefix list \<Rightarrow> claim list \<Rightarrow> unit db_res" where
  "CheckOverlap [] claimed = Inr ()"
| "CheckOverlap (c # cs) claimed =
     (case find (\<lambda>cl. Overlaps (cl_prefix cl) c) claimed of
        Some cl \<Rightarrow> Inl (OverlapClaim c (cl_prefix cl) (cl_owner cl))
      | None \<Rightarrow> CheckOverlap cs claimed)"

definition ParseIP :: "string \<Rightarrow> addr db_res" where
  "ParseIP ip = (case ParseAddr (TrimSpace ip) of None \<Rightarrow> Inl (NotIP ip) | Some a \<Rightarrow> Inr a)"

definition validateConnection :: "connection \<Rightarrow> unit db_res" where
  "validateConnection conn =
     bindr (ValidateName (c_name conn)) (\<lambda>_.
     guardr (TrimSpace (c_gateway conn) = []) (Required ''gateway host'') (
     bindr (validateHostField ''gateway host'' (c_gateway conn)) (\<lambda>_.
     guardr (TrimSpace (c_user conn) = []) (Required ''ppp username'') (
     bindr (validateHostField ''ppp username'' (c_user conn)) (\<lambda>_.
     bindr (ParseSubnets (c_subnets conn)) (\<lambda>_.
     if c_hcip conn \<noteq> []
     then (case ParseIP (c_hcip conn) of Inl e \<Rightarrow> Inl (HealthIPErr e) | Inr _ \<Rightarrow> Inr ())
     else Inr ()))))))"

section \<open>Subnet lists: joining and splitting\<close>

definition splitSubnets :: "string \<Rightarrow> string list" where
  "splitSubnets joined = (if joined = [] then [] else split_on (CHR '','') joined)"

definition canonicalSubnet :: "string \<Rightarrow> string" where
  "canonicalSubnet subnet =
     (case ParseSubnet subnet of Inl _ \<Rightarrow> TrimSpace subnet | Inr p \<Rightarrow> show_prefix p)"

definition joinSubnets :: "string list \<Rightarrow> string" where
  "joinSubnets subnets = join '','' (map canonicalSubnet subnets)"

definition prefixesOf :: "string list \<Rightarrow> prefix list" where
  "prefixesOf subnets = concat (map (\<lambda>s. case ParseSubnet s of Inl _ \<Rightarrow> [] | Inr p \<Rightarrow> [p]) subnets)"

section \<open>What the checks guarantee\<close>

text \<open>A field that passed holds no double quote and no control byte, so it stays on its line.\<close>

definition line_safe :: "string \<Rightarrow> bool" where
  "line_safe s \<longleftrightarrow> (\<forall>c \<in> set s. c \<noteq> CHR 0x22 \<and> 32 \<le> (of_char c :: nat) \<and> (of_char c :: nat) \<noteq> 127)"

definition token_safe :: "string \<Rightarrow> bool" where
  "token_safe s \<longleftrightarrow> line_safe s \<and> CHR '' '' \<notin> set s"

lemma validateConfigField_safe:
  assumes "validateConfigField field v = Inr ()"
  shows "line_safe v"
  unfolding line_safe_def
proof (intro ballI conjI)
  fix c assume c: "c \<in> set v"
  have ok: "\<And>r b. (r, b) \<in> set (runes v) \<Longrightarrow> r \<noteq> 34 \<and> \<not> IsControl r"
    using assms by (auto simp: validateConfigField_def guard_simps)
  have rune: "(of_char c :: nat) \<noteq> 34 \<and> \<not> IsControl (of_char c :: nat)" if "(of_char c :: nat) < 128"
    using ok runes_ascii_member [OF c that] by blast
  show "c \<noteq> CHR 0x22" using rune by (cases "c = CHR 0x22") auto
  show "32 \<le> (of_char c :: nat)" using rune by (cases "(of_char c :: nat) < 128") (auto simp: IsControl_def)
  show "(of_char c :: nat) \<noteq> 127" using rune by (auto simp: IsControl_def)
qed

lemma validateHostField_safe:
  assumes "validateHostField field v = Inr ()"
  shows "token_safe v"
proof -
  have "line_safe v" using assms by (auto simp: validateHostField_def guard_simps intro: validateConfigField_safe)
  moreover have "CHR '' '' \<notin> set v"
  proof
    assume "CHR '' '' \<in> set v"
    then have "(32::nat, '' '') \<in> set (runes v)" using runes_ascii_member [of "CHR '' ''" v] by simp
    with assms show False by (auto simp: validateHostField_def guard_simps IsSpace_def)
  qed
  ultimately show ?thesis by (simp add: token_safe_def)
qed

lemma name_pattern_safe: "name_pattern s \<Longrightarrow> token_safe s \<and> s \<noteq> [] \<and> CHR ''/'' \<notin> set s"
proof -
  assume n: "name_pattern s"
  have "c \<noteq> CHR 0x22 \<and> 32 \<le> (of_char c :: nat) \<and> (of_char c :: nat) \<noteq> 127 \<and> c \<noteq> CHR '' '' \<and> c \<noteq> CHR ''/''"
    if "c \<in> set s" for c
    using n that by (auto simp: name_pattern_def is_alnum_def is_digit_def)
  with n show ?thesis by (auto simp: token_safe_def line_safe_def name_pattern_def)
qed

lemma ValidateName_Inr [guard_simps]: "ValidateName s = Inr u \<longleftrightarrow> name_pattern s"
  by (simp add: ValidateName_def guard_simps)

text \<open>A parsed subnet is a well-formed prefix without host bits, and prints to a text that parses again.\<close>

definition pfx_canonical :: "prefix \<Rightarrow> bool" where
  "pfx_canonical p \<longleftrightarrow> pfx_wf p \<and> Masked p = p"

lemma ParseSubnet_canonical: "ParseSubnet s = Inr p \<Longrightarrow> pfx_canonical p"
  by (cases p) (auto simp: ParseSubnet_def guard_simps pfx_canonical_def Masked_def pfx_wf_def
      dest!: ParsePrefix_wf split: option.splits)

lemma ParseSubnet_show:
  assumes "pfx_canonical p" shows "ParseSubnet (show_prefix p) = Inr p"
proof -
  have "\<forall>c \<in> set (show_prefix p). visible c"
    using assms by (intro show_prefix_visible) (simp add: pfx_canonical_def)
  then have "TrimSpace (show_prefix p) = show_prefix p"
    by (intro TrimSpace_plain) (auto simp: visible_def)
  with assms show ?thesis by (simp add: ParseSubnet_def ParsePrefix_show pfx_canonical_def)
qed

lemma canonicalSubnet_parse: "ParseSubnet s = Inr p \<Longrightarrow> canonicalSubnet s = show_prefix p"
  by (simp add: canonicalSubnet_def)

definition disjoint_list :: "prefix list \<Rightarrow> bool" where
  "disjoint_list ps \<longleftrightarrow> sorted_wrt (\<lambda>p q. \<not> Overlaps p q) ps"

lemma parse_subnets_loop_Inr:
  "parse_subnets_loop ss acc = Inr ps \<longleftrightarrow>
     (\<exists>qs. ps = acc @ qs \<and> list_all2 (\<lambda>s p. ParseSubnet s = Inr p) ss qs
       \<and> (\<forall>q \<in> set qs. \<forall>a \<in> set acc. \<not> Overlaps a q) \<and> disjoint_list qs)"
proof (induction ss arbitrary: acc)
  case Nil
  then show ?case by (auto simp: disjoint_list_def)
next
  case (Cons s ss)
  show ?case
  proof (cases "ParseSubnet s")
    case (Inl e)
    then show ?thesis by (auto simp: list_all2_Cons1)
  next
    case (Inr p)
    show ?thesis
    proof (cases "find (\<lambda>seen. Overlaps seen p) acc")
      case None
      then have "\<forall>a \<in> set acc. \<not> Overlaps a p" by (simp add: find_None_iff)
      with None Inr Cons show ?thesis
        by (auto simp: list_all2_Cons1 disjoint_list_def)
    next
      case (Some a)
      then have "a \<in> set acc \<and> Overlaps a p" by (auto simp: find_Some_iff)
      with Some Inr show ?thesis by (auto simp: list_all2_Cons1)
    qed
  qed
qed

lemma ParseSubnets_Inr [guard_simps]:
  "ParseSubnets ss = Inr ps \<longleftrightarrow>
     ss \<noteq> [] \<and> list_all2 (\<lambda>s p. ParseSubnet s = Inr p) ss ps \<and> disjoint_list ps"
  by (auto simp: ParseSubnets_def guard_simps parse_subnets_loop_Inr)

lemma CheckOverlap_Inr [guard_simps]:
  "CheckOverlap cs claimed = Inr u \<longleftrightarrow> (\<forall>c \<in> set cs. \<forall>cl \<in> set claimed. \<not> Overlaps (cl_prefix cl) c)"
  by (induction cs) (auto simp: find_None_iff find_Some_iff split: option.splits)

lemma CheckOverlap_Inl:
  assumes "CheckOverlap cs claimed = Inl e"
  obtains c cl where "c \<in> set cs" "cl \<in> set claimed" "Overlaps (cl_prefix cl) c"
    "e = OverlapClaim c (cl_prefix cl) (cl_owner cl)"
  using assms by (induction cs) (force simp: find_Some_iff split: option.splits)+

text \<open>
  What is stored reads back: joining the canonical forms and splitting at the commas gives
  subnets that parse to the same prefixes.
\<close>

lemma stored_subnets_parse:
  assumes "list_all2 (\<lambda>s p. ParseSubnet s = Inr p) ss ps"
  shows "splitSubnets (joinSubnets ss) = map show_prefix ps"
    and "map_res ParseSubnet (splitSubnets (joinSubnets ss)) = Inr ps"
proof -
  have can: "\<forall>p \<in> set ps. pfx_canonical p"
    using assms by (induction rule: list_all2_induct) (auto intro: ParseSubnet_canonical)
  have map: "map canonicalSubnet ss = map show_prefix ps"
    using assms by (induction rule: list_all2_induct) (auto simp: canonicalSubnet_parse)
  show split: "splitSubnets (joinSubnets ss) = map show_prefix ps"
  proof (cases "ps = []")
    case True
    with map show ?thesis by (simp add: splitSubnets_def joinSubnets_def)
  next
    case False
    have "CHR '','' \<notin> set s" if "s \<in> set (map show_prefix ps)" for s
      using that can show_prefix_visible by (fastforce simp: visible_def pfx_canonical_def)
    then have "split_on (CHR '','') (join '','' (map show_prefix ps)) = map show_prefix ps"
      using False by (intro split_on_join) auto
    moreover have "join '','' (map show_prefix ps) \<noteq> []"
      using False by (cases ps; cases "tl ps") (auto simp: show_prefix_nonempty)
    ultimately show ?thesis by (simp add: splitSubnets_def joinSubnets_def map)
  qed
  show "map_res ParseSubnet (splitSubnets (joinSubnets ss)) = Inr ps"
    unfolding split using can by (simp add: map_res_map ParseSubnet_show map_res_all_Inr [where g = id])
qed

lemma prefixesOf_show: "pfx_canonical p \<Longrightarrow> prefixesOf [show_prefix p] = [p]"
  by (simp add: prefixesOf_def ParseSubnet_show)

text \<open>A validated connection: what \<open>validateConnection\<close> lets through.\<close>

definition connection_valid :: "connection \<Rightarrow> bool" where
  "connection_valid conn \<longleftrightarrow> name_pattern (c_name conn) \<and> token_safe (c_gateway conn) \<and>
     c_gateway conn \<noteq> [] \<and> token_safe (c_user conn) \<and> c_user conn \<noteq> [] \<and>
     c_subnets conn \<noteq> [] \<and> (\<exists>ps. list_all2 (\<lambda>s p. ParseSubnet s = Inr p) (c_subnets conn) ps \<and> disjoint_list ps) \<and>
     (c_hcip conn \<noteq> [] \<longrightarrow> (\<exists>a. ParseIP (c_hcip conn) = Inr a))"

lemma validateConnection_valid:
  "validateConnection conn = Inr u \<Longrightarrow> connection_valid conn"
proof -
  assume v: "validateConnection conn = Inr u"
  have ne: "TrimSpace s \<noteq> [] \<Longrightarrow> s \<noteq> []" for s by (auto simp: TrimSpace_def trim_both_def)
  from v show ?thesis
    unfolding validateConnection_def connection_valid_def
    by (auto simp: guard_simps validateHostField_safe ne split: if_splits sum.splits)
qed

end
