(* ===== verification/Crypto.thy ===== *)
theory Crypto
  imports GoStrings
begin

text \<open>
  \<open>internal/crypto/crypto.go\<close>: the master key file and the sealing of secrets.  AES-GCM is the
  standard library's: the record \<open>aead\<close> holds its nonce size, \<open>Seal\<close> and \<open>Open\<close>, and what the
  code relies on, that \<open>Open\<close> undoes \<open>Seal\<close> under the same nonce, is \<open>aead_correct\<close>.
  The outcome of \<open>rand.Read\<close> is an argument.
\<close>

record aead =
  NonceSize :: nat
  Seal :: "string \<Rightarrow> string \<Rightarrow> string"
  Open :: "string \<Rightarrow> string \<Rightarrow> string option"

datatype crypto_err =
    ErrCiphertext
  | KeyLength nat
  | KeyFileHex
  | KeyFileSize
  | RandErr
  | ReadErr string

definition KeySize :: nat where "KeySize = 32"

text \<open>\<open>hex.DecodeString\<close>.\<close>

fun hex_decode :: "string \<Rightarrow> string option" where
  "hex_decode [] = Some []"
| "hex_decode [c] = None"
| "hex_decode (c # d # cs) =
     (case (hex_val c, hex_val d, hex_decode cs) of
        (Some h, Some l, Some bs) \<Rightarrow> Some (char_of (h * 16 + l) # bs)
      | _ \<Rightarrow> None)"

definition hex_encode :: "string \<Rightarrow> string" where
  "hex_encode bs = concat (map (\<lambda>b. [hex_digit (of_char b div 16), hex_digit (of_char b mod 16)]) bs)"

text \<open>\<open>New\<close>: the block cipher and mode built from a key are the argument \<open>gcm\<close>.\<close>

definition crypto_New :: "(string \<Rightarrow> aead) \<Rightarrow> string \<Rightarrow> crypto_err + aead" where
  "crypto_New gcm key = guardr (length key \<noteq> KeySize) (KeyLength (length key)) (Inr (gcm key))"

text \<open>\<open>LoadKey\<close> on the bytes of the key file (or the error of reading it).\<close>

definition LoadKey :: "string + string \<Rightarrow> crypto_err + string" where
  "LoadKey file =
     (case file of
        Inl e \<Rightarrow> Inl (ReadErr e)
      | Inr raw \<Rightarrow>
          (let trimmed = TrimSpace raw
           in if length trimmed = 2 * KeySize then
                (case hex_decode trimmed of None \<Rightarrow> Inl KeyFileHex | Some key \<Rightarrow> Inr key)
              else if length raw = KeySize then Inr raw
              else Inl KeyFileSize))"

definition NewKey :: "string option \<Rightarrow> crypto_err + string" where
  "NewKey rnd = (case rnd of None \<Rightarrow> Inl RandErr | Some key \<Rightarrow> Inr key)"

definition Encrypt :: "aead \<Rightarrow> string option \<Rightarrow> string \<Rightarrow> crypto_err + string" where
  "Encrypt c rnd plaintext =
     (case rnd of None \<Rightarrow> Inl RandErr | Some nonce \<Rightarrow> Inr (nonce @ Seal c nonce plaintext))"

definition Decrypt :: "aead \<Rightarrow> string \<Rightarrow> crypto_err + string" where
  "Decrypt c ciphertext =
     guardr (length ciphertext < NonceSize c) ErrCiphertext
       (case Open c (take (NonceSize c) ciphertext) (drop (NonceSize c) ciphertext) of
          None \<Rightarrow> Inl ErrCiphertext
        | Some plaintext \<Rightarrow> Inr plaintext)"

section \<open>Contract\<close>

text \<open>The documented behaviour of a \<open>cipher.AEAD\<close>, and a random source that fills the nonce.\<close>

definition aead_correct :: "aead \<Rightarrow> bool" where
  "aead_correct c \<longleftrightarrow> (\<forall>n p. length n = NonceSize c \<longrightarrow> Open c n (Seal c n p) = Some p)"

definition nonce_for :: "aead \<Rightarrow> string option \<Rightarrow> bool" where
  "nonce_for c rnd \<longleftrightarrow> (\<exists>n. rnd = Some n \<and> length n = NonceSize c)"

text \<open>
  What the database relies on: a box that gives back what was put in.  The laws are stated for
  a sealing and an opening operation; the model's \<open>Encrypt\<close> and \<open>Decrypt\<close> provide them.
\<close>

locale secret_box =
  fixes good :: "'c \<Rightarrow> bool"
    and fresh :: "'c \<Rightarrow> 'n \<Rightarrow> bool"
    and seal :: "'c \<Rightarrow> 'n \<Rightarrow> string \<Rightarrow> 'e + string"
    and unseal :: "'c \<Rightarrow> string \<Rightarrow> 'e + string"
  assumes seal_total: "fresh c n \<Longrightarrow> \<exists>ct. seal c n s = Inr ct"
    and unseal_seal: "good c \<Longrightarrow> fresh c n \<Longrightarrow> seal c n s = Inr ct \<Longrightarrow> unseal c ct = Inr s"
begin

lemma seal_inject:
  "good c \<Longrightarrow> fresh c n \<Longrightarrow> fresh c m \<Longrightarrow> seal c n s = Inr ct \<Longrightarrow> seal c m t = Inr ct \<Longrightarrow> s = t"
  by (metis sum.inject(2) unseal_seal)

lemma round_trip:
  assumes "good c" "fresh c n"
  obtains ct where "seal c n s = Inr ct" "unseal c ct = Inr s"
  using assms seal_total unseal_seal by metis

end

interpretation box: secret_box aead_correct nonce_for Encrypt Decrypt
  by unfold_locales (auto simp: Encrypt_def Decrypt_def nonce_for_def aead_correct_def)

section \<open>The key file\<close>

lemma hex_decode_length: "hex_decode s = Some bs \<Longrightarrow> length s = 2 * length bs"
  by (induction s arbitrary: bs rule: hex_decode.induct) (auto split: option.splits)

lemma of_char_high: "(of_char b :: nat) div 16 < 16"
  by (rule less_mult_imp_div_less) simp

lemma hex_decode_encode: "hex_decode (hex_encode bs) = Some bs"
proof (induction bs)
  case Nil
  then show ?case by (simp add: hex_encode_def)
next
  case (Cons b bs)
  then show ?case by (simp add: hex_encode_def hex_val_digit of_char_high)
qed

lemma length_hex_encode [simp]: "length (hex_encode bs) = 2 * length bs"
  using hex_decode_length hex_decode_encode by blast

lemma LoadKey_size: "LoadKey file = Inr key \<Longrightarrow> length key = KeySize"
  by (auto simp: LoadKey_def Let_def split: sum.splits if_splits option.splits dest: hex_decode_length)

lemma hex_encode_plain: "\<forall>c \<in> set (hex_encode bs). 33 \<le> (of_char c :: nat) \<and> (of_char c :: nat) < 127"
proof -
  have "33 \<le> (of_char (hex_digit d) :: nat) \<and> (of_char (hex_digit d) :: nat) < 127" if "d < 16" for d
    using that by (auto simp: hex_digit_def)
  then show ?thesis using of_char_high by (auto simp: hex_encode_def)
qed

end
