(* ===== verification/GoTime.thy ===== *)
theory GoTime
  imports Prelude
begin

text \<open>
  Go's \<open>time\<close> package as the source uses it.  A \<open>time.Time\<close> is the number of nanoseconds since
  the zero time (an \<open>int\<close>; \<open>IsZero\<close> is \<open>t = 0\<close>).  A \<open>time.Duration\<close> is a signed 64-bit number of
  nanoseconds: an \<open>int\<close> whose wrap-around is written out by \<open>wrap64\<close> where the source
  computes with durations, and which \<open>Time.Sub\<close> saturates.
\<close>

type_synonym time = int
type_synonym duration = int

definition wrap64 :: "int \<Rightarrow> int" where
  "wrap64 x = (x + 2 ^ 63) mod 2 ^ 64 - 2 ^ 63"

lemma wrap64_id: "- (2 ^ 63) \<le> x \<Longrightarrow> x < 2 ^ 63 \<Longrightarrow> wrap64 x = x"
  by (simp add: wrap64_def)

lemma wrap64_range: "- (2 ^ 63) \<le> wrap64 x \<and> wrap64 x < 2 ^ 63"
  by (simp add: wrap64_def)

definition Millisecond :: duration where "Millisecond = 1000000"
definition Second :: duration where "Second = 1000000000"
definition Minute :: duration where "Minute = 60000000000"
definition Hour :: duration where "Hour = 3600000000000"

lemmas time_units = Millisecond_def Second_def Minute_def Hour_def

definition time_Sub :: "time \<Rightarrow> time \<Rightarrow> duration" where
  "time_Sub t u = max (- (2 ^ 63)) (min (2 ^ 63 - 1) (t - u))"

text \<open>Integer division truncated towards zero, as Go's \<open>/\<close>.\<close>

definition quot :: "int \<Rightarrow> int \<Rightarrow> int" where
  "quot a b = sgn a * sgn b * (\<bar>a\<bar> div \<bar>b\<bar>)"

definition Microseconds :: "duration \<Rightarrow> int" where
  "Microseconds d = quot d 1000"

lemma quot_nonneg: "0 \<le> a \<Longrightarrow> 0 < b \<Longrightarrow> quot a b = a div b"
  by (cases "a = 0") (auto simp: quot_def)

lemma time_Sub_less: "b \<le> 2 ^ 63 - 1 \<Longrightarrow> - (2 ^ 63) < b \<Longrightarrow> time_Sub t u < b \<longleftrightarrow> t - u < b"
  by (auto simp: time_Sub_def)

text \<open>
  The database keeps times as RFC 3339 text with a precision of one second, and the zero time
  as NULL; the text is represented by the seconds it denotes.
\<close>

definition formatTime :: "time \<Rightarrow> int option" where
  "formatTime t = (if t = 0 then None else Some (t div Second))"

definition parseTime :: "int option \<Rightarrow> time" where
  "parseTime v = (case v of None \<Rightarrow> 0 | Some s \<Rightarrow> s * Second)"

lemma parse_format_time: "parseTime (formatTime t) = t - t mod Second"
  by (simp add: parseTime_def formatTime_def minus_mod_eq_div_mult)

end
