(* ===== verification/Tables.thy ===== *)
theory Tables
  imports Prelude
begin

text \<open>
  SQL tables as the store's statements use them: a table is a list of rows in insertion order,
  with a key column.  The operations are the \<open>WHERE key = ?\<close> forms of SELECT, UPDATE, DELETE and
  INSERT.  The interface \<open>row_table\<close> states what the statements promise; its lemmas are used
  through the interpretations of the database theory.
\<close>

definition row_sel :: "('r \<Rightarrow> 'k) \<Rightarrow> 'k \<Rightarrow> 'r list \<Rightarrow> 'r option" where
  "row_sel key k rows = find (\<lambda>r. key r = k) rows"

definition row_upd :: "('r \<Rightarrow> 'k) \<Rightarrow> 'k \<Rightarrow> ('r \<Rightarrow> 'r) \<Rightarrow> 'r list \<Rightarrow> 'r list" where
  "row_upd key k f rows = map (\<lambda>r. if key r = k then f r else r) rows"

definition row_del :: "('r \<Rightarrow> 'k) \<Rightarrow> 'k \<Rightarrow> 'r list \<Rightarrow> 'r list" where
  "row_del key k rows = filter (\<lambda>r. key r \<noteq> k) rows"

definition row_ins :: "'r \<Rightarrow> 'r list \<Rightarrow> 'r list" where
  "row_ins r rows = rows @ [r]"

text \<open>\<open>RowsAffected\<close> of an UPDATE or DELETE.\<close>

definition row_hits :: "('r \<Rightarrow> 'k) \<Rightarrow> 'k \<Rightarrow> 'r list \<Rightarrow> nat" where
  "row_hits key k rows = length (filter (\<lambda>r. key r = k) rows)"

text \<open>\<open>INSERT ... ON CONFLICT(key) DO UPDATE\<close>.\<close>

definition row_upsert :: "('r \<Rightarrow> 'k) \<Rightarrow> 'r \<Rightarrow> 'r list \<Rightarrow> 'r list" where
  "row_upsert key r rows =
     (if \<exists>x \<in> set rows. key x = key r then row_upd key (key r) (\<lambda>_. r) rows else row_ins r rows)"

definition row_wf :: "('r \<Rightarrow> 'k) \<Rightarrow> 'r list \<Rightarrow> bool" where
  "row_wf key rows \<longleftrightarrow> distinct (map key rows)"

section \<open>The interface\<close>

locale row_table =
  fixes key :: "'r \<Rightarrow> 'k"
    and sel :: "'k \<Rightarrow> 'r list \<Rightarrow> 'r option"
    and ins :: "'r \<Rightarrow> 'r list \<Rightarrow> 'r list"
    and upd :: "'k \<Rightarrow> ('r \<Rightarrow> 'r) \<Rightarrow> 'r list \<Rightarrow> 'r list"
    and del :: "'k \<Rightarrow> 'r list \<Rightarrow> 'r list"
    and wf :: "'r list \<Rightarrow> bool"
  assumes sel_key: "sel k t = Some r \<Longrightarrow> key r = k"
    and sel_ins: "sel (key r) t = None \<Longrightarrow> sel k (ins r t) = (if k = key r then Some r else sel k t)"
    and sel_upd: "wf t \<Longrightarrow> (\<And>r. key (f r) = key r) \<Longrightarrow>
      sel j (upd k f t) = (if j = k then map_option f (sel k t) else sel j t)"
    and sel_del: "sel j (del k t) = (if j = k then None else sel j t)"
    and wf_ins: "wf t \<Longrightarrow> sel (key r) t = None \<Longrightarrow> wf (ins r t)"
    and wf_upd: "wf t \<Longrightarrow> (\<And>r. key (f r) = key r) \<Longrightarrow> wf (upd k f t)"
    and wf_del: "wf t \<Longrightarrow> wf (del k t)"
begin

lemmas table_laws = sel_ins sel_upd sel_del
lemmas table_wf = wf_ins wf_upd wf_del

lemma ins_then_del: "sel (key r) t = None \<Longrightarrow> sel k (del (key r) (ins r t)) = sel k t"
  by (simp add: table_laws)

lemma upd_twice:
  "wf t \<Longrightarrow> (\<And>r. key (f r) = key r) \<Longrightarrow> (\<And>r. key (g r) = key r) \<Longrightarrow>
   sel j (upd k g (upd k f t)) = sel j (upd k (g \<circ> f) t)"
  by (auto simp: table_laws table_wf option.map_comp)

lemma upd_other:
  "wf t \<Longrightarrow> (\<And>r. key (f r) = key r) \<Longrightarrow> j \<noteq> k \<Longrightarrow> sel j (upd k f t) = sel j t"
  by (simp add: table_laws)

end

section \<open>The list implementation provides it\<close>

lemma row_sel_None: "row_sel key k rows = None \<longleftrightarrow> (\<forall>r \<in> set rows. key r \<noteq> k)"
  by (auto simp: row_sel_def find_None_iff)

lemma row_sel_Some: "row_sel key k rows = Some r \<Longrightarrow> r \<in> set rows \<and> key r = k"
  by (auto simp: row_sel_def find_Some_iff)

lemma row_sel_member:
  "row_wf key rows \<Longrightarrow> r \<in> set rows \<Longrightarrow> row_sel key (key r) rows = Some r"
  by (induction rows) (auto simp: row_sel_def row_wf_def image_iff)

lemma row_sel_append:
  "row_sel key k (xs @ ys) = (case row_sel key k xs of Some r \<Rightarrow> Some r | None \<Rightarrow> row_sel key k ys)"
  by (induction xs) (auto simp: row_sel_def)

lemma row_upd_keys: "(\<And>r. key (f r) = key r) \<Longrightarrow> map key (row_upd key k f rows) = map key rows"
  by (simp add: row_upd_def)

lemma row_table_rows:
  "row_table key (row_sel key) row_ins (row_upd key) (row_del key) (row_wf key)"
proof unfold_locales
  fix k t r
  show "row_sel key k t = Some r \<Longrightarrow> key r = k" by (auto dest: row_sel_Some)
next
  fix r t k
  assume "row_sel key (key r) t = None"
  then show "row_sel key k (row_ins r t) = (if k = key r then Some r else row_sel key k t)"
    by (auto simp: row_ins_def row_sel_append split: option.splits) (simp_all add: row_sel_def)
next
  fix t :: "'a list" and f j k
  assume "row_wf key t" and f: "\<And>r. key (f r) = key r"
  then show "row_sel key j (row_upd key k f t) = (if j = k then map_option f (row_sel key k t) else row_sel key j t)"
    by (induction t) (auto simp: row_sel_def row_upd_def row_wf_def)
next
  fix j k t
  show "row_sel key j (row_del key k t) = (if j = k then None else row_sel key j t)"
    by (induction t) (auto simp: row_sel_def row_del_def)
next
  fix t r
  show "row_wf key t \<Longrightarrow> row_sel key (key r) t = None \<Longrightarrow> row_wf key (row_ins r t)"
    by (auto simp: row_wf_def row_ins_def row_sel_None)
next
  fix t :: "'a list" and f k
  show "row_wf key t \<Longrightarrow> (\<And>r. key (f r) = key r) \<Longrightarrow> row_wf key (row_upd key k f t)"
    by (simp add: row_wf_def row_upd_keys)
next
  fix t k
  show "row_wf key t \<Longrightarrow> row_wf key (row_del key k t)"
    by (simp add: row_wf_def row_del_def distinct_map_filter)
qed

lemma row_upsert_sel:
  assumes "row_wf key t"
  shows "row_sel key k (row_upsert key r t) = (if k = key r then Some r else row_sel key k t)"
    and "row_wf key (row_upsert key r t)"
proof -
  have "row_sel key k (row_upsert key r t) = (if k = key r then Some r else row_sel key k t)
      \<and> row_wf key (row_upsert key r t)"
  proof (cases "\<exists>x \<in> set t. key x = key r")
    case True
    then have u: "row_upsert key r t = row_upd key (key r) (\<lambda>_. r) t" by (simp add: row_upsert_def)
    have "map key (row_upd key (key r) (\<lambda>_. r) t) = map key t" by (simp add: row_upd_def)
    moreover have "row_sel key (key r) (row_upd key (key r) (\<lambda>_. r) t) = Some r"
      using True by (induction t) (auto simp: row_sel_def row_upd_def)
    moreover have "k \<noteq> key r \<Longrightarrow> row_sel key k (row_upd key (key r) (\<lambda>_. r) t) = row_sel key k t"
      by (induction t) (auto simp: row_sel_def row_upd_def)
    ultimately show ?thesis using assms u by (simp add: row_wf_def)
  next
    case False
    then have n: "row_sel key (key r) t = None" by (auto simp: row_sel_None)
    have "row_upsert key r t = row_ins r t" using False by (simp add: row_upsert_def)
    then show ?thesis
      using row_table.sel_ins [OF row_table_rows n, of k] row_table.wf_ins [OF row_table_rows assms n] by simp
  qed
  then show "row_sel key k (row_upsert key r t) = (if k = key r then Some r else row_sel key k t)"
    and "row_wf key (row_upsert key r t)" by auto
qed

text \<open>The next \<open>INTEGER PRIMARY KEY\<close>: one more than the largest in the table.\<close>

definition next_id :: "int list \<Rightarrow> int" where
  "next_id ids = foldr max ids 0 + 1"

lemma next_id_fresh: "next_id ids \<notin> set ids" "1 \<le> next_id ids"
proof -
  have "\<forall>i \<in> set ids. i \<le> foldr max ids 0" "0 \<le> foldr max ids (0::int)"
    by (induction ids) auto
  then show "next_id ids \<notin> set ids" "1 \<le> next_id ids" by (auto simp: next_id_def)
qed

end
