(* ===== verification/Store.thy ===== *)
theory Store
  imports Validate Crypto GoTime Tables "HOL-Library.List_Lexorder" "HOL-Library.Char_ord"
begin

text \<open>
  The SQLite store: \<open>internal/db/connections.go\<close>, \<open>subnets.go\<close>, \<open>status.go\<close> and \<open>settings.go\<close>.
  The record \<open>store\<close> holds the tables of the migrated schema, the cipher and \<open>fault\<close>, the SQL
  statements that fail at present and with which message, so that every
  \<open>if err != nil\<close> of the source is a branch of the model.
  Timestamps (\<open>now()\<close>) and the bytes \<open>rand.Read\<close> returns are arguments.
\<close>

section \<open>Rows and state\<close>

text \<open>\<open>db.State\<close>; \<open>StateDisabled\<close> is the web package's display-only state.\<close>

datatype db_state = StateDisconnected | StateConnecting | StateUp | StateFailed | StateDisabled

record conn_row =
  r_id :: int
  r_name :: string
  r_gateway :: string
  r_psk :: string
  r_user :: string
  r_pass :: string
  r_subnets :: string
  r_hcip :: "string option"
  r_enabled :: bool
  r_created :: int
  r_updated :: int

record status_row =
  st_conn :: int
  st_state :: db_state
  st_iface :: "string option"
  st_local :: "string option"
  st_peer :: "string option"
  st_connected :: "int option"
  st_check :: "int option"
  st_rtt :: "int option"
  st_err :: "string option"

record subnet_row =
  sn_id :: int
  sn_cidr :: string
  sn_desc :: "string option"
  sn_hcip :: "string option"
  sn_enabled :: bool
  sn_created :: int

record substat_row =
  ss_id :: int
  ss_check :: "int option"
  ss_rtt :: "int option"
  ss_err :: "string option"

record setting_row =
  g_name :: string
  g_value :: string
  g_updated :: int

text \<open>The statements of the package.\<close>

datatype stmt =
    SelConnections | SelConnection | SelSecrets | InsConnection | UpdConnection | UpdPsk | UpdPass
  | BeginTx | CommitTx | UpdEnabled | UpdHealth | DelConnection
  | SelSubnets | InsSubnet | UpdSubnetHealth | UpsSubnetStatus | UpdSubnetEnabled | DelSubnet
  | SelStatus | UpsStatus | UpdCheck | SelSetting | DelSetting | UpsSetting

record store =
  tconns :: "conn_row list"
  tstatus :: "status_row list"
  tlocals :: "subnet_row list"
  tsubstat :: "substat_row list"
  tsettings :: "setting_row list"
  cipher :: aead
  fault :: "stmt \<Rightarrow> string option"

type_synonym 'a db_op = "store \<Rightarrow> 'a db_res \<times> store"

text \<open>A query, and a statement with its effect and result.\<close>

definition query :: "stmt \<Rightarrow> store \<Rightarrow> 'a db_res \<Rightarrow> 'a db_res" where
  "query s st r = (case fault st s of Some e \<Rightarrow> Inl (SqlErr e) | None \<Rightarrow> r)"

definition exec :: "stmt \<Rightarrow> (store \<Rightarrow> 'a db_res \<times> store) \<Rightarrow> 'a db_op" where
  "exec s f st = (case fault st s of Some e \<Rightarrow> (Inl (SqlErr e), st) | None \<Rightarrow> f st)"

definition in_tx :: "'a db_op \<Rightarrow> 'a db_op" where
  "in_tx body st =
     (case fault st BeginTx of
        Some e \<Rightarrow> (Inl (SqlErr e), st)
      | None \<Rightarrow> (case body st of
          (Inl e, _) \<Rightarrow> (Inl e, st)
        | (Inr x, st') \<Rightarrow> (case fault st' CommitTx of
            Some e \<Rightarrow> (Inl (SqlErr e), st)
          | None \<Rightarrow> (Inr x, st'))))"

definition nullable :: "string \<Rightarrow> string option" where
  "nullable v = (if v = [] then None else Some v)"

definition coalesce :: "string option \<Rightarrow> string" where
  "coalesce v = (case v of None \<Rightarrow> [] | Some s \<Rightarrow> s)"

text \<open>Round-trip times are kept in microseconds; zero is NULL.\<close>

definition nullableFloat :: "int \<Rightarrow> int option" where
  "nullableFloat v = (if v = 0 then None else Some v)"

definition checkAffected :: "nat \<Rightarrow> string \<Rightarrow> int \<Rightarrow> unit db_res" where
  "checkAffected hits subject i = guardr (hits = 0) (NotFoundErr subject i) (Inr ())"

section \<open>Reading connections\<close>

definition scanConnection :: "conn_row \<Rightarrow> connection" where
  "scanConnection r =
     \<lparr>c_id = r_id r, c_name = r_name r, c_gateway = r_gateway r, c_user = r_user r,
      c_subnets = splitSubnets (r_subnets r), c_hcip = coalesce (r_hcip r), c_enabled = r_enabled r,
      c_created = parseTime (Some (r_created r)), c_updated = parseTime (Some (r_updated r))\<rparr>"

definition ListConnections :: "store \<Rightarrow> connection list db_res" where
  "ListConnections st =
     query SelConnections st (Inr (map scanConnection (sort_key r_name (tconns st))))"

definition Connection :: "int \<Rightarrow> store \<Rightarrow> connection db_res" where
  "Connection i st = query SelConnection st
     (case row_sel r_id i (tconns st) of
        None \<Rightarrow> Inl (NotFoundErr ''connection'' i)
      | Some r \<Rightarrow> Inr (scanConnection r))"

definition decrypt_field :: "string \<Rightarrow> int \<Rightarrow> aead \<Rightarrow> string \<Rightarrow> string db_res" where
  "decrypt_field what i c ct = (case Decrypt c ct of Inl _ \<Rightarrow> Inl (CipherErr what i) | Inr s \<Rightarrow> Inr s)"

definition ConnectionSecrets :: "int \<Rightarrow> store \<Rightarrow> secrets db_res" where
  "ConnectionSecrets i st = query SelSecrets st
     (case row_sel r_id i (tconns st) of
        None \<Rightarrow> Inl (NotFoundErr ''connection'' i)
      | Some r \<Rightarrow>
          bindr (decrypt_field ''psk'' i (cipher st) (r_psk r)) (\<lambda>psk.
          bindr (decrypt_field ''ppp password'' i (cipher st) (r_pass r)) (\<lambda>pw.
          Inr \<lparr>s_psk = psk, s_pass = pw\<rparr>)))"

section \<open>Local subnets\<close>

record local_subnet =
  l_id :: int
  l_cidr :: string
  l_desc :: string
  l_hcip :: string
  l_enabled :: bool
  l_created :: int
  l_checked :: time
  l_rtt :: int
  l_err :: string

definition scanSubnet :: "substat_row list \<Rightarrow> subnet_row \<Rightarrow> local_subnet" where
  "scanSubnet stats r =
     (let s = row_sel ss_id (sn_id r) stats
      in \<lparr>l_id = sn_id r, l_cidr = sn_cidr r, l_desc = coalesce (sn_desc r), l_hcip = coalesce (sn_hcip r),
          l_enabled = sn_enabled r, l_created = parseTime (Some (sn_created r)),
          l_checked = parseTime (Option.bind s ss_check),
          l_rtt = (case Option.bind s ss_rtt of None \<Rightarrow> 0 | Some v \<Rightarrow> v),
          l_err = coalesce (Option.bind s ss_err)\<rparr>)"

definition ListLocalSubnets :: "store \<Rightarrow> local_subnet list db_res" where
  "ListLocalSubnets st =
     query SelSubnets st (Inr (map (scanSubnet (tsubstat st)) (sort_key sn_cidr (tlocals st))))"

definition LocalSubnet :: "int \<Rightarrow> store \<Rightarrow> local_subnet db_res" where
  "LocalSubnet i st = bindr (ListLocalSubnets st) (\<lambda>subnets.
     case find (\<lambda>s. l_id s = i) subnets of
       None \<Rightarrow> Inl (NotFoundErr ''local subnet'' i)
     | Some s \<Rightarrow> Inr s)"

section \<open>Route conflicts\<close>

definition connection_claims :: "connection \<Rightarrow> claim list db_res" where
  "connection_claims conn = map_res (\<lambda>s. bindr (ParseSubnet s) (\<lambda>p.
     Inr \<lparr>cl_owner = ''connection '' @ c_name conn, cl_prefix = p\<rparr>)) (c_subnets conn)"

definition subnet_claim :: "local_subnet \<Rightarrow> claim db_res" where
  "subnet_claim local = bindr (ParseSubnet (l_cidr local)) (\<lambda>p.
     Inr \<lparr>cl_owner = ''local subnet '' @ l_cidr local, cl_prefix = p\<rparr>)"

definition claimedSubnets :: "int \<Rightarrow> store \<Rightarrow> claim list db_res" where
  "claimedSubnets except st =
     bindr (ListConnections st) (\<lambda>conns.
     bindr (map_res connection_claims (filter (\<lambda>c. c_id c \<noteq> except) conns)) (\<lambda>cs.
     bindr (ListLocalSubnets st) (\<lambda>locals.
     bindr (map_res subnet_claim locals) (\<lambda>ls.
     Inr (concat cs @ ls)))))"

definition checkRouteConflicts :: "connection \<Rightarrow> store \<Rightarrow> unit db_res" where
  "checkRouteConflicts conn st =
     bindr (ParseSubnets (c_subnets conn)) (\<lambda>candidates.
     bindr (claimedSubnets (c_id conn) st) (\<lambda>claimed.
     CheckOverlap candidates claimed))"

section \<open>Writing connections\<close>

definition encrypt_field :: "string option \<Rightarrow> string \<Rightarrow> store \<Rightarrow> string db_res" where
  "encrypt_field rnd s st = (case Encrypt (cipher st) rnd s of Inl _ \<Rightarrow> Inl (CipherErr ''encrypt'' 0) | Inr ct \<Rightarrow> Inr ct)"

definition insertConnection :: "connection \<Rightarrow> string \<Rightarrow> string \<Rightarrow> int \<Rightarrow> int db_op" where
  "insertConnection conn psk pw now = exec InsConnection (\<lambda>st.
     if row_sel r_name (c_name conn) (tconns st) \<noteq> None
     then (Inl (SqlErr ''UNIQUE constraint failed: connections.name''), st)
     else (let i = next_id (map r_id (tconns st))
           in (Inr i, st\<lparr>tconns := row_ins
             \<lparr>r_id = i, r_name = c_name conn, r_gateway = c_gateway conn, r_psk = psk,
              r_user = c_user conn, r_pass = pw, r_subnets = joinSubnets (c_subnets conn),
              r_hcip = nullable (c_hcip conn), r_enabled = c_enabled conn,
              r_created = now, r_updated = now\<rparr> (tconns st)\<rparr>)))"

definition CreateConnection ::
  "connection \<Rightarrow> secrets \<Rightarrow> string option \<Rightarrow> string option \<Rightarrow> int \<Rightarrow> int db_op" where
  "CreateConnection conn secrets rnd1 rnd2 now =
     sbind (slift (validateConnection conn)) (\<lambda>_.
     sbind (slift (guardr (s_psk secrets = [] \<or> s_pass secrets = [])
       (Required ''psk and ppp password'') (Inr ()))) (\<lambda>_.
     sbind (slift (ValidateSecrets secrets)) (\<lambda>_.
     sbind (sread (checkRouteConflicts conn)) (\<lambda>_.
     sbind (sread (encrypt_field rnd1 (s_psk secrets))) (\<lambda>psk.
     sbind (sread (encrypt_field rnd2 (s_pass secrets))) (\<lambda>pw.
     insertConnection conn psk pw now))))))"

definition updateRow :: "connection \<Rightarrow> int \<Rightarrow> unit db_op" where
  "updateRow conn now = exec UpdConnection (\<lambda>st.
     if \<exists>r \<in> set (tconns st). r_id r \<noteq> c_id conn \<and> r_name r = c_name conn
     then (Inl (SqlErr ''UNIQUE constraint failed: connections.name''), st)
     else (Inr (), st\<lparr>tconns := row_upd r_id (c_id conn) (\<lambda>r. r\<lparr>r_name := c_name conn,
            r_gateway := c_gateway conn, r_user := c_user conn,
            r_subnets := joinSubnets (c_subnets conn), r_hcip := nullable (c_hcip conn),
            r_enabled := c_enabled conn, r_updated := now\<rparr>) (tconns st)\<rparr>))"

definition updatePsk :: "int \<Rightarrow> string \<Rightarrow> unit db_op" where
  "updatePsk i ct = exec UpdPsk (\<lambda>st.
     (Inr (), st\<lparr>tconns := row_upd r_id i (\<lambda>r. r\<lparr>r_psk := ct\<rparr>) (tconns st)\<rparr>))"

definition updatePass :: "int \<Rightarrow> string \<Rightarrow> unit db_op" where
  "updatePass i ct = exec UpdPass (\<lambda>st.
     (Inr (), st\<lparr>tconns := row_upd r_id i (\<lambda>r. r\<lparr>r_pass := ct\<rparr>) (tconns st)\<rparr>))"

definition UpdateConnection ::
  "connection \<Rightarrow> secrets \<Rightarrow> string option \<Rightarrow> string option \<Rightarrow> int \<Rightarrow> unit db_op" where
  "UpdateConnection conn secrets rnd1 rnd2 now =
     sbind (slift (validateConnection conn)) (\<lambda>_.
     sbind (slift (ValidateSecrets secrets)) (\<lambda>_.
     sbind (sread (Connection (c_id conn))) (\<lambda>_.
     sbind (sread (checkRouteConflicts conn)) (\<lambda>_.
     in_tx (
       sbind (updateRow conn now) (\<lambda>_.
       sbind (if s_psk secrets \<noteq> []
              then sbind (sread (encrypt_field rnd1 (s_psk secrets))) (updatePsk (c_id conn))
              else slift (Inr ())) (\<lambda>_.
       if s_pass secrets \<noteq> []
       then sbind (sread (encrypt_field rnd2 (s_pass secrets))) (updatePass (c_id conn))
       else slift (Inr ()))))))))"

definition SetConnectionEnabled :: "int \<Rightarrow> bool \<Rightarrow> int \<Rightarrow> unit db_op" where
  "SetConnectionEnabled i enabled now = exec UpdEnabled (\<lambda>st.
     (checkAffected (row_hits r_id i (tconns st)) ''connection'' i,
      st\<lparr>tconns := row_upd r_id i (\<lambda>r. r\<lparr>r_enabled := enabled, r_updated := now\<rparr>) (tconns st)\<rparr>))"

definition SetHealthCheckIP :: "int \<Rightarrow> string \<Rightarrow> int \<Rightarrow> unit db_op" where
  "SetHealthCheckIP i ip now =
     sbind (slift (if ip \<noteq> [] then bindr (ParseIP ip) (\<lambda>_. Inr ()) else Inr ())) (\<lambda>_.
     exec UpdHealth (\<lambda>st.
     (checkAffected (row_hits r_id i (tconns st)) ''connection'' i,
      st\<lparr>tconns := row_upd r_id i (\<lambda>r. r\<lparr>r_hcip := nullable ip, r_updated := now\<rparr>) (tconns st)\<rparr>)))"

text \<open>The status row goes with its connection (\<open>ON DELETE CASCADE\<close>).\<close>

definition DeleteConnection :: "int \<Rightarrow> unit db_op" where
  "DeleteConnection i = exec DelConnection (\<lambda>st.
     (checkAffected (row_hits r_id i (tconns st)) ''connection'' i,
      st\<lparr>tconns := row_del r_id i (tconns st), tstatus := row_del st_conn i (tstatus st)\<rparr>))"

section \<open>Writing local subnets\<close>

definition CreateLocalSubnet :: "local_subnet \<Rightarrow> int \<Rightarrow> int db_op" where
  "CreateLocalSubnet subnet now =
     sbind (slift (ParseSubnet (l_cidr subnet))) (\<lambda>p.
     sbind (sread (claimedSubnets 0)) (\<lambda>claimed.
     sbind (slift (CheckOverlap (prefixesOf [show_prefix p]) claimed)) (\<lambda>_.
     sbind (slift (if l_hcip subnet \<noteq> [] then bindr (ParseIP (l_hcip subnet)) (\<lambda>_. Inr ()) else Inr ())) (\<lambda>_.
     exec InsSubnet (\<lambda>st.
       if row_sel sn_cidr (show_prefix p) (tlocals st) \<noteq> None
       then (Inl (SqlErr ''UNIQUE constraint failed: local_subnets.cidr''), st)
       else (let i = next_id (map sn_id (tlocals st))
             in (Inr i, st\<lparr>tlocals := row_ins
               \<lparr>sn_id = i, sn_cidr = show_prefix p, sn_desc = nullable (l_desc subnet),
                sn_hcip = nullable (l_hcip subnet), sn_enabled = l_enabled subnet,
                sn_created = now\<rparr> (tlocals st)\<rparr>)))))))"

definition SetLocalSubnetHealthCheckIP :: "int \<Rightarrow> string \<Rightarrow> unit db_op" where
  "SetLocalSubnetHealthCheckIP i ip =
     sbind (slift (if ip \<noteq> [] then bindr (ParseIP ip) (\<lambda>_. Inr ()) else Inr ())) (\<lambda>_.
     exec UpdSubnetHealth (\<lambda>st.
     (checkAffected (row_hits sn_id i (tlocals st)) ''local subnet'' i,
      st\<lparr>tlocals := row_upd sn_id i (\<lambda>r. r\<lparr>sn_hcip := nullable ip\<rparr>) (tlocals st)\<rparr>)))"

definition SetLocalSubnetEnabled :: "int \<Rightarrow> bool \<Rightarrow> unit db_op" where
  "SetLocalSubnetEnabled i enabled = exec UpdSubnetEnabled (\<lambda>st.
     (checkAffected (row_hits sn_id i (tlocals st)) ''local subnet'' i,
      st\<lparr>tlocals := row_upd sn_id i (\<lambda>r. r\<lparr>sn_enabled := enabled\<rparr>) (tlocals st)\<rparr>))"

definition DeleteLocalSubnet :: "int \<Rightarrow> unit db_op" where
  "DeleteLocalSubnet i = exec DelSubnet (\<lambda>st.
     (checkAffected (row_hits sn_id i (tlocals st)) ''local subnet'' i,
      st\<lparr>tlocals := row_del sn_id i (tlocals st), tsubstat := row_del ss_id i (tsubstat st)\<rparr>))"

definition RecordSubnetCheck :: "int \<Rightarrow> time \<Rightarrow> duration \<Rightarrow> string \<Rightarrow> unit db_op" where
  "RecordSubnetCheck i at rtt failure = exec UpsSubnetStatus (\<lambda>st.
     (Inr (), if row_sel sn_id i (tlocals st) = None then st
       else st\<lparr>tsubstat := row_upsert ss_id
         \<lparr>ss_id = i, ss_check = formatTime at, ss_rtt = nullableFloat (Microseconds rtt),
          ss_err = nullable failure\<rparr> (tsubstat st)\<rparr>))"

section \<open>Advertised routes\<close>

definition add_route :: "string list \<Rightarrow> string \<Rightarrow> string list" where
  "add_route routes cidr = (if cidr \<in> set routes then routes else routes @ [cidr])"

definition AdvertisedRoutes :: "store \<Rightarrow> string list db_res" where
  "AdvertisedRoutes st =
     bindr (ListConnections st) (\<lambda>conns.
     bindr (ListLocalSubnets st) (\<lambda>locals.
     Inr (sort (foldl add_route []
       (concat (map c_subnets (filter c_enabled conns)) @ map l_cidr (filter l_enabled locals))))))"

section \<open>Connection status\<close>

record status =
  t_conn :: int
  t_state :: db_state
  t_iface :: string
  t_local :: string
  t_peer :: string
  t_connected :: time
  t_checked :: time
  t_rtt :: int
  t_err :: string

definition empty_status :: "int \<Rightarrow> db_state \<Rightarrow> status" where
  "empty_status i s = \<lparr>t_conn = i, t_state = s, t_iface = [], t_local = [], t_peer = [],
     t_connected = 0, t_checked = 0, t_rtt = 0, t_err = []\<rparr>"

definition Status :: "int \<Rightarrow> store \<Rightarrow> status db_res" where
  "Status i st = query SelStatus st
     (case row_sel st_conn i (tstatus st) of
        None \<Rightarrow> Inr (empty_status i StateDisconnected)
      | Some r \<Rightarrow> Inr \<lparr>t_conn = st_conn r, t_state = st_state r, t_iface = coalesce (st_iface r),
          t_local = coalesce (st_local r), t_peer = coalesce (st_peer r),
          t_connected = parseTime (st_connected r), t_checked = parseTime (st_check r),
          t_rtt = (case st_rtt r of None \<Rightarrow> 0 | Some v \<Rightarrow> v), t_err = coalesce (st_err r)\<rparr>)"

definition status_to_row :: "status \<Rightarrow> status_row" where
  "status_to_row s = \<lparr>st_conn = t_conn s, st_state = t_state s, st_iface = nullable (t_iface s),
     st_local = nullable (t_local s), st_peer = nullable (t_peer s),
     st_connected = formatTime (t_connected s), st_check = formatTime (t_checked s),
     st_rtt = nullableFloat (t_rtt s), st_err = nullable (t_err s)\<rparr>"

definition SetStatus :: "status \<Rightarrow> unit db_op" where
  "SetStatus s = exec UpsStatus (\<lambda>st.
     (Inr (), if row_sel r_id (t_conn s) (tconns st) = None then st
       else st\<lparr>tstatus := row_upsert st_conn (status_to_row s) (tstatus st)\<rparr>))"

definition RecordCheck :: "int \<Rightarrow> time \<Rightarrow> duration \<Rightarrow> string \<Rightarrow> unit db_op" where
  "RecordCheck i at rtt failure = exec UpdCheck (\<lambda>st.
     (Inr (), st\<lparr>tstatus := row_upd st_conn i (\<lambda>r. r\<lparr>st_check := formatTime at,
        st_rtt := nullableFloat (Microseconds rtt), st_err := nullable failure\<rparr>) (tstatus st)\<rparr>))"

section \<open>Settings\<close>

definition Setting :: "string \<Rightarrow> store \<Rightarrow> string db_res" where
  "Setting name st = query SelSetting st
     (case row_sel g_name name (tsettings st) of None \<Rightarrow> Inr [] | Some r \<Rightarrow> Inr (g_value r))"

definition DeleteSetting :: "string \<Rightarrow> unit db_op" where
  "DeleteSetting name = exec DelSetting (\<lambda>st.
     (Inr (), st\<lparr>tsettings := row_del g_name name (tsettings st)\<rparr>))"

definition SetSetting :: "string \<Rightarrow> string \<Rightarrow> int \<Rightarrow> unit db_op" where
  "SetSetting name value now = exec UpsSetting (\<lambda>st.
     (Inr (), st\<lparr>tsettings := row_upsert g_name
        \<lparr>g_name = name, g_value = value, g_updated = now\<rparr> (tsettings st)\<rparr>))"

definition ExitNode :: "store \<Rightarrow> bool db_res" where
  "ExitNode st = bindr (Setting ''exit_node'' st) (\<lambda>v. Inr (v = ''1''))"

definition SetExitNode :: "bool \<Rightarrow> int \<Rightarrow> unit db_op" where
  "SetExitNode enabled now = SetSetting ''exit_node'' (if enabled then ''1'' else ''0'') now"

end
