(* ===== verification/Render.thy ===== *)
theory Render
  imports Validate Tables
begin

text \<open>
  \<open>internal/tunnel/render.go\<close>: the configuration files of charon, xl2tpd and pppd, and writing them.
  A template is the list of its lines with the fields in place; \<open>unlines\<close> ends each with a newline.
  The file system is a table of paths and contents with the operations that fail at present.
\<close>

definition nl :: char where "nl = CHR 0x0A"
definition tab :: char where "tab = CHR 0x09"
definition dquote :: char where "dquote = CHR 0x22"
definition bslash :: char where "bslash = CHR 0x5C"

definition unlines :: "string list \<Rightarrow> string" where
  "unlines ls = concat (map (\<lambda>l. l @ [nl]) ls)"

record tunnel =
  t_name :: string
  t_host :: string
  t_addr :: string
  t_psk :: string
  t_user :: string
  t_pass :: string
  t_subnets :: "string list"

definition FromConnection :: "connection \<Rightarrow> secrets \<Rightarrow> string \<Rightarrow> tunnel" where
  "FromConnection conn sec gatewayAddr =
     \<lparr>t_name = c_name conn, t_host = c_gateway conn, t_addr = gatewayAddr, t_psk = s_psk sec,
      t_user = c_user conn, t_pass = s_pass sec, t_subnets = c_subnets conn\<rparr>"

definition pskIdentity :: "tunnel \<Rightarrow> string" where
  "pskIdentity t = (if t_addr t = [] then ''%any'' else t_addr t)"

text \<open>\<open>filepath.Join\<close> of a clean directory and a plain name.\<close>

definition path_join :: "string \<Rightarrow> string \<Rightarrow> string" where
  "path_join dir name = dir @ ''/'' @ name"

section \<open>The templates\<close>

definition swanctl_conn :: "tunnel \<Rightarrow> string list" where
  "swanctl_conn t = [''    '' @ t_name t @ '' {'',
     ''        version = 1'',
     ''        local_addrs = %any'',
     ''        remote_addrs = '' @ t_host t,
     ''        encap = yes'',
     ''        keyingtries = 0'',
     ''        rekey_time = 0'',
     ''        proposals = aes256-sha256-modp2048,aes128-sha1-modp1024,default'',
     [],
     ''        local {'',
     ''            auth = psk'',
     ''        }'',
     ''        remote {'',
     ''            auth = psk'',
     ''        }'',
     [],
     ''        children {'',
     ''            '' @ t_name t @ '' {'',
     ''                mode = transport'',
     ''                local_ts = dynamic[udp/l2tp]'',
     ''                remote_ts = dynamic[udp/l2tp]'',
     ''                esp_proposals = aes256-sha256,aes128-sha1,default'',
     ''                start_action = none'',
     ''                dpd_action = clear'',
     ''            }'',
     ''        }'',
     ''    }'']"

definition swanctl_secret :: "tunnel \<Rightarrow> string list" where
  "swanctl_secret t = [''    ike-'' @ t_name t @ '' {'',
     ''        id = '' @ pskIdentity t,
     ''        secret = '' @ [dquote] @ t_psk t @ [dquote],
     ''    }'']"

definition RenderSwanctl :: "tunnel list \<Rightarrow> string" where
  "RenderSwanctl tunnels = unlines
     ([''connections {''] @ concat (map swanctl_conn tunnels) @ [''}'', [], ''secrets {''] @
      concat (map swanctl_secret tunnels) @ [''}''])"

definition xl2tpd_lac :: "string \<Rightarrow> tunnel \<Rightarrow> string list" where
  "xl2tpd_lac peersDir t = [] # [''[lac '' @ t_name t @ '']'',
     ''lns = '' @ t_host t,
     ''require chap = yes'',
     ''refuse pap = yes'',
     ''require authentication = no'',
     ''name = '' @ t_user t,
     ''pppoptfile = '' @ path_join peersDir (t_name t),
     ''length bit = yes'',
     ''redial = yes'',
     ''redial timeout = 10'',
     ''max redials = 5'']"

definition RenderXL2TPD :: "tunnel list \<Rightarrow> string \<Rightarrow> string" where
  "RenderXL2TPD tunnels peersDir = unlines
     ([''[global]'', ''access control = no'', ''port = 1701''] @ concat (map (xl2tpd_lac peersDir) tunnels))"

definition ppp_peer :: "tunnel \<Rightarrow> string list" where
  "ppp_peer t = [''remotename '' @ t_name t,
     ''ipparam '' @ t_name t,
     ''user '' @ [dquote] @ t_user t @ [dquote],
     ''noauth'',
     ''refuse-eap'',
     ''refuse-pap'',
     ''hide-password'',
     ''nodefaultroute'',
     ''noipdefault'',
     ''usepeerdns'',
     ''noccp'',
     ''mtu 1400'',
     ''mru 1400'',
     ''lcp-echo-interval 10'',
     ''lcp-echo-failure 5'',
     ''connect-delay 5000'']"

definition RenderPPPPeer :: "tunnel \<Rightarrow> string" where
  "RenderPPPPeer t = unlines (ppp_peer t)"

text \<open>
  \<open>strconv.Quote\<close>, the verb \<open>%q\<close>.  Which runes beyond ASCII print is the argument \<open>isPrint\<close>, a table of
  the \<open>unicode\<close> package.
\<close>

definition hex_pad :: "nat \<Rightarrow> nat \<Rightarrow> string" where
  "hex_pad n r = replicate (n - length (hex r)) CHR ''0'' @ hex r"

definition quote_rune :: "(nat \<Rightarrow> bool) \<Rightarrow> nat \<times> string \<Rightarrow> string" where
  "quote_rune isPrint = (\<lambda>(r, b).
     if r = 65533 \<and> length b = 1 then bslash # CHR ''x'' # hex_pad 2 (of_char (hd b))
     else if r = 34 \<or> r = 92 then bslash # b
     else if 32 \<le> r \<and> r < 127 \<or> 128 \<le> r \<and> isPrint r then b
     else if r = 7 then [bslash, CHR ''a''] else if r = 8 then [bslash, CHR ''b'']
     else if r = 12 then [bslash, CHR ''f''] else if r = 10 then [bslash, CHR ''n'']
     else if r = 13 then [bslash, CHR ''r''] else if r = 9 then [bslash, CHR ''t'']
     else if r = 11 then [bslash, CHR ''v'']
     else if r < 32 \<or> r = 127 then bslash # CHR ''x'' # hex_pad 2 r
     else if r < 65536 then bslash # CHR ''u'' # hex_pad 4 r
     else bslash # CHR ''U'' # hex_pad 8 r)"

definition go_quote :: "(nat \<Rightarrow> bool) \<Rightarrow> string \<Rightarrow> string" where
  "go_quote isPrint s = [dquote] @ concat (map (quote_rune isPrint) (runes s)) @ [dquote]"

definition chap_line :: "(nat \<Rightarrow> bool) \<Rightarrow> tunnel \<Rightarrow> string" where
  "chap_line isPrint t = t_user t @ [tab] @ ''*'' @ [tab] @ go_quote isPrint (t_pass t) @ [tab] @ ''*''"

definition RenderCHAPSecrets :: "(nat \<Rightarrow> bool) \<Rightarrow> tunnel list \<Rightarrow> string" where
  "RenderCHAPSecrets isPrint tunnels =
     unlines ((''# client'' @ [tab] @ ''server'' @ [tab] @ ''secret'' @ [tab] @ ''IP addresses'') #
       map (chap_line isPrint) tunnels)"

section \<open>The files\<close>

datatype fs_op =
  MkdirAll string | ReadDir string | Remove string | WriteFile string | OpenFile string | AppendFile string

record fsys =
  fs_files :: "(string \<times> string) list"
  fs_fault :: "fs_op \<Rightarrow> string option"

type_synonym 'a fs_act = "fsys \<Rightarrow> (string + 'a) \<times> fsys"

definition fs_do :: "fs_op \<Rightarrow> 'a \<Rightarrow> ((string \<times> string) list \<Rightarrow> (string \<times> string) list) \<Rightarrow> 'a fs_act" where
  "fs_do op x f fs = (case fs_fault fs op of
     Some e \<Rightarrow> (Inl e, fs) | None \<Rightarrow> (Inr x, fs\<lparr>fs_files := f (fs_files fs)\<rparr>))"

definition os_WriteFile :: "string \<Rightarrow> string \<Rightarrow> unit fs_act" where
  "os_WriteFile path contents = fs_do (WriteFile path) () (row_upsert fst (path, contents))"

definition os_Remove :: "string \<Rightarrow> unit fs_act" where
  "os_Remove path = fs_do (Remove path) () (row_del fst path)"

text \<open>The names of the entries of a directory.\<close>

definition dir_entries :: "string \<Rightarrow> (string \<times> string) list \<Rightarrow> string list" where
  "dir_entries dir files = map (\<lambda>(p, _). drop (length dir + 1) p)
     (filter (\<lambda>(p, _). HasPrefix p (dir @ ''/'') \<and> CHR ''/'' \<notin> set (drop (length dir + 1) p)) files)"

definition os_ReadDir :: "string \<Rightarrow> string list fs_act" where
  "os_ReadDir dir fs = fs_do (ReadDir dir) (dir_entries dir (fs_files fs)) (\<lambda>f. f) fs"

fun remove_each :: "string \<Rightarrow> string list \<Rightarrow> unit fs_act" where
  "remove_each dir [] = slift (Inr ())"
| "remove_each dir (n # ns) = sbind (os_Remove (path_join dir n)) (\<lambda>_. remove_each dir ns)"

definition pruneStalePeers :: "string \<Rightarrow> tunnel list \<Rightarrow> unit fs_act" where
  "pruneStalePeers peersDir tunnels =
     sbind (os_ReadDir peersDir) (\<lambda>entries.
     remove_each peersDir (filter (\<lambda>n. n \<notin> t_name ` set tunnels) entries))"

fun write_each :: "(string \<times> string) list \<Rightarrow> unit fs_act" where
  "write_each [] = slift (Inr ())"
| "write_each ((p, c) # fs) = sbind (os_WriteFile p c) (\<lambda>_. write_each fs)"

text \<open>
  The \<open>files\<close> map of \<open>Write\<close>; a name used twice keeps its last contents.  Go ranges over the map in
  any order; the order here stands for it.
\<close>

definition render_files :: "(nat \<Rightarrow> bool) \<Rightarrow> string \<Rightarrow> tunnel list \<Rightarrow> (string \<times> string) list" where
  "render_files isPrint dir tunnels =
     (let peersDir = path_join dir ''peers''
      in foldl (\<lambda>files t. row_upsert fst (path_join peersDir (t_name t), RenderPPPPeer t) files)
           [(path_join dir ''swanctl.conf'', RenderSwanctl tunnels),
            (path_join dir ''xl2tpd.conf'', RenderXL2TPD tunnels peersDir),
            (path_join dir ''chap-secrets'', RenderCHAPSecrets isPrint tunnels)] tunnels)"

definition Write :: "(nat \<Rightarrow> bool) \<Rightarrow> string \<Rightarrow> tunnel list \<Rightarrow> unit fs_act" where
  "Write isPrint dir tunnels =
     sbind (fs_do (MkdirAll (path_join dir ''peers'')) () (\<lambda>f. f)) (\<lambda>_.
     sbind (pruneStalePeers (path_join dir ''peers'') tunnels) (\<lambda>_.
     write_each (render_files isPrint dir tunnels)))"

end
