(* ===== verification/Runner.thy ===== *)
theory Runner
  imports GoStrings GoTime
begin

text \<open>
  \<open>internal/run/run.go\<close> and \<open>internal/tailnet/tailnet.go\<close>: external commands, how they are shown
  in errors and logs, and the commands the tailscale client issues.  A runner is a function on a
  world of type \<open>'w\<close>: it takes a command to an error text or an output, and changes the world.
\<close>

record command =
  cmd_path :: string
  cmd_args :: "string list"
  cmd_env :: "string list"
  cmd_timeout :: duration

type_synonym 'w runner = "command \<Rightarrow> 'w \<Rightarrow> (string + string) \<times> 'w"

definition mk_command :: "string \<Rightarrow> string list \<Rightarrow> command" where
  "mk_command path args = \<lparr>cmd_path = path, cmd_args = args, cmd_env = [], cmd_timeout = 0\<rparr>"

section \<open>Rendering a command\<close>

definition isSecretFlag :: "string \<Rightarrow> bool" where
  "isSecretFlag name =
     (let n = ToLower name in Contains n ''authkey'' \<or> Contains n ''password'' \<or> Contains n ''secret'')"

definition redact :: "string \<Rightarrow> string" where
  "redact arg = (case Cut arg ''='' of (name, _, ok) \<Rightarrow>
     if ok \<and> isSecretFlag name then name @ ''=[redacted]'' else arg)"

definition command_String :: "command \<Rightarrow> string" where
  "command_String c = join '' '' (cmd_path c # map redact (cmd_args c))"

section \<open>Running it\<close>

definition DefaultTimeout :: duration where "DefaultTimeout = 30 * Second"

text \<open>The deadline a command gets: none when its timeout is negative.\<close>

definition exec_timeout :: "command \<Rightarrow> duration option" where
  "exec_timeout c = (if 0 \<le> cmd_timeout c
     then Some (if cmd_timeout c = 0 then DefaultTimeout else cmd_timeout c) else None)"

text \<open>
  \<open>Exec.Run\<close>.  The operating system is the argument \<open>process\<close>: deadline, path, arguments and
  extra environment to the error of the process, if any, and its combined output.
\<close>

definition Exec_Run ::
  "(duration option \<Rightarrow> string \<Rightarrow> string list \<Rightarrow> string list \<Rightarrow> 'w \<Rightarrow> (string option \<times> string) \<times> 'w) \<Rightarrow> 'w runner" where
  "Exec_Run process c w =
     (case process (exec_timeout c) (cmd_path c) (cmd_args c) (cmd_env c) w of
        ((Some err, out), w') \<Rightarrow> (Inl (command_String c @ '': '' @ err @ '': '' @ TrimSpace out), w')
      | ((None, out), w') \<Rightarrow> (Inr out, w'))"

section \<open>The tailscale client\<close>

record tail_client =
  tc_binary :: string
  tc_socket :: string

definition DefaultSocket :: string where "DefaultSocket = ''/var/run/tailscale/tailscaled.sock''"

definition FormatBool :: "bool \<Rightarrow> string" where
  "FormatBool b = (if b then ''true'' else ''false'')"

definition tail_run :: "tail_client \<Rightarrow> duration \<Rightarrow> string list \<Rightarrow> command" where
  "tail_run c timeout args =
     \<lparr>cmd_path = (if tc_binary c = [] then ''tailscale'' else tc_binary c),
      cmd_args = (''--socket='' @ (if tc_socket c = [] then DefaultSocket else tc_socket c)) # args,
      cmd_env = [], cmd_timeout = timeout\<rparr>"

definition tail_command :: "tail_client \<Rightarrow> string list \<Rightarrow> command" where
  "tail_command c args = tail_run c 0 args"

definition upArgs :: "string \<Rightarrow> string list \<Rightarrow> bool \<Rightarrow> string list" where
  "upArgs hostname routes exitNode =
     [''up'', ''--hostname='' @ hostname, ''--accept-dns=false'',
      ''--advertise-routes='' @ join '','' routes,
      ''--advertise-exit-node='' @ FormatBool exitNode]"

definition UpCommand :: "string \<Rightarrow> string list \<Rightarrow> bool \<Rightarrow> string" where
  "UpCommand hostname routes exitNode = ''tailscale '' @ join '' '' (upArgs hostname routes exitNode)"

definition Up :: "tail_client \<Rightarrow> string \<Rightarrow> string \<Rightarrow> string list \<Rightarrow> bool \<Rightarrow> command" where
  "Up c hostname authKey routes exitNode =
     (if authKey \<noteq> []
      then tail_run c (2 * Minute) (upArgs hostname routes exitNode @ [''--authkey='' @ authKey])
      else tail_run c (- Second) (upArgs hostname routes exitNode))"

definition SetRoutes_cmd :: "tail_client \<Rightarrow> string list \<Rightarrow> command" where
  "SetRoutes_cmd c routes = tail_command c [''set'', ''--advertise-routes='' @ join '','' routes]"

definition SetExitNode_cmd :: "tail_client \<Rightarrow> bool \<Rightarrow> command" where
  "SetExitNode_cmd c enabled = tail_command c [''set'', ''--advertise-exit-node='' @ FormatBool enabled]"

text \<open>A command whose output the caller drops.\<close>

definition run_unit :: "'w runner \<Rightarrow> command \<Rightarrow> 'w \<Rightarrow> (string + unit) \<times> 'w" where
  "run_unit run c w = (case run c w of (Inl e, w') \<Rightarrow> (Inl e, w') | (Inr _, w') \<Rightarrow> (Inr (), w'))"

record tail_status =
  ts_backend :: string
  ts_authurl :: string
  ts_ips :: "string list"
  ts_online :: bool
  ts_host :: string
  ts_dns :: string
  ts_exit :: bool
  ts_routes :: "string list"

definition StateRunning :: string where "StateRunning = ''Running''"

definition Running :: "tail_status \<Rightarrow> bool" where
  "Running s \<longleftrightarrow> ts_backend s = StateRunning"

text \<open>The JSON decoder is the argument \<open>decode\<close>.\<close>

definition tail_Status ::
  "'w runner \<Rightarrow> (string \<Rightarrow> string + tail_status) \<Rightarrow> tail_client \<Rightarrow> 'w \<Rightarrow> (string + tail_status) \<times> 'w" where
  "tail_Status run decode c w =
     (case run (tail_command c [''status'', ''--json'']) w of
        (Inl e, w') \<Rightarrow> (Inl e, w')
      | (Inr out, w') \<Rightarrow> (decode out, w'))"

definition ApprovedRoutes ::
  "'w runner \<Rightarrow> (string \<Rightarrow> string + tail_status) \<Rightarrow> tail_client \<Rightarrow> 'w \<Rightarrow> (string + string list) \<times> 'w" where
  "ApprovedRoutes run decode c w =
     (case tail_Status run decode c w of
        (Inl e, w') \<Rightarrow> (Inl e, w') | (Inr s, w') \<Rightarrow> (Inr (ts_routes s), w'))"

text \<open>
  \<open>WaitForSocket\<close> from the times at which its clock is read: one entry per attempt, the outcome of
  the status command and the time after it.  \<open>None\<close> is a context that ends during the pause; a
  list that is used up has not returned yet.
\<close>

fun wait_loop :: "time \<Rightarrow> ((string option \<times> time) \<times> bool) list \<Rightarrow> (string option) option" where
  "wait_loop deadline [] = None"
| "wait_loop deadline (((err, now), cancelled) # rest) =
     (case err of
        None \<Rightarrow> Some None
      | Some e \<Rightarrow> if deadline < now then Some (Some e)
                  else if cancelled then Some (Some ''context canceled'')
                  else wait_loop deadline rest)"

definition WaitForSocket :: "time \<Rightarrow> duration \<Rightarrow> ((string option \<times> time) \<times> bool) list \<Rightarrow> (string option) option" where
  "WaitForSocket start timeout attempts = wait_loop (start + timeout) attempts"

section \<open>Facts\<close>

lemma Cut_flag:
  assumes "CHR ''='' \<notin> set name"
  shows "Cut (name @ ''='' @ v) ''='' = (name, v, True)"
  using assms by (induction name) (auto simp: HasPrefix_def)

lemma redact_secret:
  "CHR ''='' \<notin> set name \<Longrightarrow> isSecretFlag name \<Longrightarrow> redact (name @ ''='' @ v) = name @ ''=[redacted]''"
  using Cut_flag [of name v] by (simp add: redact_def)

lemma redact_plain: "CHR ''='' \<notin> set arg \<Longrightarrow> redact arg = arg"
proof -
  assume n: "CHR ''='' \<notin> set arg"
  then have "\<not> Contains arg ''=''" by (auto simp: Contains_iff)
  then show ?thesis using Cut_notfound by (simp add: redact_def)
qed

text \<open>C35: The text of a command, and of the error of running it, does not depend on the value of a
  secret flag; in particular the command that logs in to the tailnet shows no auth key.\<close>

theorem secrets_never_rendered:
  assumes "CHR ''='' \<notin> set name" "isSecretFlag name"
  shows "command_String (c\<lparr>cmd_args := xs @ (name @ ''='' @ v) # ys\<rparr>) = command_String (c\<lparr>cmd_args := xs @ (name @ ''='' @ v') # ys\<rparr>)
    \<and> (key \<noteq> [] \<and> key' \<noteq> [] \<longrightarrow> command_String (Up t host key routes e) = command_String (Up t host key' routes e))"
proof -
  have "CHR ''='' \<notin> set ''--authkey''" "isSecretFlag ''--authkey''" by code_simp+
  note k = redact_secret [OF this]
  have "redact (''--authkey='' @ k) = ''--authkey=[redacted]''" for k
    using k [of k] by simp
  then show ?thesis
    using redact_secret [OF assms, simplified] by (simp add: command_String_def Up_def tail_run_def)
qed

theorem secrets_never_rendered_witness:
  "command_String (Up \<lparr>tc_binary = [], tc_socket = []\<rparr> ''gw'' ''k1'' [] True) =
   command_String (Up \<lparr>tc_binary = [], tc_socket = []\<rparr> ''gw'' ''k2'' [] True)"
proof -
  have "CHR ''='' \<notin> set ''--authkey''" "isSecretFlag ''--authkey''" by code_simp+
  from secrets_never_rendered [OF this] show ?thesis by blast
qed

text \<open>Every command has a deadline unless it asks for none, and only the interactive login of the
  tailnet client does.\<close>

theorem only_login_unbounded:
  "exec_timeout (Up c host key routes e) = (if key = [] then None else Some (2 * Minute)) \<and>
   exec_timeout (SetRoutes_cmd c routes) = Some DefaultTimeout \<and>
   exec_timeout (SetExitNode_cmd c e) = Some DefaultTimeout \<and>
   exec_timeout (mk_command path args) = Some DefaultTimeout"
  by (simp add: exec_timeout_def Up_def tail_run_def SetRoutes_cmd_def SetExitNode_cmd_def tail_command_def
      mk_command_def time_units)

end
