(* ===== verification/Netcfg.thy ===== *)
theory Netcfg
  imports Runner
begin

text \<open>
  \<open>internal/tunnel/netcfg.go\<close> and \<open>internal/tunnel/control.go\<close>: the routes and NAT rules of an interface,
  and the control socket of xl2tpd, as the commands they run.  \<open>kernel_like\<close> states the documented
  behaviour of \<open>ip route\<close> and \<open>iptables\<close> that the lemmas rely on.
\<close>

section \<open>Routes and rules\<close>

text \<open>The phrases of errors that mean the route or rule has already gone.\<close>

definition alreadyGone :: "string \<Rightarrow> bool" where
  "alreadyGone err =
     (let text = ToLower err
      in \<exists>phrase \<in> set [''no such process'', ''cannot find device'', ''does not exist'',
           ''no chain/target/match'', ''bad rule'']. Contains text phrase)"

record rule =
  ru_table :: string
  ru_chain :: string
  ru_spec :: "string list"

definition natRules :: "string \<Rightarrow> rule list" where
  "natRules iface =
     [\<lparr>ru_table = ''nat'', ru_chain = ''POSTROUTING'', ru_spec = [''-o'', iface, ''-j'', ''MASQUERADE'']\<rparr>,
      \<lparr>ru_table = ''mangle'', ru_chain = ''FORWARD'', ru_spec =
         [''-o'', iface, ''-p'', ''tcp'', ''--tcp-flags'', ''SYN,RST'', ''SYN'',
          ''-j'', ''TCPMSS'', ''--clamp-mss-to-pmtu'']\<rparr>]"

definition ip_route :: "string \<Rightarrow> string \<Rightarrow> string \<Rightarrow> command" where
  "ip_route verb subnet iface = mk_command ''ip'' [''route'', verb, subnet, ''dev'', iface]"

definition iptables :: "string \<Rightarrow> rule \<Rightarrow> command" where
  "iptables flag r = mk_command ''iptables'' ([''-t'', ru_table r, flag, ru_chain r] @ ru_spec r)"

fun addRoutes :: "'w runner \<Rightarrow> string \<Rightarrow> string list \<Rightarrow> 'w \<Rightarrow> (string + unit) \<times> 'w" where
  "addRoutes run iface [] w = (Inr (), w)"
| "addRoutes run iface (subnet # subnets) w =
     (case run (ip_route ''replace'' subnet iface) w of
        (Inl e, w') \<Rightarrow> (Inl e, w')
      | (Inr _, w') \<Rightarrow> addRoutes run iface subnets w')"

fun removeRoutes :: "'w runner \<Rightarrow> string \<Rightarrow> string list \<Rightarrow> 'w \<Rightarrow> (string + unit) \<times> 'w" where
  "removeRoutes run iface [] w = (Inr (), w)"
| "removeRoutes run iface (subnet # subnets) w =
     (case run (ip_route ''del'' subnet iface) w of
        (Inl e, w') \<Rightarrow> if alreadyGone e then removeRoutes run iface subnets w' else (Inl e, w')
      | (Inr _, w') \<Rightarrow> removeRoutes run iface subnets w')"

definition ensureRule :: "'w runner \<Rightarrow> rule \<Rightarrow> 'w \<Rightarrow> (string + unit) \<times> 'w" where
  "ensureRule run r w =
     (case run (iptables ''-C'' r) w of
        (Inr _, w') \<Rightarrow> (Inr (), w')
      | (Inl _, w') \<Rightarrow> run_unit run (iptables ''-A'' r) w')"

fun ensure_each :: "'w runner \<Rightarrow> rule list \<Rightarrow> 'w \<Rightarrow> (string + unit) \<times> 'w" where
  "ensure_each run [] w = (Inr (), w)"
| "ensure_each run (r # rs) w =
     (case ensureRule run r w of
        (Inl e, w') \<Rightarrow> (Inl e, w')
      | (Inr _, w') \<Rightarrow> ensure_each run rs w')"

definition enableNAT :: "'w runner \<Rightarrow> string \<Rightarrow> 'w \<Rightarrow> (string + unit) \<times> 'w" where
  "enableNAT run iface = ensure_each run (natRules iface)"

fun delete_each :: "'w runner \<Rightarrow> rule list \<Rightarrow> 'w \<Rightarrow> (string + unit) \<times> 'w" where
  "delete_each run [] w = (Inr (), w)"
| "delete_each run (r # rs) w =
     (case run (iptables ''-D'' r) w of
        (Inl e, w') \<Rightarrow> if alreadyGone e then delete_each run rs w' else (Inl e, w')
      | (Inr _, w') \<Rightarrow> delete_each run rs w')"

definition disableNAT :: "'w runner \<Rightarrow> string \<Rightarrow> 'w \<Rightarrow> (string + unit) \<times> 'w" where
  "disableNAT run iface = delete_each run (natRules iface)"

section \<open>What the tools do\<close>

text \<open>
  \<open>routes\<close> and \<open>rules\<close> read the routing table and the rule chains off the world.  \<open>ip route replace\<close>
  leaves one route for a destination; \<open>del\<close> removes the given one; \<open>iptables -C\<close> tests for a rule,
  \<open>-A\<close> appends one copy and \<open>-D\<close> deletes one copy.  A failing command changes nothing, and an error that
  says the object has gone is told the truth.
\<close>

locale kernel_like =
  fixes run :: "'w runner"
    and routes :: "'w \<Rightarrow> (string \<times> string) set"
    and rules :: "'w \<Rightarrow> rule multiset"
  assumes replace_law: "run (ip_route ''replace'' s d) w = (r, w') \<Longrightarrow> rules w' = rules w \<and>
        routes w' = (case r of Inr _ \<Rightarrow> {x \<in> routes w. fst x \<noteq> s} \<union> {(s, d)} | Inl _ \<Rightarrow> routes w)"
    and del_law: "run (ip_route ''del'' s d) w = (r, w') \<Longrightarrow> rules w' = rules w \<and>
        (case r of Inr _ \<Rightarrow> routes w' = routes w - {(s, d)}
         | Inl e \<Rightarrow> routes w' = routes w \<and> (alreadyGone e \<longrightarrow> (s, d) \<notin> routes w))"
    and check_law: "run (iptables ''-C'' u) w = (r, w') \<Longrightarrow> routes w' = routes w \<and> rules w' = rules w \<and>
        ((\<exists>out. r = Inr out) \<longleftrightarrow> u \<in># rules w)"
    and append_law: "run (iptables ''-A'' u) w = (r, w') \<Longrightarrow> routes w' = routes w \<and>
        rules w' = (case r of Inr _ \<Rightarrow> add_mset u (rules w) | Inl _ \<Rightarrow> rules w)"
    and delete_law: "run (iptables ''-D'' u) w = (r, w') \<Longrightarrow> routes w' = routes w \<and>
        (case r of Inr _ \<Rightarrow> rules w' = rules w - {#u#}
         | Inl e \<Rightarrow> rules w' = rules w \<and> (alreadyGone e \<longrightarrow> u \<notin># rules w))"
begin

text \<open>What the sequences of commands do on such a kernel.\<close>

lemma addRoutes_effect:
  assumes "addRoutes run iface ss w = (Inr (), w')"
  shows "rules w' = rules w \<and> routes w' = {x \<in> routes w. fst x \<notin> set ss} \<union> (\<lambda>s. (s, iface)) ` set ss"
  using assms(1)
proof (induction ss arbitrary: w)
  case Nil
  then show ?case by simp
next
  case (Cons s ss)
  then obtain out w1 where r: "run (ip_route ''replace'' s iface) w = (Inr out, w1)" "addRoutes run iface ss w1 = (Inr (), w')"
    by (auto split: prod.splits sum.splits)
  from replace_law [OF r(1)] Cons.IH [OF r(2)] show ?case by auto
qed

lemma removeRoutes_effect:
  assumes "removeRoutes run iface ss w = (Inr (), w')"
  shows "rules w' = rules w \<and> routes w' = routes w - (\<lambda>s. (s, iface)) ` set ss"
  using assms(1)
proof (induction ss arbitrary: w)
  case Nil
  then show ?case by simp
next
  case (Cons s ss)
  then obtain r w1 where r: "run (ip_route ''del'' s iface) w = (r, w1)" "removeRoutes run iface ss w1 = (Inr (), w')"
    "\<And>e. r = Inl e \<Longrightarrow> alreadyGone e"
    by (auto split: prod.splits sum.splits if_splits)
  from del_law [OF r(1)] Cons.IH [OF r(2)] r(3) show ?case by (cases r) auto
qed

lemma ensureRule_effect:
  assumes "ensureRule run u w = (Inr (), w')"
  shows "routes w' = routes w \<and> rules w' = (if u \<in># rules w then rules w else add_mset u (rules w))"
proof (cases "run (iptables ''-C'' u) w")
  case (Pair r w1)
  note c = check_law [OF Pair]
  show ?thesis
  proof (cases r)
    case (Inr out)
    then show ?thesis using assms(1) Pair c by (auto simp: ensureRule_def)
  next
    case (Inl e)
    with assms(1) Pair obtain out where a: "run (iptables ''-A'' u) w1 = (Inr out, w')"
      by (auto simp: ensureRule_def run_unit_def split: prod.splits sum.splits)
    from append_law [OF a] c Inl show ?thesis by auto
  qed
qed

lemma ensure_each_effect:
  assumes "ensure_each run us w = (Inr (), w')" "distinct us"
  shows "routes w' = routes w \<and> rules w' = rules w + mset (filter (\<lambda>u. u \<notin># rules w) us)"
  using assms(1,2)
proof (induction us arbitrary: w)
  case Nil
  then show ?case by simp
next
  case (Cons u us)
  then obtain w1 where r: "ensureRule run u w = (Inr (), w1)" "ensure_each run us w1 = (Inr (), w')"
    by (auto split: prod.splits sum.splits)
  note e = ensureRule_effect [OF r(1)]
  have "filter (\<lambda>v. v \<notin># rules w1) us = filter (\<lambda>v. v \<notin># rules w) us"
    using e Cons.prems(2) by (intro filter_cong) auto
  then show ?case using Cons.IH [OF r(2)] Cons.prems(2) e by auto
qed

lemma delete_each_effect:
  assumes "delete_each run us w = (Inr (), w')"
  shows "routes w' = routes w \<and> rules w' = rules w - mset us"
  using assms(1)
proof (induction us arbitrary: w)
  case Nil
  then show ?case by simp
next
  case (Cons u us)
  then obtain r w1 where r: "run (iptables ''-D'' u) w = (r, w1)" "delete_each run us w1 = (Inr (), w')"
    "\<And>e. r = Inl e \<Longrightarrow> alreadyGone e"
    by (auto split: prod.splits sum.splits if_splits)
  have "rules w1 = rules w - {#u#}" "routes w1 = routes w"
    using delete_law [OF r(1)] r(3) by (cases r; auto simp: diff_single_trivial)+
  then show ?case using Cons.IH [OF r(2)] by simp
qed

text \<open>However far the commands get.\<close>

lemma addRoutes_rules:
  shows "rules (snd (addRoutes run iface ss w)) = rules w"
proof (induction ss arbitrary: w)
  case Nil
  then show ?case by simp
next
  case (Cons x ss)
  obtain r w' where r: "run (ip_route ''replace'' x iface) w = (r, w')" by fastforce
  from replace_law [OF r] Cons.IH [of w'] show ?case by (simp add: r split: sum.split)
qed

lemma ensure_each_rules:
  shows "rules (snd (ensure_each run us w)) \<subseteq># rules w + mset us"
proof (induction us arbitrary: w)
  case Nil
  then show ?case by simp
next
  case (Cons u us)
  obtain r w' where r: "ensureRule run u w = (r, w')" by fastforce
  have one: "rules w' \<subseteq># add_mset u (rules w)"
  proof -
    obtain c wc where c: "run (iptables ''-C'' u) w = (c, wc)" by fastforce
    note ce = check_law [OF c]
    obtain a wa where a: "run (iptables ''-A'' u) wc = (a, wa)" by fastforce
    note ae = append_law [OF a]
    have "w' = (case c of Inr _ \<Rightarrow> wc | Inl _ \<Rightarrow> wa)"
      using r c a by (auto simp: ensureRule_def run_unit_def split: sum.splits)
    then show ?thesis using ce ae by (cases c; cases a) auto
  qed
  show ?case
  proof (cases r)
    case (Inl e)
    then show ?thesis using one r by (simp add: subset_mset.trans [OF one])
  next
    case (Inr x)
    have "rules (snd (ensure_each run us w')) \<subseteq># rules w' + mset us" by (rule Cons.IH)
    also have "\<dots> \<subseteq># add_mset u (rules w) + mset us" using one by (rule subset_mset.add_right_mono)
    finally show ?thesis using Inr r by simp
  qed
qed

end

lemma natRules_distinct: "distinct (natRules iface)"
  by (simp add: natRules_def)

text \<open>Rules of different interfaces are different.\<close>

lemma natRules_iface: "u \<in> set (natRules a) \<Longrightarrow> u \<in> set (natRules b) \<Longrightarrow> a = b"
  by (auto simp: natRules_def)

section \<open>The control socket of xl2tpd\<close>

definition control :: "string \<Rightarrow> string list \<Rightarrow> command" where
  "control path args = mk_command ''xl2tpd-control'' ([''-c'', path] @ args)"

definition ctl_Connect :: "string \<Rightarrow> string \<Rightarrow> command" where
  "ctl_Connect path name = control path [''connect-lac'', name]"

definition ctl_Disconnect :: "string \<Rightarrow> string \<Rightarrow> command" where
  "ctl_Disconnect path name = control path [''disconnect-lac'', name]"

definition ctl_Remove :: "string \<Rightarrow> string \<Rightarrow> command" where
  "ctl_Remove path name = control path [''remove-lac'', name]"

end
