(* ===== verification/Manager.thy ===== *)
theory Manager
  imports Store Render Netcfg
begin

text \<open>
  \<open>internal/tunnel/reconcile.go\<close>: the reconciler that dials, watches and tears down the tunnels of the
  enabled connections.  The record \<open>sys\<close> holds the manager's own state, the store and the
  file system it writes to, and the rest of the world, which external commands, the clock and the
  resolver change; \<open>env\<close> holds these and the options.  Every operation is one that the source runs
  on one goroutine; the order of the list of tunnels stands for Go's iteration order over the map.
\<close>

section \<open>State\<close>

record tstate =
  k_id :: int
  k_name :: string
  k_subnets :: "string list"
  k_iface :: string
  k_phase :: db_state
  k_failures :: int
  k_dialed :: time
  k_retry :: time

record 'w env =
  e_run :: "'w runner"
  e_now :: "'w \<Rightarrow> time \<times> 'w"
  e_resolve :: "string \<Rightarrow> 'w \<Rightarrow> (string + string) \<times> 'w"
  e_tail :: "(string list \<Rightarrow> 'w \<Rightarrow> (string + unit) \<times> 'w) option"
  e_print :: "nat \<Rightarrow> bool"
  e_text :: "dberr \<Rightarrow> string"
  e_dir :: string
  e_ctl :: string
  e_tick :: duration
  e_dial :: duration

record 'w sys =
  y_tunnels :: "tstate list"
  y_advertised :: string
  y_rendered :: "(string \<times> string) list"
  y_nudge :: bool
  y_logs :: "string list"
  y_store :: store
  y_fs :: fsys
  y_world :: 'w

type_synonym ('w, 'a) act = "'w sys \<Rightarrow> 'a \<times> 'w sys"

definition defaultTick :: duration where "defaultTick = 30 * Second"
definition retryTick :: duration where "retryTick = 5 * Second"
definition defaultDialTimeout :: duration where "defaultDialTimeout = 60 * Second"
definition minRedialDelay :: duration where "minRedialDelay = 10 * Second"
definition maxRedialDelay :: duration where "maxRedialDelay = 5 * Minute"
definition initiateTimeout :: nat where "initiateTimeout = 20"

text \<open>\<open>New\<close> fills in the defaults of the options it is given.\<close>

definition mgr_New :: "'w env \<Rightarrow> 'w env" where
  "mgr_New e = e\<lparr>e_tick := (if e_tick e \<le> 0 then defaultTick else e_tick e),
     e_dial := (if e_dial e \<le> 0 then defaultDialTimeout else e_dial e)\<rparr>"

section \<open>Effects\<close>

definition sh :: "'w env \<Rightarrow> command \<Rightarrow> ('w, string + string) act" where
  "sh e c s = (case e_run e c (y_world s) of (r, w) \<Rightarrow> (r, s\<lparr>y_world := w\<rparr>))"

definition in_world :: "('w \<Rightarrow> 'a \<times> 'w) \<Rightarrow> ('w, 'a) act" where
  "in_world f s = (case f (y_world s) of (r, w) \<Rightarrow> (r, s\<lparr>y_world := w\<rparr>))"

definition logf :: "string \<Rightarrow> 'w sys \<Rightarrow> 'w sys" where
  "logf msg s = s\<lparr>y_logs := y_logs s @ [msg]\<rparr>"

definition upd_tunnel :: "string \<Rightarrow> (tstate \<Rightarrow> tstate) \<Rightarrow> 'w sys \<Rightarrow> 'w sys" where
  "upd_tunnel name f s = s\<lparr>y_tunnels := row_upd k_name name f (y_tunnels s)\<rparr>"

definition the_tunnel :: "string \<Rightarrow> 'w sys \<Rightarrow> tstate option" where
  "the_tunnel name s = row_sel k_name name (y_tunnels s)"

definition Nudge :: "'w sys \<Rightarrow> 'w sys" where
  "Nudge s = s\<lparr>y_nudge := True\<rparr>"

definition put_status :: "'w env \<Rightarrow> status \<Rightarrow> ('w, unit db_res) act" where
  "put_status e st s = (case SetStatus st (y_store s) of (r, db) \<Rightarrow> (r, s\<lparr>y_store := db\<rparr>))"

definition setStatus :: "'w env \<Rightarrow> int \<Rightarrow> db_state \<Rightarrow> string \<Rightarrow> 'w sys \<Rightarrow> 'w sys" where
  "setStatus e i phase reason s =
     (case put_status e ((empty_status i phase)\<lparr>t_err := reason\<rparr>) s of
        (Inl err, s') \<Rightarrow> logf (''connection '' @ dec_int i @ '': record status: '' @ e_text e err) s'
      | (Inr _, s') \<Rightarrow> s')"

definition swanctl :: "'w env \<Rightarrow> string list \<Rightarrow> command" where
  "swanctl e args = \<lparr>cmd_path = ''swanctl'', cmd_args = args, cmd_env = [''SWANCTL_DIR='' @ e_dir e], cmd_timeout = 0\<rparr>"

definition peersDir :: "'w env \<Rightarrow> string" where
  "peersDir e = path_join (e_dir e) ''peers''"

definition ctl_Add :: "string \<Rightarrow> tunnel \<Rightarrow> string \<Rightarrow> command" where
  "ctl_Add path t dir = control path
     [''add-lac'', t_name t, ''lns='' @ t_host t, ''require chap=yes'', ''refuse pap=yes'',
      ''require authentication=no'', ''name='' @ t_user t, ''pppoptfile='' @ path_join dir (t_name t),
      ''length bit=yes'', ''redial=yes'', ''redial timeout=10'', ''max redials=5'']"

section \<open>Backoff\<close>

text \<open>\<open>redialDelay\<close>; the shift by a negative count panics, which is \<open>None\<close>.\<close>

definition redialDelay :: "int \<Rightarrow> duration option" where
  "redialDelay failures =
     (if min (failures - 1) 16 < 0 then None
      else Some (min (wrap64 (minRedialDelay * 2 ^ nat (min (failures - 1) 16))) maxRedialDelay))"

definition retry_from :: "time \<Rightarrow> int \<Rightarrow> time" where
  "retry_from now failures = now + (case redialDelay failures of Some d \<Rightarrow> d | None \<Rightarrow> 0)"

definition nextRetry_at :: "duration \<Rightarrow> time \<Rightarrow> tstate list \<Rightarrow> duration" where
  "nextRetry_at tick now tunnels =
     max (foldl (\<lambda>wait t. if k_retry t = 0 \<or> \<not> now < k_retry t then wait
                          else min wait (time_Sub (k_retry t) now)) tick tunnels) Second"

definition nextRetry :: "'w env \<Rightarrow> ('w, duration) act" where
  "nextRetry e s = (case in_world (e_now e) s of (now, s') \<Rightarrow>
     (nextRetry_at (e_tick e) now (y_tunnels s'), s'))"

section \<open>Tearing down\<close>

definition tearDownInterface :: "'w env \<Rightarrow> string \<Rightarrow> string \<Rightarrow> string list \<Rightarrow> 'w sys \<Rightarrow> 'w sys" where
  "tearDownInterface e name iface subnets s =
     (let (r1, s1) = in_world (removeRoutes (e_run e) iface subnets) s;
          s2 = (case r1 of Inl err \<Rightarrow> logf (name @ '': remove routes: '' @ err) s1 | Inr _ \<Rightarrow> s1);
          (r2, s3) = in_world (disableNAT (e_run e) iface) s2
      in (case r2 of Inl err \<Rightarrow> logf (name @ '': remove nat: '' @ err) s3 | Inr _ \<Rightarrow> s3))"

definition tearDown :: "'w env \<Rightarrow> string \<Rightarrow> string \<Rightarrow> string list \<Rightarrow> 'w sys \<Rightarrow> 'w sys" where
  "tearDown e name iface subnets s =
     (if iface \<noteq> [] then tearDownInterface e name iface subnets s else s)"

definition terminate :: "'w env \<Rightarrow> string \<Rightarrow> 'w sys \<Rightarrow> 'w sys" where
  "terminate e name s =
     (case sh e (swanctl e [''--terminate'', ''--ike'', name]) s of
        (Inl err, s') \<Rightarrow> if \<not> Contains err ''no matching SAs''
          then logf (name @ '': terminate: '' @ err) s' else s'
      | (Inr _, s') \<Rightarrow> s')"

definition drop_tunnel :: "'w env \<Rightarrow> string \<Rightarrow> 'w sys \<Rightarrow> 'w sys" where
  "drop_tunnel e name s =
     (case the_tunnel name s of
        None \<Rightarrow> s
      | Some t \<Rightarrow>
          (let s1 = upd_tunnel name (\<lambda>t. t\<lparr>k_phase := StateDisconnected, k_iface := [],
                 k_failures := 0, k_retry := 0\<rparr>) s;
               s2 = tearDown e name (k_iface t) (k_subnets t) s1;
               s3 = snd (sh e (ctl_Disconnect (e_ctl e) name) s2);
               s4 = terminate e name s3
           in setStatus e (k_id t) StateDisconnected [] s4))"

text \<open>\<open>disconnect\<close> of a tunnel that has left the map.\<close>

definition disconnect :: "'w env \<Rightarrow> tstate \<Rightarrow> 'w sys \<Rightarrow> 'w sys" where
  "disconnect e t s =
     (let s1 = tearDown e (k_name t) (k_iface t) (k_subnets t) s;
          s2 = snd (sh e (ctl_Disconnect (e_ctl e) (k_name t)) s1);
          s3 = snd (sh e (ctl_Remove (e_ctl e) (k_name t)) s2);
          s4 = terminate e (k_name t) s3
      in setStatus e (k_id t) StateDisconnected [] s4)"

definition fail :: "'w env \<Rightarrow> string \<Rightarrow> string \<Rightarrow> string \<Rightarrow> 'w sys \<Rightarrow> 'w sys" where
  "fail e name iface reason s =
     (case the_tunnel name s of
        None \<Rightarrow> s
      | Some t \<Rightarrow>
          (let s1 = tearDown e name iface (k_subnets t) s;
               (now, s2) = in_world (e_now e) s1;
               s3 = upd_tunnel name (\<lambda>t. t\<lparr>k_phase := StateFailed, k_iface := [],
                 k_failures := k_failures t + 1, k_retry := retry_from now (k_failures t + 1)\<rparr>) s2
           in setStatus e (k_id t) StateFailed reason s3))"

section \<open>Dialling\<close>

definition dialFailed :: "'w env \<Rightarrow> tstate \<Rightarrow> string \<Rightarrow> 'w sys \<Rightarrow> 'w sys" where
  "dialFailed e t err s =
     (let (now, s1) = in_world (e_now e) s;
          s2 = upd_tunnel (k_name t) (\<lambda>t. t\<lparr>k_phase := StateFailed, k_failures := k_failures t + 1,
            k_retry := retry_from now (k_failures t + 1)\<rparr>) s1;
          s3 = logf (k_name t @ '': dial: '' @ err) s2
      in setStatus e (k_id t) StateFailed err s3)"

text \<open>The commands of a dial, before the manager takes its lock again, and what it records.\<close>

definition dial_attempt :: "'w env \<Rightarrow> string \<Rightarrow> ('w, string + unit) act" where
  "dial_attempt e name s =
     (let s1 = snd (sh e (ctl_Disconnect (e_ctl e) name) s)
      in (case sh e (swanctl e [''--initiate'', ''--ike'', name, ''--child'', name, ''--timeout'', dec initiateTimeout]) s1 of
            (Inl err, s2) \<Rightarrow> (Inl err, s2)
          | (Inr _, s2) \<Rightarrow> (case sh e (ctl_Connect (e_ctl e) name) s2 of
              (Inl err, s3) \<Rightarrow> (Inl err, s3)
            | (Inr _, s3) \<Rightarrow> (Inr (), s3))))"

definition dial_record :: "'w env \<Rightarrow> tstate \<Rightarrow> string + unit \<Rightarrow> 'w sys \<Rightarrow> 'w sys" where
  "dial_record e t r s =
     (case r of
        Inl err \<Rightarrow> dialFailed e t err s
      | Inr _ \<Rightarrow>
          (let (now, s1) = in_world (e_now e) s;
               s2 = upd_tunnel (k_name t) (\<lambda>t. t\<lparr>k_phase := StateConnecting, k_dialed := now\<rparr>) s1
           in setStatus e (k_id t) StateConnecting [] s2))"

definition dial :: "'w env \<Rightarrow> string \<Rightarrow> 'w sys \<Rightarrow> 'w sys" where
  "dial e name s =
     (case the_tunnel name s of
        None \<Rightarrow> s
      | Some t \<Rightarrow> (case dial_attempt e name s of (r, s') \<Rightarrow> dial_record e t r s'))"

definition new_tunnel :: "connection \<Rightarrow> tstate" where
  "new_tunnel conn = \<lparr>k_id = c_id conn, k_name = c_name conn, k_subnets = [], k_iface = [],
     k_phase = StateDisconnected, k_failures = 0, k_dialed = 0, k_retry = 0\<rparr>"

text \<open>The locked prologue of \<open>step\<close>: the connection's entry, created when there is none.\<close>

definition enter :: "connection \<Rightarrow> 'w sys \<Rightarrow> 'w sys" where
  "enter conn s =
     (let s1 = (if the_tunnel (c_name conn) s = None
                then s\<lparr>y_tunnels := row_ins (new_tunnel conn) (y_tunnels s)\<rparr> else s)
      in upd_tunnel (c_name conn) (\<lambda>t. t\<lparr>k_id := c_id conn, k_subnets := c_subnets conn\<rparr>) s1)"

definition step_from :: "'w env \<Rightarrow> connection \<Rightarrow> tstate \<Rightarrow> time \<Rightarrow> 'w sys \<Rightarrow> 'w sys" where
  "step_from e conn t now s =
     (case k_phase t of
        StateUp \<Rightarrow> s
      | StateConnecting \<Rightarrow>
          if time_Sub now (k_dialed t) < e_dial e then s
          else fail e (c_name conn) (k_iface t) ''timed out waiting for a ppp interface'' s
      | _ \<Rightarrow> if now < k_retry t then s else dial e (c_name conn) s)"

definition step :: "'w env \<Rightarrow> connection \<Rightarrow> 'w sys \<Rightarrow> 'w sys" where
  "step e conn s =
     (let s1 = enter conn s
      in (case the_tunnel (c_name conn) s1 of
            None \<Rightarrow> s1
          | Some t \<Rightarrow> (case in_world (e_now e) s1 of (now, s2) \<Rightarrow> step_from e conn t now s2)))"

section \<open>Configuration\<close>

definition fingerprint :: "tunnel \<Rightarrow> string" where
  "fingerprint t = join ''|'' [t_host t, t_addr t, t_psk t, t_user t, t_pass t, join '','' (t_subnets t)]"

definition fingerprintsOf :: "tunnel list \<Rightarrow> (string \<times> string) list" where
  "fingerprintsOf tunnels = foldl (\<lambda>prints t. row_upsert fst (t_name t, fingerprint t) prints) [] tunnels"

text \<open>Indexing a Go map of strings: the empty string for an absent key.\<close>

definition go_index :: "(string \<times> string) list \<Rightarrow> string \<Rightarrow> string" where
  "go_index m k = (case row_sel fst k m of None \<Rightarrow> [] | Some (_, v) \<Rightarrow> v)"

definition changedTunnels :: "(string \<times> string) list \<Rightarrow> (string \<times> string) list \<Rightarrow> tunnel list \<Rightarrow> tunnel list" where
  "changedTunnels rendered wanted tunnels =
     filter (\<lambda>t. go_index rendered (t_name t) \<noteq> go_index wanted (t_name t)) tunnels"

definition resolveHost :: "(string + addr list) \<Rightarrow> string \<Rightarrow> string + string" where
  "resolveHost lookup host =
     (case lookup of
        Inl err \<Rightarrow> Inl err
      | Inr [] \<Rightarrow> Inl (host @ '': no IPv4 address'')
      | Inr (a # _) \<Rightarrow> Inr (show_addr a))"

fun desiredTunnels :: "'w env \<Rightarrow> connection list \<Rightarrow> ('w, string + tunnel list) act" where
  "desiredTunnels e [] s = (Inr [], s)"
| "desiredTunnels e (conn # conns) s =
     (case ConnectionSecrets (c_id conn) (y_store s) of
        Inl err \<Rightarrow> (Inl (e_text e err), s)
      | Inr sec \<Rightarrow>
          (let (r, s1) = in_world (e_resolve e (c_gateway conn)) s;
               (addr, s2) = (case r of
                  Inl err \<Rightarrow> ([], logf (c_name conn @ '': resolve '' @ c_gateway conn @ '': '' @ err) s1)
                | Inr a \<Rightarrow> (a, s1))
           in (case desiredTunnels e conns s2 of
                 (Inl err, s3) \<Rightarrow> (Inl err, s3)
               | (Inr ts, s3) \<Rightarrow> (Inr (FromConnection conn sec addr # ts), s3))))"

definition write_files :: "'w env \<Rightarrow> tunnel list \<Rightarrow> ('w, string + unit) act" where
  "write_files e ts s = (case Write (e_print e) (e_dir e) ts (y_fs s) of (r, fs) \<Rightarrow> (r, s\<lparr>y_fs := fs\<rparr>))"

definition writeConfigs :: "'w env \<Rightarrow> connection list \<Rightarrow> ('w, string + tunnel list) act" where
  "writeConfigs e conns s =
     (case desiredTunnels e conns s of
        (Inl err, s1) \<Rightarrow> (Inl err, s1)
      | (Inr ts, s1) \<Rightarrow>
          (let fingerprints = fingerprintsOf ts;
               changed = changedTunnels (y_rendered s1) fingerprints ts;
               stale = (length (y_rendered s1) \<noteq> length fingerprints)
           in if changed = [] \<and> \<not> stale then (Inr [], s1)
              else (case write_files e ts s1 of
                (Inl err, s2) \<Rightarrow> (Inl err, s2)
              | (Inr _, s2) \<Rightarrow> (case sh e (swanctl e [''--load-all'', ''--noprompt'']) s2 of
                  (Inl err, s3) \<Rightarrow> (Inl err, s3)
                | (Inr _, s3) \<Rightarrow> (Inr changed, s3\<lparr>y_rendered := fingerprints\<rparr>)))))"

section \<open>Advertising\<close>

definition advertise :: "'w env \<Rightarrow> ('w, string + unit) act" where
  "advertise e s =
     (case AdvertisedRoutes (y_store s) of
        Inl err \<Rightarrow> (Inl (e_text e err), s)
      | Inr rs \<Rightarrow>
          (let routes = sort rs; joined = join '','' routes
           in if joined = y_advertised s then (Inr (), s)
              else (case e_tail e of
                None \<Rightarrow> (Inr (), s)
              | Some set_routes \<Rightarrow> (case in_world (set_routes routes) s of
                  (Inl err, s1) \<Rightarrow> (Inl err, s1)
                | (Inr _, s1) \<Rightarrow> (Inr (), logf (''advertising '' @ joined) (s1\<lparr>y_advertised := joined\<rparr>))))))"

section \<open>Reconciling\<close>

definition staleTunnels :: "string set \<Rightarrow> ('w, tstate list) act" where
  "staleTunnels desired s =
     (filter (\<lambda>t. k_name t \<notin> desired) (y_tunnels s),
      s\<lparr>y_tunnels := filter (\<lambda>t. k_name t \<in> desired) (y_tunnels s)\<rparr>)"

definition redefine :: "'w env \<Rightarrow> tunnel \<Rightarrow> 'w sys \<Rightarrow> 'w sys" where
  "redefine e t s =
     (let s1 = drop_tunnel e (t_name t) s;
          s2 = snd (sh e (ctl_Remove (e_ctl e) (t_name t)) s1)
      in (case sh e (ctl_Add (e_ctl e) t (peersDir e)) s2 of
            (Inl err, s3) \<Rightarrow> logf (t_name t @ '': '' @ err) s3
          | (Inr _, s3) \<Rightarrow> s3))"

definition Reconcile :: "'w env \<Rightarrow> ('w, string + unit) act" where
  "Reconcile e s =
     (case ListConnections (y_store s) of
        Inl err \<Rightarrow> (Inl (e_text e err), s)
      | Inr conns \<Rightarrow>
          (let enabled = filter c_enabled conns;
               (stale, s1) = staleTunnels (c_name ` set enabled) s;
               s2 = foldl (\<lambda>s t. disconnect e t s) s1 stale
           in (case writeConfigs e enabled s2 of
                 (Inl err, s3) \<Rightarrow> (Inl err, s3)
               | (Inr changed, s3) \<Rightarrow>
                   (let s4 = foldl (\<lambda>s t. redefine e t s) s3 changed;
                        s5 = foldl (\<lambda>s conn. step e conn s) s4 enabled
                    in advertise e s5))))"

definition Prerender :: "'w env \<Rightarrow> ('w, string + unit) act" where
  "Prerender e s =
     (case ListConnections (y_store s) of
        Inl err \<Rightarrow> (Inl (e_text e err), s)
      | Inr conns \<Rightarrow> (case desiredTunnels e (filter c_enabled conns) s of
          (Inl err, s1) \<Rightarrow> (Inl err, s1)
        | (Inr ts, s1) \<Rightarrow> write_files e ts s1))"

text \<open>
  One turn of the loop of \<open>Run\<close>: reconcile, and how long to wait for a tick or a nudge.  \<open>live\<close> says
  that the context has not ended.
\<close>

definition run_turn :: "'w env \<Rightarrow> bool \<Rightarrow> ('w, duration) act" where
  "run_turn e live s =
     (let (r, s1) = Reconcile e s;
          (wait, s2) = (case r of
             Inl err \<Rightarrow> if live then (retryTick, logf (''reconcile: '' @ err) s1) else (e_tick e, s1)
           | Inr _ \<Rightarrow> (e_tick e, s1));
          (next, s3) = nextRetry e s2
      in (min wait next, s3))"

section \<open>Events\<close>

definition PPPUp :: "'w env \<Rightarrow> string \<Rightarrow> string \<Rightarrow> string \<Rightarrow> string \<Rightarrow> ('w, string + unit) act" where
  "PPPUp e name iface localIP peerIP s =
     (case the_tunnel name s of
        None \<Rightarrow> (Inl (''unknown connection '' @ go_quote (e_print e) name), s)
      | Some t \<Rightarrow> (case in_world (addRoutes (e_run e) iface (k_subnets t)) s of
          (Inl err, s1) \<Rightarrow> (Inl err, fail e name iface err s1)
        | (Inr _, s1) \<Rightarrow> (case in_world (enableNAT (e_run e) iface) s1 of
            (Inl err, s2) \<Rightarrow> (Inl err, fail e name iface err s2)
          | (Inr _, s2) \<Rightarrow>
              (let s3 = upd_tunnel name (\<lambda>t. t\<lparr>k_iface := iface, k_phase := StateUp,
                     k_failures := 0, k_retry := 0\<rparr>) s2;
                   s4 = logf (name @ '': up on '' @ iface @ '' as '' @ localIP) s3;
                   (now, s5) = in_world (e_now e) s4
               in (case put_status e ((empty_status (k_id t) StateUp)\<lparr>t_iface := iface, t_local := localIP,
                          t_peer := peerIP, t_connected := now\<rparr>) s5 of
                     (Inl err, s6) \<Rightarrow> (Inl (e_text e err), s6)
                   | (Inr _, s6) \<Rightarrow> (Inr (), s6))))))"

definition PPPDown :: "'w env \<Rightarrow> string \<Rightarrow> string \<Rightarrow> ('w, string + unit) act" where
  "PPPDown e name iface s =
     (case the_tunnel name s of
        None \<Rightarrow> (Inl (''unknown connection '' @ go_quote (e_print e) name), s)
      | Some t \<Rightarrow>
          (let dev = (if iface = [] then k_iface t else iface);
               s1 = tearDown e name dev (k_subnets t) s;
               (now, s2) = in_world (e_now e) s1;
               s3 = upd_tunnel name (\<lambda>t. t\<lparr>k_iface := [], k_phase := StateDisconnected,
                      k_retry := now + minRedialDelay\<rparr>) s2;
               s4 = logf (name @ '': down'') s3;
               s5 = setStatus e (k_id t) StateDisconnected [] s4
           in (Inr (), Nudge s5)))"

definition Unhealthy :: "'w env \<Rightarrow> string \<Rightarrow> string \<Rightarrow> 'w sys \<Rightarrow> 'w sys" where
  "Unhealthy e name reason s =
     (case the_tunnel name s of
        None \<Rightarrow> s
      | Some t \<Rightarrow> Nudge (fail e name (k_iface t) reason (logf (name @ '': '' @ reason) s)))"

definition Invalidate :: "'w sys \<Rightarrow> 'w sys" where
  "Invalidate s = Nudge (s\<lparr>y_rendered := []\<rparr>)"

definition mgr_Status :: "string \<Rightarrow> 'w sys \<Rightarrow> db_state \<times> string" where
  "mgr_Status name s =
     (case the_tunnel name s of Some t \<Rightarrow> (k_phase t, k_iface t) | None \<Rightarrow> (StateDisconnected, []))"

end
