(* ===== verification/Machine.thy ===== *)
theory Machine
  imports Prelude
begin

text \<open>
  The interface between a component with state and what is said of its runs: a step function on
  commands and an invariant that every step keeps.  A run is a list of commands; the lemmas lift
  the one-step law to runs and to every state on the way.
\<close>

fun run_cmds :: "('c \<Rightarrow> 's \<Rightarrow> 's) \<Rightarrow> 'c list \<Rightarrow> 's \<Rightarrow> 's" where
  "run_cmds step [] s = s"
| "run_cmds step (c # cs) s = run_cmds step cs (step c s)"

lemma run_cmds_append: "run_cmds step (as @ bs) s = run_cmds step bs (run_cmds step as s)"
  by (induction as arbitrary: s) auto

locale machine =
  fixes step :: "'c \<Rightarrow> 's \<Rightarrow> 's"
    and allowed :: "'c \<Rightarrow> bool"
    and inv :: "'s \<Rightarrow> bool"
  assumes step_inv: "inv s \<Longrightarrow> allowed c \<Longrightarrow> inv (step c s)"
begin

lemma run_inv: "inv s \<Longrightarrow> \<forall>c \<in> set cs. allowed c \<Longrightarrow> inv (run_cmds step cs s)"
  by (induction cs arbitrary: s) (auto intro: step_inv)

lemma prefix_inv:
  "inv s \<Longrightarrow> \<forall>c \<in> set cs. allowed c \<Longrightarrow> n \<le> length cs \<Longrightarrow> inv (run_cmds step (take n cs) s)"
  by (rule run_inv) (auto dest: in_set_takeD)

end

text \<open>
  A machine that refines another: an abstraction of the state under which each step is a step of
  the abstract machine.
\<close>

locale refinement =
  fixes step :: "'c \<Rightarrow> 's \<Rightarrow> 's"
    and astep :: "'c \<Rightarrow> 'a \<Rightarrow> 'a"
    and abs :: "'s \<Rightarrow> 'a"
    and ok :: "'s \<Rightarrow> bool"
  assumes simulates: "ok s \<Longrightarrow> abs (step c s) = astep c (abs s)"
    and ok_step: "ok s \<Longrightarrow> ok (step c s)"
begin

lemma run_simulates: "ok s \<Longrightarrow> abs (run_cmds step cs s) = run_cmds astep cs (abs s)"
  by (induction cs arbitrary: s) (simp_all add: simulates ok_step)

end

text \<open>What a refinement keeps makes it a machine of its own.\<close>

sublocale refinement < kept: machine step "\<lambda>_. True" ok
  by unfold_locales (rule ok_step)

end
