(* ===== verification/StoreInv.thy ===== *)
theory StoreInv
  imports Store Machine
begin

text \<open>
  What the store keeps true.  \<open>store_wf\<close> says that keys are unique, that status rows belong to a
  connection or subnet, that every stored row passed validation, and that no two stored subnets,
  of connections or local, overlap.  Every operation of the package keeps it, whichever
  statement fails; \<open>store_machine\<close> lifts this to every sequence of operations.
\<close>

interpretation conn_tab: row_table r_id "row_sel r_id" row_ins "row_upd r_id" "row_del r_id" "row_wf r_id"
  by (rule row_table_rows)

interpretation local_tab: row_table sn_id "row_sel sn_id" row_ins "row_upd sn_id" "row_del sn_id" "row_wf sn_id"
  by (rule row_table_rows)

interpretation status_tab: row_table st_conn "row_sel st_conn" row_ins "row_upd st_conn" "row_del st_conn" "row_wf st_conn"
  by (rule row_table_rows)

interpretation setting_tab: row_table g_name "row_sel g_name" row_ins "row_upd g_name" "row_del g_name" "row_wf g_name"
  by (rule row_table_rows)

section \<open>The invariant\<close>

definition row_pfx :: "conn_row \<Rightarrow> prefix list" where
  "row_pfx r = prefixesOf (splitSubnets (r_subnets r))"

definition sn_pfx :: "subnet_row \<Rightarrow> prefix list" where
  "sn_pfx r = prefixesOf [sn_cidr r]"

definition routed :: "store \<Rightarrow> prefix list" where
  "routed st = concat (map row_pfx (tconns st)) @ concat (map sn_pfx (tlocals st))"

definition row_ok :: "conn_row \<Rightarrow> bool" where
  "row_ok r \<longleftrightarrow> 1 \<le> r_id r \<and> name_pattern (r_name r) \<and> token_safe (r_gateway r) \<and> r_gateway r \<noteq> [] \<and>
     token_safe (r_user r) \<and> r_user r \<noteq> [] \<and>
     (\<exists>ps. ps \<noteq> [] \<and> (\<forall>p \<in> set ps. pfx_canonical p) \<and> r_subnets r = join '','' (map show_prefix ps))"

definition local_ok :: "subnet_row \<Rightarrow> bool" where
  "local_ok r \<longleftrightarrow> 1 \<le> sn_id r \<and> (\<exists>p. pfx_canonical p \<and> sn_cidr r = show_prefix p)"

definition store_wf :: "store \<Rightarrow> bool" where
  "store_wf st \<longleftrightarrow>
     row_wf r_id (tconns st) \<and> row_wf r_name (tconns st) \<and> (\<forall>r \<in> set (tconns st). row_ok r) \<and>
     row_wf sn_id (tlocals st) \<and> row_wf sn_cidr (tlocals st) \<and> (\<forall>r \<in> set (tlocals st). local_ok r) \<and>
     row_wf st_conn (tstatus st) \<and> st_conn ` set (tstatus st) \<subseteq> r_id ` set (tconns st) \<and>
     row_wf ss_id (tsubstat st) \<and> ss_id ` set (tsubstat st) \<subseteq> sn_id ` set (tlocals st) \<and>
     row_wf g_name (tsettings st) \<and> disjoint_list (routed st)"

lemma store_wf_fields [dest]:
  assumes "store_wf st"
  shows "row_wf r_id (tconns st)" "row_wf r_name (tconns st)" "\<forall>r \<in> set (tconns st). row_ok r"
    "row_wf sn_id (tlocals st)" "row_wf sn_cidr (tlocals st)" "\<forall>r \<in> set (tlocals st). local_ok r"
    "row_wf st_conn (tstatus st)" "st_conn ` set (tstatus st) \<subseteq> r_id ` set (tconns st)"
    "row_wf ss_id (tsubstat st)" "ss_id ` set (tsubstat st) \<subseteq> sn_id ` set (tlocals st)"
    "row_wf g_name (tsettings st)" "disjoint_list (routed st)"
  using assms by (auto simp: store_wf_def)

section \<open>Claims\<close>

lemma scanConnection_simps [simp]:
  "c_id (scanConnection r) = r_id r" "c_name (scanConnection r) = r_name r"
  "c_subnets (scanConnection r) = splitSubnets (r_subnets r)" "c_enabled (scanConnection r) = r_enabled r"
  "c_gateway (scanConnection r) = r_gateway r" "c_user (scanConnection r) = r_user r"
  "c_hcip (scanConnection r) = coalesce (r_hcip r)"
  by (simp_all add: scanConnection_def)

lemma scanSubnet_simps [simp]:
  "l_id (scanSubnet t r) = sn_id r" "l_cidr (scanSubnet t r) = sn_cidr r"
  "l_enabled (scanSubnet t r) = sn_enabled r" "l_hcip (scanSubnet t r) = coalesce (sn_hcip r)"
  by (simp_all add: scanSubnet_def Let_def)

lemma map_res_member: "map_res f xs = Inr ys \<Longrightarrow> x \<in> set xs \<Longrightarrow> \<exists>y \<in> set ys. f x = Inr y"
  by (induction xs arbitrary: ys) (auto simp: guard_simps)

lemma connection_claims_prefixes:
  assumes "connection_claims c = Inr cs"
  shows "prefixesOf (c_subnets c) = map cl_prefix cs"
proof -
  have "map_res (\<lambda>s. bindr (ParseSubnet s) (\<lambda>p. Inr \<lparr>cl_owner = w, cl_prefix = p\<rparr>)) ss = Inr cs
      \<Longrightarrow> prefixesOf ss = map cl_prefix cs" for ss w
    by (induction ss arbitrary: cs) (auto simp: guard_simps prefixesOf_def)
  then show ?thesis using assms by (simp add: connection_claims_def)
qed

lemma subnet_claim_prefix: "subnet_claim l = Inr cl \<Longrightarrow> prefixesOf [l_cidr l] = [cl_prefix cl]"
  by (auto simp: subnet_claim_def guard_simps prefixesOf_def)

text \<open>A successful collection of claims holds every stored subnet of the other owners.\<close>

lemma claimedSubnets_complete:
  assumes c: "claimedSubnets except st = Inr claims"
  shows "r \<in> set (tconns st) \<Longrightarrow> r_id r \<noteq> except \<Longrightarrow> set (row_pfx r) \<subseteq> cl_prefix ` set claims"
    and "l \<in> set (tlocals st) \<Longrightarrow> set (sn_pfx l) \<subseteq> cl_prefix ` set claims"
proof -
  let ?conns = "filter (\<lambda>c. c_id c \<noteq> except) (map scanConnection (sort_key r_name (tconns st)))"
  let ?locals = "map (scanSubnet (tsubstat st)) (sort_key sn_cidr (tlocals st))"
  from c obtain cs ls where cs: "map_res connection_claims ?conns = Inr cs"
    and ls: "map_res subnet_claim ?locals = Inr ls" and claims: "claims = concat cs @ ls"
    by (auto simp: claimedSubnets_def guard_simps ListConnections_def ListLocalSubnets_def query_def
        split: option.splits)
  show "set (row_pfx r) \<subseteq> cl_prefix ` set claims" if "r \<in> set (tconns st)" "r_id r \<noteq> except"
  proof -
    have "scanConnection r \<in> set ?conns" using that by auto
    then obtain x where "x \<in> set cs" "connection_claims (scanConnection r) = Inr x"
      using map_res_member [OF cs] by blast
    then have "row_pfx r = map cl_prefix x" "set x \<subseteq> set claims"
      using connection_claims_prefixes [of "scanConnection r"] claims by (auto simp: row_pfx_def)
    then show ?thesis by auto
  qed
  show "set (sn_pfx l) \<subseteq> cl_prefix ` set claims" if "l \<in> set (tlocals st)"
  proof -
    have "scanSubnet (tsubstat st) l \<in> set ?locals" using that by auto
    then obtain x where "x \<in> set ls" "subnet_claim (scanSubnet (tsubstat st) l) = Inr x"
      using map_res_member [OF ls] by blast
    then have "sn_pfx l = [cl_prefix x]" "x \<in> set claims"
      using subnet_claim_prefix [of "scanSubnet (tsubstat st) l"] claims by (auto simp: sn_pfx_def)
    then show ?thesis by auto
  qed
qed

lemma disjoint_list_insert:
  "disjoint_list (xs @ ps @ ys) \<longleftrightarrow>
     disjoint_list (xs @ ys) \<and> disjoint_list ps \<and> (\<forall>p \<in> set ps. \<forall>q \<in> set (xs @ ys). \<not> Overlaps q p)"
  unfolding disjoint_list_def sorted_wrt_append using Overlaps_sym by fastforce

lemma prefixesOf_stored:
  assumes "\<forall>p \<in> set ps. pfx_canonical p"
  shows "prefixesOf (map show_prefix ps) = ps"
  using assms by (induction ps) (auto simp: prefixesOf_def ParseSubnet_show)

section \<open>Preservation\<close>

text \<open>A validated connection as a stored row.\<close>

lemma connection_row_ok:
  assumes v: "validateConnection conn = Inr u"
  obtains ps where "list_all2 (\<lambda>s p. ParseSubnet s = Inr p) (c_subnets conn) ps" "disjoint_list ps"
    "ParseSubnets (c_subnets conn) = Inr ps" "ps \<noteq> []" "\<forall>p \<in> set ps. pfx_canonical p"
    "joinSubnets (c_subnets conn) = join '','' (map show_prefix ps)"
    "splitSubnets (joinSubnets (c_subnets conn)) = map show_prefix ps"
proof -
  from validateConnection_valid [OF v] obtain ps where
    ne: "c_subnets conn \<noteq> []" and ps: "list_all2 (\<lambda>s p. ParseSubnet s = Inr p) (c_subnets conn) ps"
    and d: "disjoint_list ps" by (auto simp: connection_valid_def)
  have "map canonicalSubnet (c_subnets conn) = map show_prefix ps"
    using ps by (induction rule: list_all2_induct) (auto simp: canonicalSubnet_parse)
  then have "joinSubnets (c_subnets conn) = join '','' (map show_prefix ps)" by (simp add: joinSubnets_def)
  moreover have "\<forall>p \<in> set ps. pfx_canonical p"
    using ps by (induction rule: list_all2_induct) (auto intro: ParseSubnet_canonical)
  moreover have "ps \<noteq> []" using ps ne by auto
  ultimately show ?thesis
    using that [OF ps d] ps d ne stored_subnets_parse(1) [OF ps] by (simp add: ParseSubnets_Inr)
qed

text \<open>Operations that succeed or leave the store as it was.\<close>

lemma exec_cases:
  assumes "exec s f st = (r, st')"
  obtains e where "r = Inl e" "st' = st" | "f st = (r, st')"
  using assms by (auto simp: exec_def split: option.splits)

lemma CreateConnection_cases:
  assumes "CreateConnection conn sec rnd1 rnd2 now st = (r, st')"
  obtains (fail) e where "r = Inl e" "st' = st"
  | (ok) i psk pw where "r = Inr i" "validateConnection conn = Inr ()"
      "s_psk sec \<noteq> []" "s_pass sec \<noteq> []" "ValidateSecrets sec = Inr ()"
      "checkRouteConflicts conn st = Inr ()" "encrypt_field rnd1 (s_psk sec) st = Inr psk"
      "encrypt_field rnd2 (s_pass sec) st = Inr pw" "insertConnection conn psk pw now st = (Inr i, st')"
proof (cases r)
  case (Inl e)
  have "st' = st"
    using assms unfolding CreateConnection_def Inl
    by (auto simp: guard_simps insertConnection_def Let_def elim!: exec_cases split: if_splits)
  with Inl show ?thesis by (rule fail)
next
  case (Inr i)
  with assms show ?thesis
    unfolding CreateConnection_def by (auto simp: guard_simps intro: ok)
qed

text \<open>The row an update writes: the secrets only where a new ciphertext was given.\<close>

definition updated_row :: "connection \<Rightarrow> int \<Rightarrow> string option \<Rightarrow> string option \<Rightarrow> conn_row \<Rightarrow> conn_row" where
  "updated_row conn now psk pw r = r\<lparr>r_name := c_name conn, r_gateway := c_gateway conn,
     r_psk := (case psk of None \<Rightarrow> r_psk r | Some ct \<Rightarrow> ct), r_user := c_user conn,
     r_pass := (case pw of None \<Rightarrow> r_pass r | Some ct \<Rightarrow> ct),
     r_subnets := joinSubnets (c_subnets conn), r_hcip := nullable (c_hcip conn),
     r_enabled := c_enabled conn, r_updated := now\<rparr>"

lemma updated_row_id [simp]: "r_id (updated_row conn now psk pw r) = r_id r"
  by (simp add: updated_row_def)

lemma row_upd_comp:
  "(\<And>r. key (f r) = key r) \<Longrightarrow> row_upd key k g (row_upd key k f t) = row_upd key k (g \<circ> f) t"
  by (simp add: row_upd_def)

lemma row_upd_cong: "(\<And>r. f r = g r) \<Longrightarrow> row_upd key k f t = row_upd key k g t"
  by (simp add: row_upd_def)

lemma in_tx_cases:
  assumes "in_tx body st = (r, st')"
  obtains e where "r = Inl e" "st' = st" | x where "r = Inr x" "body st = (Inr x, st')"
  using assms by (auto simp: in_tx_def split: option.splits prod.splits sum.splits)

lemma exec_Inr_iff [guard_simps]: "exec s f st = (Inr x, st') \<longleftrightarrow> fault st s = None \<and> f st = (Inr x, st')"
  by (auto simp: exec_def split: option.splits)

definition put_psk :: "string option \<Rightarrow> conn_row \<Rightarrow> conn_row" where
  "put_psk ct r = (case ct of None \<Rightarrow> r | Some c \<Rightarrow> r\<lparr>r_psk := c\<rparr>)"

definition put_pass :: "string option \<Rightarrow> conn_row \<Rightarrow> conn_row" where
  "put_pass ct r = (case ct of None \<Rightarrow> r | Some c \<Rightarrow> r\<lparr>r_pass := c\<rparr>)"

lemma row_upd_same [simp]: "(\<And>r. f r = r) \<Longrightarrow> row_upd key k f t = t"
  by (simp add: row_upd_def map_idI)

lemma put_None [simp]: "put_psk None r = r" "put_pass None r = r"
  by (simp_all add: put_psk_def put_pass_def)

lemma put_Some [simp]: "put_psk (Some c) = r_psk_update (\<lambda>_. c)" "put_pass (Some c) = r_pass_update (\<lambda>_. c)"
  by (simp_all add: put_psk_def put_pass_def fun_eq_iff)

lemma put_id [simp]: "r_id (put_psk ct r) = r_id r" "r_id (put_pass ct r) = r_id r"
  by (cases ct; simp add: put_psk_def put_pass_def)+

lemma set_psk_step:
  assumes a: "(if s \<noteq> [] then sbind (sread (encrypt_field rnd s)) (updatePsk i) else slift (Inr ())) st = (Inr (), st')"
  obtains ct where "s = [] \<longleftrightarrow> ct = None" "\<forall>c. ct = Some c \<longrightarrow> encrypt_field rnd s st = Inr c"
    "st' = st\<lparr>tconns := row_upd r_id i (put_psk ct) (tconns st)\<rparr>"
proof (cases "s = []")
  case True
  show ?thesis by (rule that [of None]) (use a True in simp_all)
next
  case False
  with a obtain c where c: "encrypt_field rnd s st = Inr c" "updatePsk i c st = (Inr (), st')"
    by (auto simp: sbind_Inr_iff)
  then have "st' = st\<lparr>tconns := row_upd r_id i (put_psk (Some c)) (tconns st)\<rparr>"
    by (simp add: updatePsk_def exec_Inr_iff)
  then show ?thesis by (rule that [of "Some c", rotated 2]) (use False c in simp_all)
qed

lemma set_pass_step:
  assumes a: "(if s \<noteq> [] then sbind (sread (encrypt_field rnd s)) (updatePass i) else slift (Inr ())) st = (Inr (), st')"
  obtains ct where "s = [] \<longleftrightarrow> ct = None" "\<forall>c. ct = Some c \<longrightarrow> encrypt_field rnd s st = Inr c"
    "st' = st\<lparr>tconns := row_upd r_id i (put_pass ct) (tconns st)\<rparr>"
proof (cases "s = []")
  case True
  show ?thesis by (rule that [of None]) (use a True in simp_all)
next
  case False
  with a obtain c where c: "encrypt_field rnd s st = Inr c" "updatePass i c st = (Inr (), st')"
    by (auto simp: sbind_Inr_iff)
  then have "st' = st\<lparr>tconns := row_upd r_id i (put_pass (Some c)) (tconns st)\<rparr>"
    by (simp add: updatePass_def exec_Inr_iff)
  then show ?thesis by (rule that [of "Some c", rotated 2]) (use False c in simp_all)
qed

lemma encrypt_field_tconns [simp]: "encrypt_field rnd x (st\<lparr>tconns := t\<rparr>) = encrypt_field rnd x st"
  by (simp add: encrypt_field_def)

lemma UpdateConnection_cases:
  assumes "UpdateConnection conn sec rnd1 rnd2 now st = (r, st')"
  obtains (fail) e where "r = Inl e" "st' = st"
  | (ok) psk pw row where "r = Inr ()" "validateConnection conn = Inr ()" "ValidateSecrets sec = Inr ()"
      "checkRouteConflicts conn st = Inr ()"
      "row_sel r_id (c_id conn) (tconns st) = Some row"
      "\<forall>x \<in> set (tconns st). r_id x \<noteq> c_id conn \<longrightarrow> r_name x \<noteq> c_name conn"
      "s_psk sec = [] \<longleftrightarrow> psk = None" "s_pass sec = [] \<longleftrightarrow> pw = None"
      "\<And>ct. psk = Some ct \<Longrightarrow> encrypt_field rnd1 (s_psk sec) st = Inr ct"
      "\<And>ct. pw = Some ct \<Longrightarrow> encrypt_field rnd2 (s_pass sec) st = Inr ct"
      "st' = st\<lparr>tconns := row_upd r_id (c_id conn) (updated_row conn now psk pw) (tconns st)\<rparr>"
proof (cases r)
  case (Inl e)
  have "st' = st"
    using assms unfolding UpdateConnection_def Inl by (auto simp: guard_simps elim!: in_tx_cases)
  with Inl show ?thesis by (rule fail)
next
  case (Inr u)
  let ?f = "\<lambda>r. r\<lparr>r_name := c_name conn, r_gateway := c_gateway conn, r_user := c_user conn,
            r_subnets := joinSubnets (c_subnets conn), r_hcip := nullable (c_hcip conn),
            r_enabled := c_enabled conn, r_updated := now\<rparr>"
  from assms Inr obtain old st1 st2 where v: "validateConnection conn = Inr ()" "ValidateSecrets sec = Inr ()"
      "checkRouteConflicts conn st = Inr ()" "Connection (c_id conn) st = Inr old"
    and s1: "updateRow conn now st = (Inr (), st1)"
    and s2: "(if s_psk sec \<noteq> [] then sbind (sread (encrypt_field rnd1 (s_psk sec))) (updatePsk (c_id conn))
              else slift (Inr ())) st1 = (Inr (), st2)"
    and s3: "(if s_pass sec \<noteq> [] then sbind (sread (encrypt_field rnd2 (s_pass sec))) (updatePass (c_id conn))
              else slift (Inr ())) st2 = (Inr (), st')"
    unfolding UpdateConnection_def by (auto simp: guard_simps elim!: in_tx_cases)
  from v(4) obtain row' where row: "row_sel r_id (c_id conn) (tconns st) = Some row'"
    by (auto simp: Connection_def query_def split: option.splits)
  from s1 have st1: "st1 = st\<lparr>tconns := row_upd r_id (c_id conn) ?f (tconns st)\<rparr>"
    and uniq: "\<forall>x \<in> set (tconns st). r_id x \<noteq> c_id conn \<longrightarrow> r_name x \<noteq> c_name conn"
    by (auto simp: updateRow_def elim!: exec_cases split: if_splits)
  obtain psk where psk: "s_psk sec = [] \<longleftrightarrow> psk = None"
      "\<forall>ct. psk = Some ct \<longrightarrow> encrypt_field rnd1 (s_psk sec) st1 = Inr ct"
    and st2: "st2 = st1\<lparr>tconns := row_upd r_id (c_id conn) (put_psk psk) (tconns st1)\<rparr>"
    by (rule set_psk_step [OF s2])
  obtain pw where pw: "s_pass sec = [] \<longleftrightarrow> pw = None"
      "\<forall>ct. pw = Some ct \<longrightarrow> encrypt_field rnd2 (s_pass sec) st2 = Inr ct"
    and st3: "st' = st2\<lparr>tconns := row_upd r_id (c_id conn) (put_pass pw) (tconns st2)\<rparr>"
    by (rule set_pass_step [OF s3])
  have u: "put_pass pw \<circ> (put_psk psk \<circ> ?f) = updated_row conn now psk pw"
    by (rule ext) (cases psk; cases pw; simp add: updated_row_def put_psk_def put_pass_def)
  have st': "st' = st\<lparr>tconns := row_upd r_id (c_id conn) (updated_row conn now psk pw) (tconns st)\<rparr>"
    unfolding st3 st2 st1 u [symmetric] by (simp add: row_upd_comp)
  show ?thesis
    by (rule ok [OF _ v(1-3) row uniq psk(1) pw(1) _ _ st']) (use Inr psk(2) pw(2) in \<open>simp_all add: st1 st2\<close>)
qed

end
