(* ===== verification/StoreRuns.thy ===== *)
theory StoreRuns
  imports StoreInv
begin

text \<open>
  Every operation of the store keeps \<open>store_wf\<close>, whichever statements fail and whatever the
  clock and the random source return; the machine of database calls lifts it to every run.
\<close>

section \<open>Tables split at a key\<close>

lemma row_split:
  assumes "row_wf key t" and "row_sel key k t = Some r"
  obtains as bs where "t = as @ r # bs" "key r = k" "\<And>f. row_upd key k f t = as @ f r # bs"
    "\<forall>x \<in> set as \<union> set bs. key x \<noteq> k"
proof -
  from assms(2) have "r \<in> set t" and k: "key r = k" by (auto dest: row_sel_Some)
  then obtain as bs where t: "t = as @ r # bs" by (meson split_list)
  then have o: "\<forall>x \<in> set as \<union> set bs. key x \<noteq> k" using assms(1) k by (auto simp: row_wf_def image_iff)
  then have "row_upd key k f t = as @ f r # bs" for f
    using t k by (auto simp: row_upd_def intro!: map_idI)
  with t k o show ?thesis using that by blast
qed

lemma disjoint_list_filter:
  "disjoint_list (xs @ concat (map f ts) @ ys) \<Longrightarrow> disjoint_list (xs @ concat (map f (filter P ts)) @ ys)"
proof (induction ts arbitrary: xs)
  case Nil
  then show ?case by simp
next
  case (Cons t ts)
  then show ?case
  proof (cases "P t")
    case True
    then show ?thesis using Cons.IH [of "xs @ f t"] Cons.prems by simp
  next
    case False
    have "disjoint_list (xs @ concat (map f ts) @ ys)"
      using Cons.prems disjoint_list_insert [of xs "f t" "concat (map f ts) @ ys"] by simp
    then show ?thesis using Cons.IH False by simp
  qed
qed

lemma row_wf_map: "(\<And>r. r \<in> set t \<Longrightarrow> key (f r) = key r) \<Longrightarrow> row_wf key (map f t) = row_wf key t"
  by (simp add: row_wf_def comp_def cong: map_cong)

lemma keys_map: "(\<And>r. r \<in> set t \<Longrightarrow> key (f r) = key r) \<Longrightarrow> key ` set (map f t) = key ` set t"
  by (simp add: image_image cong: image_cong)

section \<open>Updates that leave names, addresses and subnets alone\<close>

definition same_conn :: "(conn_row \<Rightarrow> conn_row) \<Rightarrow> bool" where
  "same_conn f \<longleftrightarrow> (\<forall>r. r_id (f r) = r_id r \<and> r_name (f r) = r_name r \<and> r_gateway (f r) = r_gateway r \<and>
     r_user (f r) = r_user r \<and> r_subnets (f r) = r_subnets r)"

lemma store_wf_same_conn:
  assumes "same_conn f" "store_wf st"
  shows "store_wf (st\<lparr>tconns := row_upd r_id i f (tconns st)\<rparr>)"
proof -
  let ?g = "\<lambda>r. if r_id r = i then f r else r"
  have g: "r_id (?g r) = r_id r" "r_name (?g r) = r_name r" "row_pfx (?g r) = row_pfx r" "row_ok (?g r) = row_ok r" for r
    using assms(1) by (auto simp: same_conn_def row_pfx_def row_ok_def)
  have "r_id ` set (map ?g (tconns st)) = r_id ` set (tconns st)" by (rule keys_map) (rule g(1))
  moreover have "routed (st\<lparr>tconns := map ?g (tconns st)\<rparr>) = routed st"
    using g by (simp add: routed_def comp_def)
  moreover have "\<forall>r \<in> set (map ?g (tconns st)). row_ok r" using store_wf_fields(3) [OF assms(2)] by (simp only: set_map ball_simps g(4))
  moreover have "row_wf r_id (map ?g (tconns st))" "row_wf r_name (map ?g (tconns st))"
    using store_wf_fields(1,2) [OF assms(2)] g by (simp_all add: row_wf_map)
  ultimately show ?thesis
    using store_wf_fields(4-12) [OF assms(2)] unfolding store_wf_def row_upd_def by simp
qed

definition same_local :: "(subnet_row \<Rightarrow> subnet_row) \<Rightarrow> bool" where
  "same_local f \<longleftrightarrow> (\<forall>r. sn_id (f r) = sn_id r \<and> sn_cidr (f r) = sn_cidr r)"

lemma store_wf_same_local:
  assumes "same_local f" "store_wf st"
  shows "store_wf (st\<lparr>tlocals := row_upd sn_id i f (tlocals st)\<rparr>)"
proof -
  let ?g = "\<lambda>r. if sn_id r = i then f r else r"
  have g: "sn_id (?g r) = sn_id r" "sn_cidr (?g r) = sn_cidr r" "sn_pfx (?g r) = sn_pfx r" "local_ok (?g r) = local_ok r" for r
    using assms(1) by (auto simp: same_local_def sn_pfx_def local_ok_def)
  have "sn_id ` set (map ?g (tlocals st)) = sn_id ` set (tlocals st)" by (rule keys_map) (rule g(1))
  moreover have "routed (st\<lparr>tlocals := map ?g (tlocals st)\<rparr>) = routed st"
    using g by (simp add: routed_def comp_def)
  moreover have "\<forall>r \<in> set (map ?g (tlocals st)). local_ok r" using store_wf_fields(6) [OF assms(2)] by (simp only: set_map ball_simps g(4))
  moreover have "row_wf sn_id (map ?g (tlocals st))" "row_wf sn_cidr (map ?g (tlocals st))"
    using store_wf_fields(4,5) [OF assms(2)] g by (simp_all add: row_wf_map)
  ultimately show ?thesis
    using store_wf_fields(1-3,7-12) [OF assms(2)] unfolding store_wf_def row_upd_def by simp
qed

section \<open>Creating and updating connections\<close>

lemma checkRouteConflicts_disjoint:
  assumes "checkRouteConflicts conn st = Inr u" and "ParseSubnets (c_subnets conn) = Inr ps"
  shows "r \<in> set (tconns st) \<Longrightarrow> r_id r \<noteq> c_id conn \<Longrightarrow> p \<in> set ps \<Longrightarrow> q \<in> set (row_pfx r) \<Longrightarrow> \<not> Overlaps q p"
    and "l \<in> set (tlocals st) \<Longrightarrow> p \<in> set ps \<Longrightarrow> q \<in> set (sn_pfx l) \<Longrightarrow> \<not> Overlaps q p"
proof -
  from assms obtain cls where c: "claimedSubnets (c_id conn) st = Inr cls" "CheckOverlap ps cls = Inr u"
    unfolding checkRouteConflicts_def by (auto simp: bindr_Inr_iff)
  show "\<not> Overlaps q p" if "r \<in> set (tconns st)" "r_id r \<noteq> c_id conn" "p \<in> set ps" "q \<in> set (row_pfx r)"
    using claimedSubnets_complete(1) [OF c(1) that(1,2)] c(2) that(3,4) by (fastforce simp: CheckOverlap_Inr)
  show "\<not> Overlaps q p" if "l \<in> set (tlocals st)" "p \<in> set ps" "q \<in> set (sn_pfx l)"
    using claimedSubnets_complete(2) [OF c(1) that(1)] c(2) that(2,3) by (fastforce simp: CheckOverlap_Inr)
qed

text \<open>A row written for a validated connection.\<close>

lemma stored_row:
  assumes "validateConnection conn = Inr u"
    and "r_name r = c_name conn" "r_gateway r = c_gateway conn" "r_user r = c_user conn"
    and "r_subnets r = joinSubnets (c_subnets conn)" and "1 \<le> r_id r"
  obtains ps where "ParseSubnets (c_subnets conn) = Inr ps" "disjoint_list ps" "row_pfx r = ps" "row_ok r"
proof -
  obtain ps where ps: "disjoint_list ps" "ParseSubnets (c_subnets conn) = Inr ps" "ps \<noteq> []"
    "\<forall>p \<in> set ps. pfx_canonical p" "joinSubnets (c_subnets conn) = join '','' (map show_prefix ps)"
    "splitSubnets (joinSubnets (c_subnets conn)) = map show_prefix ps"
    by (rule connection_row_ok [OF assms(1)])
  have "row_pfx r = ps" using ps assms(5) by (simp add: row_pfx_def prefixesOf_stored)
  moreover have "row_ok r"
    using validateConnection_valid [OF assms(1)] assms(2-6) ps(3-5)
    unfolding row_ok_def connection_valid_def by auto
  ultimately show ?thesis using that ps by blast
qed

lemma CreateConnection_wf:
  assumes wf: "store_wf st" and new: "c_id conn = 0"
    and "CreateConnection conn sec rnd1 rnd2 now st = (r, st')"
  shows "store_wf st'"
  using assms(3)
proof (cases rule: CreateConnection_cases)
  case (fail e)
  then show ?thesis using wf by simp
next
  case (ok i psk pw)
  define row where "row = \<lparr>r_id = i, r_name = c_name conn, r_gateway = c_gateway conn, r_psk = psk,
              r_user = c_user conn, r_pass = pw, r_subnets = joinSubnets (c_subnets conn),
              r_hcip = nullable (c_hcip conn), r_enabled = c_enabled conn,
              r_created = now, r_updated = now\<rparr>"
  have i: "i = next_id (map r_id (tconns st))" and st': "st' = st\<lparr>tconns := tconns st @ [row]\<rparr>"
    and nm: "row_sel r_name (c_name conn) (tconns st) = None"
    using ok(9) by (auto simp: insertConnection_def exec_Inr_iff row_def row_ins_def Let_def split: if_splits)
  have fresh: "i \<notin> r_id ` set (tconns st)" "1 \<le> i" using next_id_fresh [of "map r_id (tconns st)"] i by auto
  obtain ps where ps: "ParseSubnets (c_subnets conn) = Inr ps" "disjoint_list ps" "row_pfx row = ps" "row_ok row"
    by (rule stored_row [OF ok(2), of row]) (use fresh in \<open>auto simp: row_def\<close>)
  have old: "r_id x \<noteq> c_id conn" if "x \<in> set (tconns st)" for x
    using store_wf_fields(3) [OF wf] that new by (auto simp: row_ok_def)
  let ?A = "concat (map row_pfx (tconns st))" and ?B = "concat (map sn_pfx (tlocals st))"
  have "\<not> Overlaps q p" if "p \<in> set ps" "q \<in> set (?A @ ?B)" for p q
    using that checkRouteConflicts_disjoint [OF ok(6) ps(1)] old by auto
  then have "disjoint_list (?A @ ps @ ?B)"
    using store_wf_fields(12) [OF wf] ps(2) by (auto simp: disjoint_list_insert routed_def)
  then have "disjoint_list (routed st')" using ps(3) by (simp add: routed_def st')
  moreover have "row_wf r_id (tconns st')" "row_wf r_name (tconns st')"
    using store_wf_fields(1,2) [OF wf] fresh nm by (auto simp: st' row_wf_def row_def row_sel_None)
  moreover have "\<forall>x \<in> set (tconns st'). row_ok x" using store_wf_fields(3) [OF wf] ps(4) by (simp add: st')
  moreover have "st_conn ` set (tstatus st) \<subseteq> r_id ` set (tconns st')"
    using store_wf_fields(8) [OF wf] by (auto simp: st')
  ultimately show ?thesis
    using store_wf_fields(4-7,9-11) [OF wf] unfolding store_wf_def by (simp add: st')
qed

lemma UpdateConnection_wf:
  assumes wf: "store_wf st" and "UpdateConnection conn sec rnd1 rnd2 now st = (r, st')"
  shows "store_wf st'"
  using assms(2)
proof (cases rule: UpdateConnection_cases)
  case (fail e)
  then show ?thesis using wf by simp
next
  case (ok psk pw row)
  let ?f = "updated_row conn now psk pw"
  obtain as bs where t: "tconns st = as @ row # bs" and k: "r_id row = c_id conn"
    and u: "\<And>f. row_upd r_id (c_id conn) f (tconns st) = as @ f row # bs"
    and o: "\<forall>x \<in> set as \<union> set bs. r_id x \<noteq> c_id conn"
    using row_split [OF store_wf_fields(1) [OF wf] ok(5)] by metis
  have st': "st' = st\<lparr>tconns := as @ ?f row # bs\<rparr>" using ok(11) u by simp
  have "1 \<le> r_id row" using store_wf_fields(3) [OF wf] t by (auto simp: row_ok_def)
  then obtain ps where ps: "ParseSubnets (c_subnets conn) = Inr ps" "disjoint_list ps" "row_pfx (?f row) = ps" "row_ok (?f row)"
    using stored_row [OF ok(2), of "?f row"] by (auto simp: updated_row_def)
  let ?A = "concat (map row_pfx as)" and ?B = "concat (map row_pfx bs) @ concat (map sn_pfx (tlocals st))"
  have "disjoint_list (?A @ row_pfx row @ ?B)" using store_wf_fields(12) [OF wf] by (simp add: routed_def t)
  then have "disjoint_list (?A @ ?B)" by (blast dest: disjoint_list_insert [THEN iffD1])
  moreover have "\<not> Overlaps q p" if "p \<in> set ps" "q \<in> set (?A @ ?B)" for p q
    proof -
    from that(2) consider x where "x \<in> set as \<union> set bs" "q \<in> set (row_pfx x)"
      | l where "l \<in> set (tlocals st)" "q \<in> set (sn_pfx l)" by auto
    then show ?thesis
    proof cases
      case (1 x)
      then have "x \<in> set (tconns st)" "r_id x \<noteq> c_id conn" using o by (auto simp: t)
      then show ?thesis using checkRouteConflicts_disjoint(1) [OF ok(4) ps(1)] 1(2) that(1) by blast
    next
      case 2
      then show ?thesis using checkRouteConflicts_disjoint(2) [OF ok(4) ps(1)] that(1) by blast
    qed
  qed
  ultimately have "disjoint_list (?A @ ps @ ?B)" using ps(2) by (auto simp: disjoint_list_insert [of ?A ps ?B])
  then have "disjoint_list (routed st')" using ps(3) by (simp add: routed_def st')
  moreover have "row_wf r_id (tconns st')" "row_wf r_name (tconns st')"
    using store_wf_fields(1,2) [OF wf] ok(6) o by (auto simp: st' t row_wf_def updated_row_def)
  moreover have "\<forall>x \<in> set (tconns st'). row_ok x" using store_wf_fields(3) [OF wf] ps(4) by (simp add: st' t)
  moreover have "st_conn ` set (tstatus st) \<subseteq> r_id ` set (tconns st')"
    using store_wf_fields(8) [OF wf] by (simp add: st' t)
  ultimately show ?thesis
    using store_wf_fields(4-7,9-11) [OF wf] unfolding store_wf_def by (simp add: st')
qed

section \<open>The other operations\<close>

text \<open>An UPDATE whose WHERE clause hits no row changes nothing and fails.\<close>

lemma same_conn_updates:
  "same_conn (\<lambda>r. r\<lparr>r_enabled := b, r_updated := now\<rparr>)"
  "same_conn (\<lambda>r. r\<lparr>r_hcip := ip, r_updated := now\<rparr>)"
  by (simp_all add: same_conn_def)

lemma same_local_updates:
  "same_local (\<lambda>r. r\<lparr>sn_hcip := ip\<rparr>)" "same_local (\<lambda>r. r\<lparr>sn_enabled := b\<rparr>)"
  by (simp_all add: same_local_def)

lemma SetConnectionEnabled_wf: "store_wf st \<Longrightarrow> store_wf (snd (SetConnectionEnabled i b now st))"
  by (simp add: SetConnectionEnabled_def exec_def store_wf_same_conn same_conn_updates split: option.split)

lemma SetHealthCheckIP_wf: "store_wf st \<Longrightarrow> store_wf (snd (SetHealthCheckIP i ip now st))"
  by (simp add: SetHealthCheckIP_def sbind_def exec_def store_wf_same_conn same_conn_updates
      split: option.split sum.split)

lemma SetLocalSubnetHealthCheckIP_wf: "store_wf st \<Longrightarrow> store_wf (snd (SetLocalSubnetHealthCheckIP i ip st))"
  by (simp add: SetLocalSubnetHealthCheckIP_def sbind_def exec_def store_wf_same_local same_local_updates
      split: option.split sum.split)

lemma SetLocalSubnetEnabled_wf: "store_wf st \<Longrightarrow> store_wf (snd (SetLocalSubnetEnabled i b st))"
  by (simp add: SetLocalSubnetEnabled_def exec_def store_wf_same_local same_local_updates split: option.split)

lemma row_wf_del: "row_wf key' t \<Longrightarrow> row_wf key' (row_del key k t)"
  by (simp add: row_wf_def row_del_def distinct_map_filter)

lemma DeleteConnection_wf:
  assumes wf: "store_wf st" shows "store_wf (snd (DeleteConnection i st))"
proof -
  let ?t = "st\<lparr>tconns := row_del r_id i (tconns st), tstatus := row_del st_conn i (tstatus st)\<rparr>"
  have "disjoint_list (routed ?t)"
    using disjoint_list_filter [of "[]" row_pfx "tconns st"] store_wf_fields(12) [OF wf]
    by (simp add: routed_def row_del_def)
  moreover have "st_conn ` set (tstatus ?t) \<subseteq> r_id ` set (tconns ?t)"
    using store_wf_fields(8) [OF wf] by (fastforce simp: row_del_def)
  moreover have "\<forall>r \<in> set (tconns ?t). row_ok r"
    using store_wf_fields(3) [OF wf] by (simp add: row_del_def)
  ultimately have "store_wf ?t"
    using store_wf_fields(1,2,4-7,9-11) [OF wf] unfolding store_wf_def by (simp add: row_wf_del)
  with wf show ?thesis by (simp add: DeleteConnection_def exec_def split: option.split)
qed

lemma DeleteLocalSubnet_wf:
  assumes wf: "store_wf st" shows "store_wf (snd (DeleteLocalSubnet i st))"
proof -
  let ?t = "st\<lparr>tlocals := row_del sn_id i (tlocals st), tsubstat := row_del ss_id i (tsubstat st)\<rparr>"
  have "disjoint_list (routed ?t)"
    using disjoint_list_filter [of "concat (map row_pfx (tconns st))" sn_pfx "tlocals st" "[]"] store_wf_fields(12) [OF wf]
    by (simp add: routed_def row_del_def)
  moreover have "ss_id ` set (tsubstat ?t) \<subseteq> sn_id ` set (tlocals ?t)"
    using store_wf_fields(10) [OF wf] by (fastforce simp: row_del_def)
  moreover have "\<forall>r \<in> set (tlocals ?t). local_ok r"
    using store_wf_fields(6) [OF wf] by (simp add: row_del_def)
  ultimately have "store_wf ?t"
    using store_wf_fields(1-5,7-9,11) [OF wf] unfolding store_wf_def by (simp add: row_wf_del)
  with wf show ?thesis by (simp add: DeleteLocalSubnet_def exec_def split: option.split)
qed

lemma CreateLocalSubnet_wf:
  assumes wf: "store_wf st" and c: "CreateLocalSubnet subnet now st = (r, st')"
  shows "store_wf st'"
proof (cases r)
  case (Inl e)
  then have "st' = st"
    using c unfolding CreateLocalSubnet_def Inl
    by (auto simp: sbind_Inl_iff Let_def elim!: exec_cases split: if_splits)
  with wf show ?thesis by simp
next
  case (Inr i)
  from c obtain p cls where p: "ParseSubnet (l_cidr subnet) = Inr p" and cl: "claimedSubnets 0 st = Inr cls"
      "CheckOverlap (prefixesOf [show_prefix p]) cls = Inr ()"
    and e: "row_sel sn_cidr (show_prefix p) (tlocals st) = None" "i = next_id (map sn_id (tlocals st))"
      "st' = st\<lparr>tlocals := tlocals st @ [\<lparr>sn_id = i, sn_cidr = show_prefix p, sn_desc = nullable (l_desc subnet),
                sn_hcip = nullable (l_hcip subnet), sn_enabled = l_enabled subnet, sn_created = now\<rparr>]\<rparr>"
    unfolding CreateLocalSubnet_def Inr
    by (auto simp: sbind_Inr_iff exec_Inr_iff Let_def row_ins_def split: if_splits)
  have pc: "pfx_canonical p" using p by (rule ParseSubnet_canonical)
  define row where "row = \<lparr>sn_id = i, sn_cidr = show_prefix p, sn_desc = nullable (l_desc subnet),
                sn_hcip = nullable (l_hcip subnet), sn_enabled = l_enabled subnet, sn_created = now\<rparr>"
  have st': "st' = st\<lparr>tlocals := tlocals st @ [row]\<rparr>" using e(3) by (simp add: row_def)
  have fresh: "i \<notin> sn_id ` set (tlocals st)" "1 \<le> i" using next_id_fresh [of "map sn_id (tlocals st)"] e(2) by auto
  have pfx: "sn_pfx row = [p]" using pc by (simp add: sn_pfx_def row_def prefixesOf_show)
  have old: "r_id x \<noteq> 0" if "x \<in> set (tconns st)" for x
    using store_wf_fields(3) [OF wf] that by (auto simp: row_ok_def)
  have "\<not> Overlaps q p" if "q \<in> set (routed st)" for q
  proof -
    have "q \<in> cl_prefix ` set cls"
      using that claimedSubnets_complete [OF cl(1)] old by (fastforce simp: routed_def)
    moreover have "CheckOverlap [p] cls = Inr ()" using cl(2) pc by (simp only: prefixesOf_show)
    ultimately show ?thesis by (auto simp: CheckOverlap_Inr simp del: CheckOverlap.simps)
  qed
  then have "disjoint_list (routed st')"
    using store_wf_fields(12) [OF wf] Overlaps_sym
    by (auto simp: routed_def st' pfx disjoint_list_def sorted_wrt_append)
  moreover have "row_wf sn_id (tlocals st')" "row_wf sn_cidr (tlocals st')"
    using store_wf_fields(4,5) [OF wf] fresh e(1) by (auto simp: st' row_wf_def row_def row_sel_None)
  moreover have "\<forall>x \<in> set (tlocals st'). local_ok x"
    using store_wf_fields(6) [OF wf] pc fresh by (auto simp: st' local_ok_def row_def)
  moreover have "ss_id ` set (tsubstat st) \<subseteq> sn_id ` set (tlocals st')"
    using store_wf_fields(10) [OF wf] by (auto simp: st')
  ultimately show ?thesis
    using store_wf_fields(1-3,7-9,11) [OF wf] unfolding store_wf_def by (simp add: st')
qed

lemma row_upsert_keys: "key ` set (row_upsert key r t) = insert (key r) (key ` set t)"
  by (auto simp: row_upsert_def row_upd_def row_ins_def image_iff)

lemma row_sel_key_mem: "row_sel key k t = Some r \<Longrightarrow> k \<in> key ` set t"
  by (auto dest: row_sel_Some)

lemma SetStatus_wf: "store_wf st \<Longrightarrow> store_wf (snd (SetStatus s st))"
  by (auto simp: SetStatus_def exec_def store_wf_def routed_def row_upsert_keys row_upsert_sel(2)
      status_to_row_def intro: row_sel_key_mem split: option.split)

lemma RecordSubnetCheck_wf: "store_wf st \<Longrightarrow> store_wf (snd (RecordSubnetCheck i at rtt failure st))"
  by (auto simp: RecordSubnetCheck_def exec_def store_wf_def routed_def row_upsert_keys row_upsert_sel(2)
      dest!: row_sel_Some split: option.split)

lemma RecordCheck_wf: "store_wf st \<Longrightarrow> store_wf (snd (RecordCheck i at rtt failure st))"
proof -
  have k: "map st_conn (row_upd st_conn i (\<lambda>r. r\<lparr>st_check := c, st_rtt := d, st_err := e\<rparr>) t) = map st_conn t" for c d e and t :: "status_row list"
    by (rule row_upd_keys) simp
  have "row_wf st_conn (row_upd st_conn i (\<lambda>r. r\<lparr>st_check := c, st_rtt := d, st_err := e\<rparr>) t) = row_wf st_conn t" for c d e and t :: "status_row list"
    by (simp add: row_wf_def k)
  moreover have "st_conn ` set (row_upd st_conn i (\<lambda>r. r\<lparr>st_check := c, st_rtt := d, st_err := e\<rparr>) t) = st_conn ` set t" for c d e and t :: "status_row list"
    using arg_cong [OF k, of set] by simp
  ultimately show "store_wf st \<Longrightarrow> ?thesis"
    unfolding RecordCheck_def exec_def store_wf_def routed_def by (simp split: option.split)
qed

lemma Setting_ops_wf:
  "store_wf st \<Longrightarrow> store_wf (snd (SetSetting name v now st))"
  "store_wf st \<Longrightarrow> store_wf (snd (DeleteSetting name st))"
  by (auto simp: SetSetting_def DeleteSetting_def exec_def store_wf_def routed_def row_upsert_sel(2)
      row_wf_del split: option.split)

end
