(* ===== verification/StoreProps.thy ===== *)
theory StoreProps
  imports StoreRuns
begin

text \<open>
  The store as a machine of calls, and what its clients rely on: disjoint routes after every run,
  secrets that come back, updates that keep what they are not given, and failures that leave no
  trace.  \<open>demo_store\<close> is the store of the examples.
\<close>

section \<open>Runs of calls\<close>

text \<open>One call of the package, or a change of which statements fail.\<close>

datatype db_cmd =
    CmdCreate connection secrets "string option" "string option" int
  | CmdUpdate connection secrets "string option" "string option" int
  | CmdEnable int bool int
  | CmdHealth int string int
  | CmdDelete int
  | CmdCreateSubnet local_subnet int
  | CmdSubnetHealth int string
  | CmdSubnetCheck int time duration string
  | CmdSubnetEnable int bool
  | CmdSubnetDelete int
  | CmdStatus status
  | CmdCheck int time duration string
  | CmdSet string string int
  | CmdUnset string
  | CmdExitNode bool int
  | CmdFault "stmt \<Rightarrow> string option"

fun db_step :: "db_cmd \<Rightarrow> store \<Rightarrow> store" where
  "db_step (CmdCreate conn sec r1 r2 now) st = snd (CreateConnection conn sec r1 r2 now st)"
| "db_step (CmdUpdate conn sec r1 r2 now) st = snd (UpdateConnection conn sec r1 r2 now st)"
| "db_step (CmdEnable i b now) st = snd (SetConnectionEnabled i b now st)"
| "db_step (CmdHealth i ip now) st = snd (SetHealthCheckIP i ip now st)"
| "db_step (CmdDelete i) st = snd (DeleteConnection i st)"
| "db_step (CmdCreateSubnet l now) st = snd (CreateLocalSubnet l now st)"
| "db_step (CmdSubnetHealth i ip) st = snd (SetLocalSubnetHealthCheckIP i ip st)"
| "db_step (CmdSubnetCheck i at rtt e) st = snd (RecordSubnetCheck i at rtt e st)"
| "db_step (CmdSubnetEnable i b) st = snd (SetLocalSubnetEnabled i b st)"
| "db_step (CmdSubnetDelete i) st = snd (DeleteLocalSubnet i st)"
| "db_step (CmdStatus s) st = snd (SetStatus s st)"
| "db_step (CmdCheck i at rtt e) st = snd (RecordCheck i at rtt e st)"
| "db_step (CmdSet k v now) st = snd (SetSetting k v now st)"
| "db_step (CmdUnset k) st = snd (DeleteSetting k st)"
| "db_step (CmdExitNode b now) st = snd (SetExitNode b now st)"
| "db_step (CmdFault f) st = st\<lparr>fault := f\<rparr>"

text \<open>A new connection carries no key yet: the web form leaves \<open>ID\<close> at zero.\<close>

fun db_allowed :: "db_cmd \<Rightarrow> bool" where
  "db_allowed (CmdCreate conn sec r1 r2 now) = (c_id conn = 0)"
| "db_allowed _ = True"

lemma db_step_wf: "store_wf st \<Longrightarrow> db_allowed c \<Longrightarrow> store_wf (db_step c st)"
proof (induction c)
  case (CmdCreate conn sec r1 r2 now)
  then show ?case
    by (cases "CreateConnection conn sec r1 r2 now st") (auto dest: CreateConnection_wf)
next
  case (CmdUpdate conn sec r1 r2 now)
  then show ?case
    by (cases "UpdateConnection conn sec r1 r2 now st") (auto dest: UpdateConnection_wf)
next
  case (CmdCreateSubnet l now)
  then show ?case by (cases "CreateLocalSubnet l now st") (auto dest: CreateLocalSubnet_wf)
next
  case (CmdExitNode b now)
  then show ?case by (auto simp: SetExitNode_def Setting_ops_wf)
next
  case (CmdFault f)
  then show ?case by (simp add: store_wf_def routed_def)
qed (simp_all add: SetConnectionEnabled_wf SetHealthCheckIP_wf DeleteConnection_wf
      SetLocalSubnetHealthCheckIP_wf RecordSubnetCheck_wf SetLocalSubnetEnabled_wf
      DeleteLocalSubnet_wf SetStatus_wf RecordCheck_wf Setting_ops_wf)

interpretation db: machine db_step db_allowed store_wf
  by unfold_locales (rule db_step_wf)

text \<open>The store after the migrations.\<close>

definition new_store :: "aead \<Rightarrow> store" where
  "new_store c = \<lparr>tconns = [], tstatus = [], tlocals = [], tsubstat = [], tsettings = [],
     cipher = c, fault = \<lambda>_. None\<rparr>"

lemma new_store_wf: "store_wf (new_store c)"
  by (simp add: store_wf_def new_store_def routed_def disjoint_list_def row_wf_def)

lemma disjoint_list_nth:
  assumes "disjoint_list ps" "i < j" "j < length ps" "\<forall>p \<in> set ps. pfx_canonical p"
    and "pfx_contains (ps ! i) a"
  shows "\<not> pfx_contains (ps ! j) a"
proof -
  have "\<not> Overlaps (ps ! i) (ps ! j)" using assms(1-3) by (simp add: disjoint_list_def sorted_wrt_iff_nth_less)
  moreover have "pfx_wf (ps ! i)" "pfx_wf (ps ! j)"
    using assms(2-4) by (auto simp: pfx_canonical_def)
  ultimately show ?thesis using assms(5) by (auto simp: Overlaps_iff_meet)
qed

lemma routed_canonical: "store_wf st \<Longrightarrow> \<forall>p \<in> set (routed st). pfx_canonical p"
  by (auto simp: routed_def row_pfx_def sn_pfx_def prefixesOf_def intro: ParseSubnet_canonical [OF sym] split: sum.splits)

text \<open>What the two readers depend on.\<close>

lemma reader_cong:
  assumes "row_sel r_id i (tconns st') = row_sel r_id i (tconns st)" "cipher st' = cipher st" "fault st' = fault st"
  shows "ConnectionSecrets i st' = ConnectionSecrets i st" "Connection i st' = Connection i st"
  by (simp_all only: ConnectionSecrets_def Connection_def query_def assms)

lemma ConnectionSecrets_Inr:
  "ConnectionSecrets i st = Inr s \<longleftrightarrow> fault st SelSecrets = None \<and> (\<exists>r. row_sel r_id i (tconns st) = Some r \<and>
     Decrypt (cipher st) (r_psk r) = Inr (s_psk s) \<and> Decrypt (cipher st) (r_pass r) = Inr (s_pass s))"
  by (auto simp: ConnectionSecrets_def query_def bindr_Inr_iff decrypt_field_def split: option.splits sum.splits)

text \<open>Statements that hit no row.\<close>

lemma checkAffected_Inl: "checkAffected n subject i = Inl e \<longleftrightarrow> n = 0 \<and> e = NotFoundErr subject i"
  by (auto simp: checkAffected_def guardr_def)

lemma row_upd_none: "row_hits key k t = 0 \<Longrightarrow> row_upd key k f t = t"
  by (auto simp: row_hits_def row_upd_def filter_empty_conv intro!: map_idI)

lemma row_del_none: "row_hits key k t = 0 \<Longrightarrow> row_del key k t = t"
  by (auto simp: row_hits_def row_del_def filter_empty_conv intro!: filter_True)

lemma row_del_dependent:
  "row_hits key k t = 0 \<Longrightarrow> key' ` set t' \<subseteq> key ` set t \<Longrightarrow> row_del key' k t' = t'"
  by (fastforce simp: row_hits_def row_del_def filter_empty_conv intro!: filter_True)

section \<open>An example store\<close>

definition demo_aead :: aead where
  "demo_aead = \<lparr>NonceSize = 1, Seal = (\<lambda>n p. n @ p), Open = (\<lambda>n c. if take 1 c = n then Some (drop 1 c) else None)\<rparr>"

definition demo_conn :: "string \<Rightarrow> string list \<Rightarrow> connection" where
  "demo_conn name subnets = \<lparr>c_id = 0, c_name = name, c_gateway = ''vpn.example.com'', c_user = ''bob'',
     c_subnets = subnets, c_hcip = [], c_enabled = True, c_created = 0, c_updated = 0\<rparr>"

definition demo_secrets :: secrets where
  "demo_secrets = \<lparr>s_psk = ''k3y'', s_pass = ''p4ss''\<rparr>"

definition demo_create :: "string \<Rightarrow> string list \<Rightarrow> db_cmd" where
  "demo_create name subnets = CmdCreate (demo_conn name subnets) demo_secrets (Some ''n'') (Some ''m'') 7"

definition demo_store :: store where
  "demo_store = run_cmds db_step [demo_create ''alpha'' [''10.1.0.0/16'']] (new_store demo_aead)"

lemma run_result: "fst p = r \<Longrightarrow> p = (r, snd p)"
  by (auto simp: prod_eq_iff)

lemma create_cipher: "cipher (snd (CreateConnection conn sec rnd1 rnd2 now st)) = cipher st"
proof (cases "CreateConnection conn sec rnd1 rnd2 now st")
  case (Pair r st')
  then show ?thesis
    by (cases rule: CreateConnection_cases)
      (auto simp: Pair insertConnection_def exec_Inr_iff Let_def split: if_splits)
qed

lemma demo_aead_correct: "aead_correct demo_aead"
  by (auto simp: aead_correct_def demo_aead_def)

lemma demo_store_wf: "store_wf demo_store"
  unfolding demo_store_def by (rule db.run_inv [OF new_store_wf]) (simp add: demo_create_def demo_conn_def)

section \<open>Properties\<close>

text \<open>C1: However the package's operations are called, and whichever statements fail on the way,
  no address belongs to two stored subnets, of the same connection, of different
  connections or of a connection and a local subnet; and names, keys and ciphertext rows stay
  well formed.\<close>

theorem no_address_routed_twice:
  assumes "\<forall>c \<in> set cmds. db_allowed c"
  shows "store_wf (run_cmds db_step cmds (new_store ciph)) \<and>
    (\<forall>i j a. i < j \<and> j < length (routed (run_cmds db_step cmds (new_store ciph))) \<and>
       pfx_contains (routed (run_cmds db_step cmds (new_store ciph)) ! i) a \<longrightarrow>
       \<not> pfx_contains (routed (run_cmds db_step cmds (new_store ciph)) ! j) a)"
proof -
  have wf: "store_wf (run_cmds db_step cmds (new_store ciph))"
    by (rule db.run_inv [OF new_store_wf assms])
  then show ?thesis
    using disjoint_list_nth [OF store_wf_fields(12) [OF wf]] routed_canonical [OF wf] by blast
qed

theorem no_address_routed_twice_witness:
  "store_wf (run_cmds db_step [demo_create ''alpha'' [''10.1.0.0/16''], demo_create ''beta'' [''10.1.2.0/24'']]
     (new_store demo_aead))"
  using no_address_routed_twice [of "[demo_create ''alpha'' [''10.1.0.0/16''], demo_create ''beta'' [''10.1.2.0/24'']]"
    demo_aead]
  by (simp add: demo_create_def demo_conn_def)

text \<open>C5: A created connection reads back as it was given, with its subnets in canonical form, its
  secrets decrypt to what was given, and no other connection's row changes.\<close>

theorem create_then_read:
  assumes c: "CreateConnection conn sec rnd1 rnd2 now st = (Inr i, st')"
    and a: "aead_correct (cipher st)" "nonce_for (cipher st) rnd1" "nonce_for (cipher st) rnd2"
    and f: "fault st SelSecrets = None" "fault st SelConnection = None"
  shows "ConnectionSecrets i st' = Inr sec \<and>
    Connection i st' = Inr \<lparr>c_id = i, c_name = c_name conn, c_gateway = c_gateway conn, c_user = c_user conn,
      c_subnets = map canonicalSubnet (c_subnets conn), c_hcip = c_hcip conn, c_enabled = c_enabled conn,
      c_created = now * Second, c_updated = now * Second\<rparr> \<and>
    (\<forall>j. j \<noteq> i \<longrightarrow> ConnectionSecrets j st' = ConnectionSecrets j st \<and> Connection j st' = Connection j st)"
  using c
proof (cases rule: CreateConnection_cases)
  case (ok i' psk pw)
  define row where "row = \<lparr>r_id = i, r_name = c_name conn, r_gateway = c_gateway conn, r_psk = psk,
              r_user = c_user conn, r_pass = pw, r_subnets = joinSubnets (c_subnets conn),
              r_hcip = nullable (c_hcip conn), r_enabled = c_enabled conn,
              r_created = now, r_updated = now\<rparr>"
  have st': "st' = st\<lparr>tconns := row_ins row (tconns st)\<rparr>" and i: "i = next_id (map r_id (tconns st))"
    using ok(1,9) by (auto simp: insertConnection_def exec_Inr_iff Let_def row_def split: if_splits)
  have "row_sel r_id i (tconns st) = None"
    using next_id_fresh(1) [of "map r_id (tconns st)"] i by (force simp: row_sel_None image_iff)
  then have sel: "row_sel r_id j (tconns st') = (if j = i then Some row else row_sel r_id j (tconns st))" for j
    using conn_tab.sel_ins [of row "tconns st" j] by (simp add: st' row_def)
  have box: "Decrypt (cipher st) psk = Inr (s_psk sec)" "Decrypt (cipher st) pw = Inr (s_pass sec)"
    using a ok(7,8) box.unseal_seal by (auto simp: encrypt_field_def split: sum.splits)
  obtain ps where ps: "list_all2 (\<lambda>s p. ParseSubnet s = Inr p) (c_subnets conn) ps"
    "splitSubnets (joinSubnets (c_subnets conn)) = map show_prefix ps"
    by (rule connection_row_ok [OF ok(2)])
  have "map canonicalSubnet (c_subnets conn) = map show_prefix ps"
    using ps(1) by (induction rule: list_all2_induct) (auto simp: canonicalSubnet_parse)
  then have subs: "splitSubnets (joinSubnets (c_subnets conn)) = map canonicalSubnet (c_subnets conn)"
    using ps(2) by simp
  have n: "coalesce (nullable h) = h" for h by (simp add: coalesce_def nullable_def)
  have c': "cipher st' = cipher st" "fault st' = fault st" by (simp_all add: st')
  have "ConnectionSecrets i st' = Inr sec" using f box sel by (simp add: ConnectionSecrets_Inr c' row_def)
  moreover have "Connection i st' = Inr (scanConnection row)" using f sel by (simp add: Connection_def query_def c')
  moreover have "scanConnection row = \<lparr>c_id = i, c_name = c_name conn, c_gateway = c_gateway conn, c_user = c_user conn,
      c_subnets = map canonicalSubnet (c_subnets conn), c_hcip = c_hcip conn, c_enabled = c_enabled conn,
      c_created = now * Second, c_updated = now * Second\<rparr>"
    using subs n by (simp add: scanConnection_def row_def parseTime_def)
  ultimately show ?thesis using reader_cong [of _ st' st] sel c' by simp
qed simp

theorem create_then_read_witness:
  "ConnectionSecrets 1 (snd (CreateConnection (demo_conn ''alpha'' [''10.1.0.0/16'']) demo_secrets (Some ''n'') (Some ''m'') 7
     (new_store demo_aead))) = Inr demo_secrets"
proof -
  have "fst (CreateConnection (demo_conn ''alpha'' [''10.1.0.0/16'']) demo_secrets (Some ''n'') (Some ''m'') 7
     (new_store demo_aead)) = Inr 1" by code_simp
  from create_then_read [OF run_result [OF this]] show ?thesis
    using demo_aead_correct by (simp add: new_store_def nonce_for_def demo_aead_def)
qed

text \<open>C28: An update stores what it is given; a blank secret keeps the stored one, and the other
  connections keep their rows.\<close>

theorem update_keeps_blank_secrets:
  assumes u: "UpdateConnection conn sec rnd1 rnd2 now st = (Inr (), st')"
    and wf: "store_wf st"
    and a: "aead_correct (cipher st)" "nonce_for (cipher st) rnd1" "nonce_for (cipher st) rnd2"
    and old: "ConnectionSecrets (c_id conn) st = Inr old"
  shows "ConnectionSecrets (c_id conn) st' = Inr \<lparr>s_psk = (if s_psk sec = [] then s_psk old else s_psk sec),
       s_pass = (if s_pass sec = [] then s_pass old else s_pass sec)\<rparr> \<and>
     (\<forall>j. j \<noteq> c_id conn \<longrightarrow> ConnectionSecrets j st' = ConnectionSecrets j st \<and> Connection j st' = Connection j st)"
  using u
proof (cases rule: UpdateConnection_cases)
  case (ok psk pw row)
  have sel: "row_sel r_id j (tconns st') =
      (if j = c_id conn then Some (updated_row conn now psk pw row) else row_sel r_id j (tconns st))" for j
    using conn_tab.sel_upd [OF store_wf_fields(1) [OF wf], of "updated_row conn now psk pw" j "c_id conn"] ok(5)
    by (simp add: ok(11))
  have c': "cipher st' = cipher st" "fault st' = fault st" by (simp_all add: ok(11))
  have f: "fault st SelSecrets = None" "Decrypt (cipher st) (r_psk row) = Inr (s_psk old)"
    "Decrypt (cipher st) (r_pass row) = Inr (s_pass old)"
    using old ok(5) by (auto simp: ConnectionSecrets_Inr)
  have "psk = Some ct \<Longrightarrow> Decrypt (cipher st) ct = Inr (s_psk sec)"
    "pw = Some ct \<Longrightarrow> Decrypt (cipher st) ct = Inr (s_pass sec)" for ct
    using a ok(9,10) [of ct] box.unseal_seal by (auto simp: encrypt_field_def split: sum.splits)
  then have "Decrypt (cipher st) (r_psk (updated_row conn now psk pw row)) = Inr (if s_psk sec = [] then s_psk old else s_psk sec)"
    "Decrypt (cipher st) (r_pass (updated_row conn now psk pw row)) = Inr (if s_pass sec = [] then s_pass old else s_pass sec)"
    using f(2,3) ok(7,8) by (cases psk; cases pw; simp add: updated_row_def)+
  then have "ConnectionSecrets (c_id conn) st' = Inr \<lparr>s_psk = (if s_psk sec = [] then s_psk old else s_psk sec),
       s_pass = (if s_pass sec = [] then s_pass old else s_pass sec)\<rparr>"
    using f(1) sel by (simp add: ConnectionSecrets_Inr c')
  then show ?thesis using reader_cong [of _ st' st] sel c' by simp
qed simp

theorem update_keeps_blank_secrets_witness:
  "ConnectionSecrets 1 (snd (UpdateConnection ((demo_conn ''alpha'' [''10.1.0.0/16''])\<lparr>c_id := 1\<rparr>)
     \<lparr>s_psk = [], s_pass = ''new''\<rparr> (Some ''x'') (Some ''y'') 9 demo_store)) = Inr \<lparr>s_psk = ''k3y'', s_pass = ''new''\<rparr>"
proof -
  have "fst (UpdateConnection ((demo_conn ''alpha'' [''10.1.0.0/16''])\<lparr>c_id := 1\<rparr>)
     \<lparr>s_psk = [], s_pass = ''new''\<rparr> (Some ''x'') (Some ''y'') 9 demo_store) = Inr ()" by code_simp
  note u = run_result [OF this]
  have old: "ConnectionSecrets (c_id ((demo_conn ''alpha'' [''10.1.0.0/16''])\<lparr>c_id := 1\<rparr>)) demo_store = Inr demo_secrets"
    by code_simp
  have c: "cipher demo_store = demo_aead"
    by (simp add: demo_store_def demo_create_def create_cipher) (simp add: new_store_def)
  show ?thesis
    using update_keeps_blank_secrets [OF u demo_store_wf _ _ _ old] demo_aead_correct
    by (simp add: c nonce_for_def demo_aead_def demo_secrets_def demo_conn_def)
qed

text \<open>An operation that returns an error leaves the store exactly as it was: an update that fails
  half way through its transaction too.\<close>

theorem failed_write_leaves_store:
  assumes "store_wf st"
  shows "(\<forall>e. fst (CreateConnection conn sec rnd1 rnd2 now st) = Inl e \<longrightarrow> snd (CreateConnection conn sec rnd1 rnd2 now st) = st) \<and>
    (\<forall>e. fst (UpdateConnection conn sec rnd1 rnd2 now st) = Inl e \<longrightarrow> snd (UpdateConnection conn sec rnd1 rnd2 now st) = st) \<and>
    (\<forall>e. fst (CreateLocalSubnet l now st) = Inl e \<longrightarrow> snd (CreateLocalSubnet l now st) = st) \<and>
    (\<forall>e. fst (SetConnectionEnabled i b now st) = Inl e \<longrightarrow> snd (SetConnectionEnabled i b now st) = st) \<and>
    (\<forall>e. fst (SetHealthCheckIP i ip now st) = Inl e \<longrightarrow> snd (SetHealthCheckIP i ip now st) = st) \<and>
    (\<forall>e. fst (DeleteConnection i st) = Inl e \<longrightarrow> snd (DeleteConnection i st) = st) \<and>
    (\<forall>e. fst (SetLocalSubnetEnabled i b st) = Inl e \<longrightarrow> snd (SetLocalSubnetEnabled i b st) = st) \<and>
    (\<forall>e. fst (SetLocalSubnetHealthCheckIP i ip st) = Inl e \<longrightarrow> snd (SetLocalSubnetHealthCheckIP i ip st) = st) \<and>
    (\<forall>e. fst (DeleteLocalSubnet i st) = Inl e \<longrightarrow> snd (DeleteLocalSubnet i st) = st)"
proof (intro conjI allI impI)
  fix e
  show "fst (CreateConnection conn sec rnd1 rnd2 now st) = Inl e \<Longrightarrow> snd (CreateConnection conn sec rnd1 rnd2 now st) = st"
    using CreateConnection_cases [OF run_result] by (metis sum.distinct(1))
  show "fst (UpdateConnection conn sec rnd1 rnd2 now st) = Inl e \<Longrightarrow> snd (UpdateConnection conn sec rnd1 rnd2 now st) = st"
    using UpdateConnection_cases [OF run_result] by (metis sum.distinct(1))
  show "fst (CreateLocalSubnet l now st) = Inl e \<Longrightarrow> snd (CreateLocalSubnet l now st) = st"
    by (drule run_result) (auto simp: CreateLocalSubnet_def sbind_Inl_iff Let_def elim!: exec_cases split: if_splits)
  show "fst (SetConnectionEnabled i b now st) = Inl e \<Longrightarrow> snd (SetConnectionEnabled i b now st) = st"
    by (simp add: SetConnectionEnabled_def exec_def checkAffected_Inl row_upd_none split: option.splits)
  show "fst (SetHealthCheckIP i ip now st) = Inl e \<Longrightarrow> snd (SetHealthCheckIP i ip now st) = st"
    by (auto simp: SetHealthCheckIP_def sbind_def exec_def checkAffected_Inl row_upd_none split: option.splits sum.splits)
  show "fst (DeleteConnection i st) = Inl e \<Longrightarrow> snd (DeleteConnection i st) = st"
    using row_del_dependent [OF _ store_wf_fields(8) [OF assms]]
    by (auto simp: DeleteConnection_def exec_def checkAffected_Inl row_del_none split: option.splits)
  show "fst (SetLocalSubnetEnabled i b st) = Inl e \<Longrightarrow> snd (SetLocalSubnetEnabled i b st) = st"
    by (simp add: SetLocalSubnetEnabled_def exec_def checkAffected_Inl row_upd_none split: option.splits)
  show "fst (SetLocalSubnetHealthCheckIP i ip st) = Inl e \<Longrightarrow> snd (SetLocalSubnetHealthCheckIP i ip st) = st"
    by (auto simp: SetLocalSubnetHealthCheckIP_def sbind_def exec_def checkAffected_Inl row_upd_none split: option.splits sum.splits)
  show "fst (DeleteLocalSubnet i st) = Inl e \<Longrightarrow> snd (DeleteLocalSubnet i st) = st"
    using row_del_dependent [OF _ store_wf_fields(10) [OF assms]]
    by (auto simp: DeleteLocalSubnet_def exec_def checkAffected_Inl row_del_none split: option.splits)
qed

theorem failed_write_leaves_store_witness:
  "store_wf (new_store demo_aead) \<and> snd (DeleteConnection 3 (new_store demo_aead)) = new_store demo_aead"
proof -
  have "fst (DeleteConnection 3 (new_store demo_aead)) = Inl (NotFoundErr ''connection'' 3)" by code_simp
  then show ?thesis using failed_write_leaves_store [OF new_store_wf [of demo_aead]] new_store_wf by blast
qed

section \<open>Acceptance\<close>

text \<open>The claims a store without faults reports are exactly the stored subnets of the other owners.\<close>

lemma connection_claims_ok:
  assumes "row_ok r"
  shows "\<exists>cs. connection_claims (scanConnection r) = Inr cs \<and> map cl_prefix cs = row_pfx r"
proof -
  from assms obtain ps where ps: "ps \<noteq> []" "\<forall>p \<in> set ps. pfx_canonical p" "r_subnets r = join '','' (map show_prefix ps)"
    by (auto simp: row_ok_def)
  have l: "list_all2 (\<lambda>s p. ParseSubnet s = Inr p) (map show_prefix ps) ps"
    using ps(2) by (induction ps) (auto simp: ParseSubnet_show)
  have c: "map canonicalSubnet (map show_prefix ps) = map show_prefix ps"
    using ps(2) by (auto simp: canonicalSubnet_parse ParseSubnet_show)
  have sp: "splitSubnets (r_subnets r) = map show_prefix ps"
    using stored_subnets_parse(1) [OF l] unfolding joinSubnets_def c ps(3) .
  have "map_res (\<lambda>s. bindr (ParseSubnet s) (\<lambda>p. Inr \<lparr>cl_owner = w, cl_prefix = p\<rparr>)) (map show_prefix ps)
      = Inr (map (\<lambda>p. \<lparr>cl_owner = w, cl_prefix = p\<rparr>) ps)" for w
    using ps(2) by (simp add: map_res_map map_res_all_Inr ParseSubnet_show)
  then show ?thesis
    using ps(2) sp by (auto simp: connection_claims_def row_pfx_def prefixesOf_stored comp_def)
qed

lemma subnet_claim_ok:
  assumes "local_ok r"
  shows "\<exists>c. subnet_claim (scanSubnet t r) = Inr c \<and> [cl_prefix c] = sn_pfx r"
  using assms by (auto simp: local_ok_def subnet_claim_def sn_pfx_def ParseSubnet_show prefixesOf_show)

lemma map_res_total: "\<forall>x \<in> set xs. \<exists>y. f x = Inr y \<Longrightarrow> \<exists>ys. map_res f xs = Inr ys"
  by (induction xs) auto

lemma map_res_Inl: "map_res f xs = Inl e \<Longrightarrow> \<exists>x \<in> set xs. f x = Inl e"
  by (induction xs) (auto simp: guard_simps)

lemma map_res_image: "map_res f xs = Inr ys \<Longrightarrow> y \<in> set ys \<Longrightarrow> \<exists>x \<in> set xs. f x = Inr y"
  by (induction xs arbitrary: ys) (auto simp: guard_simps)

lemma claimedSubnets_total:
  assumes "store_wf st" "\<forall>s. fault st s = None"
  shows "\<exists>cls. claimedSubnets except st = Inr cls"
proof -
  have "\<exists>cs. map_res connection_claims (filter (\<lambda>c. c_id c \<noteq> except) (map scanConnection (sort_key r_name (tconns st)))) = Inr cs"
    using store_wf_fields(3) [OF assms(1)] connection_claims_ok by (intro map_res_total) fastforce
  moreover have "\<exists>ls. map_res subnet_claim (map (scanSubnet (tsubstat st)) (sort_key sn_cidr (tlocals st))) = Inr ls"
    using store_wf_fields(6) [OF assms(1)] subnet_claim_ok by (intro map_res_total) fastforce
  ultimately show ?thesis
    using assms(2) by (auto simp: claimedSubnets_def ListConnections_def ListLocalSubnets_def query_def)
qed

lemma claimedSubnets_sound:
  assumes "claimedSubnets except st = Inr cls"
  shows "cl_prefix ` set cls \<subseteq> set (routed st)"
proof
  fix q assume q: "q \<in> cl_prefix ` set cls"
  from assms obtain cs ls where
    cs: "map_res connection_claims (filter (\<lambda>c. c_id c \<noteq> except) (map scanConnection (sort_key r_name (tconns st)))) = Inr cs"
    and ls: "map_res subnet_claim (map (scanSubnet (tsubstat st)) (sort_key sn_cidr (tlocals st))) = Inr ls"
    and cls: "cls = concat cs @ ls"
    by (auto simp: claimedSubnets_def guard_simps ListConnections_def ListLocalSubnets_def query_def split: option.splits)
  from q cls consider c where "c \<in> set cs" "q \<in> cl_prefix ` set c" | l where "l \<in> set ls" "q = cl_prefix l" by auto
  then show "q \<in> set (routed st)"
  proof cases
    case (1 c)
    with map_res_image [OF cs 1(1)] obtain r where r: "r \<in> set (tconns st)" "connection_claims (scanConnection r) = Inr c" by auto
    then have "q \<in> set (row_pfx r)" using connection_claims_prefixes [of "scanConnection r" c] 1(2) by (simp add: row_pfx_def)
    with r(1) show ?thesis by (auto simp: routed_def)
  next
    case (2 l)
    with map_res_image [OF ls 2(1)] obtain r where r: "r \<in> set (tlocals st)" "subnet_claim (scanSubnet (tsubstat st) r) = Inr l" by auto
    then have "q \<in> set (sn_pfx r)" using subnet_claim_prefix [of "scanSubnet (tsubstat st) r" l] 2(2) by (simp add: sn_pfx_def)
    with r(1) show ?thesis by (auto simp: routed_def)
  qed
qed

lemma claimedSubnets_new:
  assumes "store_wf st" "claimedSubnets 0 st = Inr cls"
  shows "cl_prefix ` set cls = set (routed st)"
proof
  have "r \<in> set (tconns st) \<Longrightarrow> r_id r \<noteq> 0" for r using store_wf_fields(3) [OF assms(1)] by (auto simp: row_ok_def)
  then show "set (routed st) \<subseteq> cl_prefix ` set cls"
    using claimedSubnets_complete [OF assms(2)] by (simp add: routed_def UN_subset_iff)
qed (rule claimedSubnets_sound [OF assms(2)])

lemma encrypt_ok: "nonce_for (cipher st) rnd \<Longrightarrow> \<exists>ct. encrypt_field rnd s st = Inr ct"
  by (auto simp: encrypt_field_def nonce_for_def Encrypt_def)

text \<open>C29: When the database and the random source work, a connection is created exactly when it is
  valid, both secrets are given and safe, its subnets overlap none that is stored, and its name
  is not taken.\<close>

theorem create_accepts_iff:
  assumes wf: "store_wf st" and f: "\<forall>s. fault st s = None" and new: "c_id conn = 0"
    and n: "nonce_for (cipher st) rnd1" "nonce_for (cipher st) rnd2"
  shows "(\<exists>i. fst (CreateConnection conn sec rnd1 rnd2 now st) = Inr i) \<longleftrightarrow>
    validateConnection conn = Inr () \<and> s_psk sec \<noteq> [] \<and> s_pass sec \<noteq> [] \<and> ValidateSecrets sec = Inr () \<and>
    (\<forall>p \<in> set (prefixesOf (c_subnets conn)). \<forall>q \<in> set (routed st). \<not> Overlaps q p) \<and>
    (\<forall>r \<in> set (tconns st). r_name r \<noteq> c_name conn)"
    (is "?created \<longleftrightarrow> ?valid \<and> ?psk \<and> ?pass \<and> ?safe \<and> ?apart \<and> ?name")
proof -
  obtain cls where cls: "claimedSubnets 0 st = Inr cls" using claimedSubnets_total [OF wf f] by blast
  obtain c1 c2 where enc: "encrypt_field rnd1 (s_psk sec) st = Inr c1" "encrypt_field rnd2 (s_pass sec) st = Inr c2"
    using encrypt_ok n by blast
  have apart: "checkRouteConflicts conn st = Inr () \<longleftrightarrow> ?apart" if v: ?valid
  proof -
    obtain ps where ps: "list_all2 (\<lambda>s p. ParseSubnet s = Inr p) (c_subnets conn) ps"
      "ParseSubnets (c_subnets conn) = Inr ps" by (rule connection_row_ok [OF v])
    have "prefixesOf (c_subnets conn) = ps"
      using ps(1) by (induction rule: list_all2_induct) (auto simp: prefixesOf_def)
    then show ?thesis
      using claimedSubnets_new [OF wf cls, symmetric] ps(2) cls
      by (simp add: checkRouteConflicts_def new CheckOverlap_Inr)
  qed
  have "?name \<longleftrightarrow> row_sel r_name (c_name conn) (tconns st) = None" by (simp add: row_sel_None)
  then have ins: "(\<exists>i. fst (insertConnection conn c1 c2 now st) = Inr i) \<longleftrightarrow> ?name"
    using f by (simp add: insertConnection_def exec_def Let_def)
  show ?thesis
    using apart ins enc
    by (auto simp: CreateConnection_def sbind_def guardr_def split: sum.splits prod.splits)
qed

theorem create_accepts_iff_witness:
  "\<exists>i. fst (CreateConnection (demo_conn ''alpha'' [''10.1.0.0/16'']) demo_secrets (Some ''n'') (Some ''m'') 7
     (new_store demo_aead)) = Inr i"
proof -
  have v: "validateConnection (demo_conn ''alpha'' [''10.1.0.0/16'']) = Inr ()" "ValidateSecrets demo_secrets = Inr ()" by code_simp+
  show ?thesis
    using create_accepts_iff [OF new_store_wf, of demo_aead "demo_conn ''alpha'' [''10.1.0.0/16'']" "Some ''n''" "Some ''m''" demo_secrets 7] v
    by (simp add: new_store_def nonce_for_def demo_aead_def demo_conn_def demo_secrets_def routed_def)
qed

text \<open>An overlap is reported only for a stored subnet that shares an address with one of the
  subnets asked for.\<close>

theorem overlap_rejection_is_real:
  assumes wf: "store_wf st" and e: "fst (CreateConnection conn sec rnd1 rnd2 now st) = Inl (OverlapClaim p q owner)"
  shows "q \<in> set (routed st) \<and> p \<in> set (prefixesOf (c_subnets conn)) \<and> (\<exists>a. pfx_contains p a \<and> pfx_contains q a)"
proof -
  have enc: "encrypt_field r s st \<noteq> Inl (OverlapClaim p q owner)" for r s
    by (simp add: encrypt_field_def split: sum.splits)
  have field: "validateConfigField f v \<noteq> Inl (OverlapClaim p q owner)" "validateHostField f v \<noteq> Inl (OverlapClaim p q owner)" for f v
    by (auto simp: validateConfigField_def validateHostField_def guardr_def bindr_def split: if_splits sum.splits)
  have ps: "ParseSubnet s \<noteq> Inl (OverlapClaim p q owner)" for s
    by (auto simp: ParseSubnet_def guardr_def split: option.splits if_splits)
  have pl: "parse_subnets_loop ss acc \<noteq> Inl (OverlapClaim p q owner)" for ss acc
    using ps by (induction ss acc rule: parse_subnets_loop.induct) (auto simp: guard_simps split: option.splits)
  then have pss: "ParseSubnets ss \<noteq> Inl (OverlapClaim p q owner)" for ss
    by (simp add: ParseSubnets_def guardr_def)
  have v: "validateConnection conn \<noteq> Inl (OverlapClaim p q owner)"
    using field pss
    by (auto simp: validateConnection_def ValidateName_def guardr_def bindr_Inl_iff ParseIP_def split: if_splits option.splits)
  have s: "ValidateSecrets sec \<noteq> Inl (OverlapClaim p q owner)"
    using field by (auto simp: ValidateSecrets_def bindr_Inl_iff)
  have i: "fst (insertConnection conn a b now st) \<noteq> Inl (OverlapClaim p q owner)" for a b
    by (simp add: insertConnection_def exec_def Let_def split: option.splits)
  have "validateConnection conn = Inr ()" and c: "checkRouteConflicts conn st = Inl (OverlapClaim p q owner)"
    using e v s enc i by (auto simp: CreateConnection_def sbind_def guardr_def split: sum.splits prod.splits if_splits)
  have "claimedSubnets x st \<noteq> Inl (OverlapClaim p q owner)" for x
    using ps by (auto simp: claimedSubnets_def bindr_Inl_iff connection_claims_def subnet_claim_def ListConnections_def
        ListLocalSubnets_def query_def dest!: map_res_Inl split: option.splits)
  with c pss obtain ps cls where cls: "ParseSubnets (c_subnets conn) = Inr ps" "claimedSubnets (c_id conn) st = Inr cls"
    "CheckOverlap ps cls = Inl (OverlapClaim p q owner)"
    by (auto simp: checkRouteConflicts_def bindr_Inl_iff)
  from cls(3) have in_sets: "p \<in> set ps" "q \<in> cl_prefix ` set cls" "Overlaps q p"
    by (auto elim!: CheckOverlap_Inl)
  from cls(1) have l: "list_all2 (\<lambda>s p. ParseSubnet s = Inr p) (c_subnets conn) ps" by (simp add: ParseSubnets_Inr)
  then have "prefixesOf (c_subnets conn) = ps" and can: "\<forall>p \<in> set ps. pfx_canonical p"
    by (induction rule: list_all2_induct) (auto simp: prefixesOf_def intro: ParseSubnet_canonical)
  moreover have "q \<in> set (routed st)" using claimedSubnets_sound [OF cls(2)] in_sets(2) by blast
  moreover have "pfx_wf p" "pfx_wf q"
    using can in_sets(1) routed_canonical [OF wf] \<open>q \<in> set (routed st)\<close> by (auto simp: pfx_canonical_def)
  ultimately show ?thesis using in_sets Overlaps_iff_meet Overlaps_sym by metis
qed

theorem overlap_rejection_is_real_witness:
  "fst (CreateConnection (demo_conn ''beta'' [''10.1.2.0/24'']) demo_secrets (Some ''n'') (Some ''m'') 8 demo_store) =
     Inl (OverlapClaim (Prefix (Addr4 0x0A010200) 24) (Prefix (Addr4 0x0A010000) 16) ''connection alpha'') \<and>
   Prefix (Addr4 0x0A010000) 16 \<in> set (routed demo_store)"
proof -
  have e: "fst (CreateConnection (demo_conn ''beta'' [''10.1.2.0/24'']) demo_secrets (Some ''n'') (Some ''m'') 8 demo_store) =
     Inl (OverlapClaim (Prefix (Addr4 0x0A010200) 24) (Prefix (Addr4 0x0A010000) 16) ''connection alpha'')"
    by code_simp
  then show ?thesis using overlap_rejection_is_real [OF demo_store_wf e] by simp
qed

section \<open>Advertised routes and status\<close>

lemma add_routes_set: "set (foldl add_route acc xs) = set acc \<union> set xs"
  by (induction xs arbitrary: acc) (auto simp: add_route_def)

lemma add_routes_distinct: "distinct acc \<Longrightarrow> distinct (foldl add_route acc xs)"
  by (induction xs arbitrary: acc) (auto simp: add_route_def)

text \<open>C30: The advertised routes are the subnets of the enabled connections and enabled local
  subnets, each once and in sorted order.\<close>

theorem advertised_routes_exact:
  assumes "AdvertisedRoutes st = Inr rs"
  shows "sorted rs \<and> distinct rs \<and>
    (\<forall>r. r \<in> set rs \<longleftrightarrow> (\<exists>c \<in> set (tconns st). r_enabled c \<and> r \<in> set (splitSubnets (r_subnets c))) \<or>
      (\<exists>l \<in> set (tlocals st). sn_enabled l \<and> sn_cidr l = r))"
proof -
  from assms have rs: "rs = sort (foldl add_route []
       (concat (map c_subnets (filter c_enabled (map scanConnection (sort_key r_name (tconns st))))) @
        map l_cidr (filter l_enabled (map (scanSubnet (tsubstat st)) (sort_key sn_cidr (tlocals st))))))"
    by (auto simp: AdvertisedRoutes_def bindr_Inr_iff ListConnections_def ListLocalSubnets_def query_def split: option.splits)
  show ?thesis unfolding rs by (auto simp: add_routes_set add_routes_distinct image_iff)
qed

theorem advertised_routes_exact_witness: "AdvertisedRoutes demo_store = Inr [''10.1.0.0/16''] \<and> sorted [''10.1.0.0/16'']"
proof -
  have "AdvertisedRoutes demo_store = Inr [''10.1.0.0/16'']" by code_simp
  then show ?thesis using advertised_routes_exact by blast
qed

text \<open>A status that is set reads back, to the second and to the microsecond, and a health check
  recorded on it changes only the health fields; a status of a connection that is gone is dropped.\<close>

theorem status_reads_back:
  assumes wf: "store_wf st" and f: "fault st UpsStatus = None" "fault st SelStatus = None" "fault st UpdCheck = None"
    and c: "row_sel r_id (t_conn s) (tconns st) \<noteq> None"
  shows "Status (t_conn s) (snd (SetStatus s st)) =
      Inr (s\<lparr>t_connected := t_connected s - t_connected s mod Second, t_checked := t_checked s - t_checked s mod Second\<rparr>) \<and>
    Status (t_conn s) (snd (RecordCheck (t_conn s) at rtt failure (snd (SetStatus s st)))) =
      Inr (s\<lparr>t_connected := t_connected s - t_connected s mod Second, t_checked := at - at mod Second,
        t_rtt := Microseconds rtt, t_err := failure\<rparr>)"
proof -
  let ?s1 = "snd (SetStatus s st)" and ?s2 = "snd (RecordCheck (t_conn s) at rtt failure (snd (SetStatus s st)))"
  have sw: "row_wf st_conn (tstatus ?s1)" using store_wf_fields(7) [OF SetStatus_wf [OF wf, of s]] .
  have s1: "?s1 = st\<lparr>tstatus := row_upsert st_conn (status_to_row s) (tstatus st)\<rparr>"
    using f c by (auto simp: SetStatus_def exec_def)
  have r1: "row_sel st_conn (t_conn s) (tstatus ?s1) = Some (status_to_row s)"
    using row_upsert_sel(1) [OF store_wf_fields(7) [OF wf], of "t_conn s" "status_to_row s"]
    by (simp add: s1) (simp add: status_to_row_def)
  let ?u = "\<lambda>r. r\<lparr>st_check := formatTime at, st_rtt := nullableFloat (Microseconds rtt), st_err := nullable failure\<rparr>"
  have s2: "?s2 = ?s1\<lparr>tstatus := row_upd st_conn (t_conn s) ?u (tstatus ?s1)\<rparr>"
    using f by (simp add: RecordCheck_def exec_def s1)
  have r2: "row_sel st_conn (t_conn s) (tstatus ?s2) = Some (?u (status_to_row s))"
    using status_tab.sel_upd [OF sw, of ?u "t_conn s" "t_conn s"] r1 by (simp add: s2)
  have n: "coalesce (nullable h) = h" "(case nullableFloat v of None \<Rightarrow> 0 | Some w \<Rightarrow> w) = v" for h v
    by (simp_all add: coalesce_def nullable_def nullableFloat_def)
  have ft: "fault ?s1 = fault st" "fault ?s2 = fault st" by (simp_all add: s2) (simp_all add: s1)
  show ?thesis
    using f by (simp add: Status_def query_def r1 r2 ft) (simp add: status_to_row_def n parse_format_time)
qed

theorem status_reads_back_witness:
  "Status 1 (snd (SetStatus (empty_status 1 StateUp) demo_store)) = Inr (empty_status 1 StateUp)"
proof -
  have f: "fault demo_store UpsStatus = None" "fault demo_store SelStatus = None" "fault demo_store UpdCheck = None"
    and c: "row_sel r_id (t_conn (empty_status 1 StateUp)) (tconns demo_store) \<noteq> None" by code_simp+
  show ?thesis using status_reads_back [OF demo_store_wf f c] by (simp add: empty_status_def)
qed

end
