(* ===== verification/ManagerInv.thy ===== *)
theory ManagerInv
  imports Manager StoreProps
begin

text \<open>
  The life cycle of a tunnel as a step relation, and the manager as a machine of events: every
  event moves every tunnel along the life cycle, so the invariant of the life cycle is an invariant
  of the manager.
\<close>

section \<open>Frames\<close>

text \<open>What the effects leave alone.\<close>

lemma frame_tunnels [simp]:
  "y_tunnels (snd (sh e c s)) = y_tunnels s"
  "y_tunnels (snd (in_world f s)) = y_tunnels s"
  "y_tunnels (logf m s) = y_tunnels s"
  "y_tunnels (snd (put_status e st s)) = y_tunnels s"
  "y_tunnels (Nudge s) = y_tunnels s"
  "y_tunnels (snd (write_files e ts s)) = y_tunnels s"
  by (simp_all add: sh_def in_world_def logf_def put_status_def Nudge_def write_files_def case_prod_beta)

lemma frame_store [simp]:
  "y_store (snd (sh e c s)) = y_store s"
  "y_store (snd (in_world f s)) = y_store s"
  "y_store (logf m s) = y_store s"
  "y_store (snd (put_status e st s)) = snd (SetStatus st (y_store s))"
  "y_store (Nudge s) = y_store s"
  "y_store (snd (write_files e ts s)) = y_store s"
  "y_store (upd_tunnel name g s) = y_store s"
  by (simp_all add: sh_def in_world_def logf_def put_status_def Nudge_def write_files_def upd_tunnel_def case_prod_beta)

lemma upd_tunnel_tunnels [simp]: "y_tunnels (upd_tunnel name f s) = row_upd k_name name f (y_tunnels s)"
  by (simp add: upd_tunnel_def)

lemma setStatus_tunnels [simp]: "y_tunnels (setStatus e i p r s) = y_tunnels s"
  by (simp add: setStatus_def case_prod_beta split: sum.split)

lemma setStatus_store [simp]: "y_store (setStatus e i p r s) = snd (SetStatus ((empty_status i p)\<lparr>t_err := r\<rparr>) (y_store s))"
  by (simp add: setStatus_def case_prod_beta split: sum.split)

lemma tearDown_frames [simp]:
  "y_tunnels (tearDown e name iface ss s) = y_tunnels s" "y_store (tearDown e name iface ss s) = y_store s"
  by (simp_all add: tearDown_def tearDownInterface_def case_prod_beta Let_def split: sum.split)

lemma terminate_frames [simp]:
  "y_tunnels (terminate e name s) = y_tunnels s" "y_store (terminate e name s) = y_store s"
  by (simp_all add: terminate_def case_prod_beta split: sum.split)

lemma dial_attempt_frames [simp]:
  "y_tunnels (snd (dial_attempt e name s)) = y_tunnels s" "y_store (snd (dial_attempt e name s)) = y_store s"
  by (simp_all add: dial_attempt_def Let_def case_prod_beta split: sum.split)

lemma desiredTunnels_frames [simp]:
  "y_tunnels (snd (desiredTunnels e conns s)) = y_tunnels s \<and> y_store (snd (desiredTunnels e conns s)) = y_store s"
proof (induction conns arbitrary: s)
  case Nil
  then show ?case by simp
next
  case (Cons conn conns)
  then show ?case by (simp add: Let_def case_prod_beta split: sum.split)
qed

lemma writeConfigs_frames [simp]:
  "y_tunnels (snd (writeConfigs e conns s)) = y_tunnels s" "y_store (snd (writeConfigs e conns s)) = y_store s"
  by (simp_all add: writeConfigs_def Let_def case_prod_beta split: sum.split)

lemma advertise_frames [simp]:
  "y_tunnels (snd (advertise e s)) = y_tunnels s" "y_store (snd (advertise e s)) = y_store s"
  by (simp_all add: advertise_def Let_def case_prod_beta split: sum.split option.split)

lemma row_upd_absent: "row_sel key k t = None \<Longrightarrow> row_upd key k f t = t"
  by (auto simp: row_upd_def row_sel_None intro!: map_idI)

text \<open>What each operation does to the tunnels.\<close>

definition reset_t :: "tstate \<Rightarrow> tstate" where
  "reset_t t = t\<lparr>k_phase := StateDisconnected, k_iface := [], k_failures := 0, k_retry := 0\<rparr>"

definition failed_t :: "time \<Rightarrow> tstate \<Rightarrow> tstate" where
  "failed_t now t = t\<lparr>k_phase := StateFailed, k_iface := [], k_failures := k_failures t + 1,
     k_retry := retry_from now (k_failures t + 1)\<rparr>"

definition refused_t :: "time \<Rightarrow> tstate \<Rightarrow> tstate" where
  "refused_t now t = t\<lparr>k_phase := StateFailed, k_failures := k_failures t + 1,
     k_retry := retry_from now (k_failures t + 1)\<rparr>"

definition dialled_t :: "time \<Rightarrow> tstate \<Rightarrow> tstate" where
  "dialled_t now t = t\<lparr>k_phase := StateConnecting, k_dialed := now\<rparr>"

definition up_t :: "string \<Rightarrow> tstate \<Rightarrow> tstate" where
  "up_t iface t = t\<lparr>k_iface := iface, k_phase := StateUp, k_failures := 0, k_retry := 0\<rparr>"

definition down_t :: "time \<Rightarrow> tstate \<Rightarrow> tstate" where
  "down_t now t = t\<lparr>k_iface := [], k_phase := StateDisconnected, k_retry := now + minRedialDelay\<rparr>"

definition refresh_t :: "connection \<Rightarrow> tstate \<Rightarrow> tstate" where
  "refresh_t conn t = t\<lparr>k_id := c_id conn, k_subnets := c_subnets conn\<rparr>"

lemmas moved_defs = reset_t_def failed_t_def refused_t_def dialled_t_def up_t_def down_t_def refresh_t_def

lemma drop_tunnel_tunnels: "y_tunnels (drop_tunnel e name s) = row_upd k_name name reset_t (y_tunnels s)"
  by (simp add: drop_tunnel_def the_tunnel_def Let_def row_upd_absent reset_t_def [abs_def] split: option.split)

lemma fail_tunnels: "\<exists>now. y_tunnels (fail e name iface reason s) = row_upd k_name name (failed_t now) (y_tunnels s)"
  by (auto simp: fail_def the_tunnel_def Let_def case_prod_beta row_upd_absent failed_t_def [abs_def] split: option.split)

lemma disconnect_tunnels [simp]: "y_tunnels (disconnect e t s) = y_tunnels s"
  by (simp add: disconnect_def Let_def)

lemma dial_record_tunnels:
  "\<exists>now. y_tunnels (dial_record e t r s) =
     row_upd k_name (k_name t) (case r of Inl _ \<Rightarrow> refused_t now | Inr _ \<Rightarrow> dialled_t now) (y_tunnels s)"
  by (auto simp: dial_record_def dialFailed_def Let_def case_prod_beta refused_t_def [abs_def] dialled_t_def [abs_def]
      split: sum.split)

lemma dial_tunnels:
  "\<exists>now f. f \<in> {refused_t now, dialled_t now} \<and> y_tunnels (dial e name s) = row_upd k_name name f (y_tunnels s)"
proof (cases "the_tunnel name s")
  case None
  then show ?thesis by (auto simp: dial_def the_tunnel_def row_upd_absent)
next
  case (Some t)
  then have "k_name t = name" by (auto simp: the_tunnel_def dest: row_sel_Some)
  then show ?thesis
    using dial_record_tunnels [of e t "fst (dial_attempt e name s)" "snd (dial_attempt e name s)"] Some
    by (cases "fst (dial_attempt e name s)") (auto simp: dial_def case_prod_beta)
qed

lemma PPPDown_tunnels: "\<exists>now. y_tunnels (snd (PPPDown e name iface s)) = row_upd k_name name (down_t now) (y_tunnels s)"
  by (auto simp: PPPDown_def the_tunnel_def Let_def case_prod_beta row_upd_absent down_t_def [abs_def] split: option.split)

lemma PPPUp_tunnels:
  "y_tunnels (snd (PPPUp e name iface l p s)) = row_upd k_name name (up_t iface) (y_tunnels s) \<or>
   (\<exists>now. y_tunnels (snd (PPPUp e name iface l p s)) = row_upd k_name name (failed_t now) (y_tunnels s))"
proof (cases "the_tunnel name s")
  case None
  then show ?thesis by (auto simp: PPPUp_def the_tunnel_def row_upd_absent)
next
  case (Some t)
  let ?r = "in_world (addRoutes (e_run e) iface (k_subnets t)) s"
  let ?n = "in_world (enableNAT (e_run e) iface) (snd ?r)"
  show ?thesis
    using Some fail_tunnels [of e name iface _ "snd ?r"] fail_tunnels [of e name iface _ "snd ?n"]
    by (auto simp: PPPUp_def Let_def case_prod_beta up_t_def [abs_def] split: sum.split)
qed

lemma Unhealthy_tunnels: "\<exists>now. y_tunnels (Unhealthy e name reason s) = row_upd k_name name (failed_t now) (y_tunnels s)"
proof (cases "the_tunnel name s")
  case None
  then show ?thesis by (auto simp: Unhealthy_def the_tunnel_def row_upd_absent)
next
  case (Some t)
  then show ?thesis using fail_tunnels [of e name "k_iface t" reason "logf (name @ '': '' @ reason) s"]
    by (simp add: Unhealthy_def)
qed

lemma redefine_tunnels [simp]: "y_tunnels (redefine e t s) = row_upd k_name (t_name t) reset_t (y_tunnels s)"
  by (simp add: redefine_def Let_def case_prod_beta drop_tunnel_tunnels split: sum.split)

section \<open>The life cycle of a tunnel\<close>

text \<open>
  The abstract state machine: what may happen to one tunnel.  A dial starts only from a tunnel
  that is down, and only a report of pppd on an interface makes it up.
\<close>

inductive moves :: "tstate \<Rightarrow> tstate \<Rightarrow> bool" where
  refresh: "moves t (refresh_t conn t)"
| reset: "moves t (reset_t t)"
| failed: "moves t (failed_t now t)"
| refused: "k_phase t \<noteq> StateUp \<and> k_phase t \<noteq> StateConnecting \<Longrightarrow> moves t (refused_t now t)"
| dialled: "k_phase t \<noteq> StateUp \<and> k_phase t \<noteq> StateConnecting \<Longrightarrow> moves t (dialled_t now t)"
| up: "iface \<noteq> [] \<Longrightarrow> moves t (up_t iface t)"
| down: "moves t (down_t now t)"

inductive_cases moves_elim: "moves t t'"

lemma moves_name: "moves t t' \<Longrightarrow> k_name t' = k_name t"
  by (induction rule: moves.induct) (simp_all add: moved_defs)

lemma moves_star_name: "moves\<^sup>*\<^sup>* t t' \<Longrightarrow> k_name t' = k_name t"
  by (induction rule: rtranclp_induct) (auto dest: moves_name)

text \<open>The invariant of the life cycle.\<close>

definition tun_ok :: "tstate \<Rightarrow> bool" where
  "tun_ok t \<longleftrightarrow> k_phase t \<in> {StateDisconnected, StateConnecting, StateUp, StateFailed} \<and> 0 \<le> k_failures t \<and>
     (k_iface t \<noteq> [] \<longleftrightarrow> k_phase t = StateUp) \<and>
     (k_phase t = StateUp \<longrightarrow> k_failures t = 0 \<and> k_retry t = 0) \<and>
     (k_phase t = StateFailed \<longrightarrow> 1 \<le> k_failures t)"

lemma moves_ok: "moves t t' \<Longrightarrow> tun_ok t \<Longrightarrow> tun_ok t'"
  by (induction rule: moves.induct) (auto simp: tun_ok_def moved_defs)

lemma moves_star_ok: "moves\<^sup>*\<^sup>* t t' \<Longrightarrow> tun_ok t \<Longrightarrow> tun_ok t'"
  by (induction rule: rtranclp_induct) (auto intro: moves_ok)

lemma new_tunnel_ok: "tun_ok (new_tunnel conn)"
  by (simp add: tun_ok_def new_tunnel_def)

section \<open>The manager refines it\<close>

text \<open>
  \<open>grows D ts ts'\<close>: every tunnel of \<open>ts'\<close> comes from one of \<open>ts\<close>, or from a new tunnel of a connection
  named in \<open>D\<close>, by moves; none of \<open>ts\<close> is lost and names stay unique.
\<close>

definition origin :: "string set \<Rightarrow> tstate list \<Rightarrow> tstate \<Rightarrow> bool" where
  "origin D ts t' \<longleftrightarrow> (\<exists>t \<in> set ts. moves\<^sup>*\<^sup>* t t') \<or>
     (k_name t' \<notin> k_name ` set ts \<and> k_name t' \<in> D \<and> (\<exists>conn. moves\<^sup>*\<^sup>* (new_tunnel conn) t'))"

definition grows :: "string set \<Rightarrow> tstate list \<Rightarrow> tstate list \<Rightarrow> bool" where
  "grows D ts ts' \<longleftrightarrow> (row_wf k_name ts \<longrightarrow> row_wf k_name ts') \<and> k_name ` set ts \<subseteq> k_name ` set ts' \<and>
     (\<forall>t' \<in> set ts'. origin D ts t')"

lemma grows_refl [simp]: "grows D ts ts"
  by (auto simp: grows_def origin_def)

lemma grows_trans:
  assumes a: "grows D ts us" and b: "grows D us vs" shows "grows D ts vs"
proof -
  have "origin D ts v" if v: "v \<in> set vs" for v
  proof -
    from b v have "origin D us v" by (auto simp: grows_def)
    then show ?thesis unfolding origin_def [of D us]
    proof (elim disjE bexE conjE)
      fix u assume u: "u \<in> set us" "moves\<^sup>*\<^sup>* u v"
      then have "k_name v = k_name u" by (auto dest: moves_star_name)
      moreover from a u(1) have "origin D ts u" by (auto simp: grows_def)
      ultimately show ?thesis using u(2) unfolding origin_def by (metis rtranclp_trans)
    next
      assume n: "k_name v \<notin> k_name ` set us" "k_name v \<in> D" "\<exists>conn. moves\<^sup>*\<^sup>* (new_tunnel conn) v"
      then have "k_name v \<notin> k_name ` set ts" using a by (auto simp: grows_def)
      with n show ?thesis by (auto simp: origin_def)
    qed
  qed
  moreover have "row_wf k_name ts \<longrightarrow> row_wf k_name vs" using a b by (simp add: grows_def)
  moreover have "k_name ` set ts \<subseteq> k_name ` set vs"
    using a b unfolding grows_def by (meson order_trans)
  ultimately show ?thesis unfolding grows_def by simp
qed

lemma grows_upd:
  assumes f: "\<And>t. t \<in> set ts \<Longrightarrow> k_name t = name \<Longrightarrow> moves\<^sup>*\<^sup>* t (f t)"
  shows "grows D ts (row_upd k_name name f ts)"
proof -
  let ?g = "\<lambda>t. if k_name t = name then f t else t"
  have g: "moves\<^sup>*\<^sup>* t (?g t)" if "t \<in> set ts" for t using f [OF that] by simp
  then have k: "k_name (?g t) = k_name t" if "t \<in> set ts" for t using moves_star_name that by blast
  then have "k_name ` set (map ?g ts) = k_name ` set ts" by (rule keys_map)
  moreover have "row_wf k_name (map ?g ts) = row_wf k_name ts" using k by (rule row_wf_map)
  moreover have "\<forall>t' \<in> set (map ?g ts). origin D ts t'"
  proof
    fix t' assume "t' \<in> set (map ?g ts)"
    then obtain t where t: "t \<in> set ts" "t' = ?g t" unfolding set_map by (rule imageE)
    with g [OF t(1)] show "origin D ts t'" unfolding origin_def by blast
  qed
  ultimately show ?thesis unfolding grows_def row_upd_def by (simp del: set_map)
qed

lemma grows_foldl:
  "(\<And>s x. x \<in> set xs \<Longrightarrow> grows D (y_tunnels s) (y_tunnels (f s x))) \<Longrightarrow> grows D (y_tunnels s) (y_tunnels (foldl f s xs))"
proof (induction xs arbitrary: s)
  case Nil
  then show ?case by simp
next
  case (Cons x xs)
  have "grows D (y_tunnels s) (y_tunnels (f s x))" using Cons.prems by simp
  moreover have "grows D (y_tunnels (f s x)) (y_tunnels (foldl f (f s x) xs))"
    using Cons.prems by (intro Cons.IH) simp
  ultimately show ?case by (auto intro: grows_trans)
qed

lemma enter_grows: "c_name conn \<in> D \<Longrightarrow> grows D (y_tunnels s) (y_tunnels (enter conn s))"
proof -
  assume d: "c_name conn \<in> D"
  let ?ts = "if the_tunnel (c_name conn) s = None then row_ins (new_tunnel conn) (y_tunnels s) else y_tunnels s"
  have "grows D (y_tunnels s) ?ts"
  proof (cases "the_tunnel (c_name conn) s")
    case None
    then have n: "c_name conn \<notin> k_name ` set (y_tunnels s)" by (auto simp: the_tunnel_def row_sel_None)
    moreover have "k_name (new_tunnel conn) = c_name conn" by (simp add: new_tunnel_def)
    ultimately show ?thesis using d None by (auto simp: grows_def origin_def row_ins_def row_wf_def)
  qed simp
  moreover have "grows D ?ts (row_upd k_name (c_name conn) (refresh_t conn) ?ts)"
    by (rule grows_upd) (auto intro: moves.refresh)
  moreover have "y_tunnels (enter conn s) = row_upd k_name (c_name conn) (refresh_t conn) ?ts"
    by (simp add: enter_def Let_def refresh_t_def [abs_def])
  ultimately show ?thesis by (metis grows_trans)
qed

lemma the_tunnel_row: "row_wf k_name (y_tunnels s) \<Longrightarrow> the_tunnel name s = Some t \<Longrightarrow> u \<in> set (y_tunnels s) \<Longrightarrow> k_name u = name \<Longrightarrow> u = t"
  using row_sel_member [of k_name "y_tunnels s" u] by (auto simp: the_tunnel_def)

lemma fail_grows: "grows D (y_tunnels s) (y_tunnels (fail e name iface reason s))"
  using fail_tunnels [of e name iface reason s] by (auto intro!: grows_upd moves.failed)

lemma step_grows:
  assumes d: "c_name conn \<in> D" and wf: "row_wf k_name (y_tunnels s)"
  shows "grows D (y_tunnels s) (y_tunnels (step e conn s))"
proof -
  let ?s1 = "enter conn s"
  have g: "grows D (y_tunnels s) (y_tunnels ?s1)" by (rule enter_grows [OF d])
  then have wf1: "row_wf k_name (y_tunnels ?s1)" using wf by (simp add: grows_def)
  show ?thesis
  proof (cases "the_tunnel (c_name conn) ?s1")
    case None
    then show ?thesis using g by (simp add: step_def Let_def)
  next
    case (Some t)
    let ?s2 = "snd (in_world (e_now e) ?s1)"
    have "grows D (y_tunnels ?s2) (y_tunnels (dial e (c_name conn) ?s2))"
      if p: "k_phase t \<noteq> StateUp \<and> k_phase t \<noteq> StateConnecting"
    proof -
      have m: "moves\<^sup>*\<^sup>* u (f u)"
        if "u \<in> set (y_tunnels ?s2)" "k_name u = c_name conn" "f \<in> {refused_t now, dialled_t now}" for u f now
        using the_tunnel_row [OF wf1 Some, of u] that p by (auto intro: moves.refused moves.dialled)
      obtain now f where f: "f \<in> {refused_t now, dialled_t now}"
        "y_tunnels (dial e (c_name conn) ?s2) = row_upd k_name (c_name conn) f (y_tunnels ?s2)"
        using dial_tunnels by metis
      show ?thesis unfolding f(2) by (rule grows_upd) (rule m [OF _ _ f(1)])
    qed
    then have "grows D (y_tunnels ?s2) (y_tunnels (step_from e conn t (fst (in_world (e_now e) ?s1)) ?s2))"
      using fail_grows [of D ?s2 e "c_name conn" "k_iface t" "''timed out waiting for a ppp interface''"]
      by (auto simp: step_from_def split: db_state.split)
    moreover have "step e conn s = step_from e conn t (fst (in_world (e_now e) ?s1)) ?s2"
      using Some by (simp add: step_def case_prod_beta Let_def)
    ultimately show ?thesis using g by (auto intro: grows_trans)
  qed
qed

text \<open>\<open>Reconcile\<close>: first the tunnels that are not desired leave, then the others move on.\<close>

lemma redefine_grows: "grows D (y_tunnels s) (y_tunnels (redefine e t s))"
  by (simp only: redefine_tunnels) (auto intro!: grows_upd moves.reset)

lemma foldl_tunnels_same:
  "(\<And>s x. y_tunnels (f s x) = y_tunnels s) \<Longrightarrow> y_tunnels (foldl f s xs) = y_tunnels s"
  by (induction xs arbitrary: s) auto

lemma steps_grow:
  "(\<And>c. c \<in> set conns \<Longrightarrow> c_name c \<in> D) \<Longrightarrow> row_wf k_name (y_tunnels s) \<Longrightarrow>
   grows D (y_tunnels s) (y_tunnels (foldl (\<lambda>s conn. step e conn s) s conns))"
proof (induction conns arbitrary: s)
  case Nil
  then show ?case by simp
next
  case (Cons c conns)
  have g: "grows D (y_tunnels s) (y_tunnels (step e c s))" using Cons.prems by (intro step_grows) auto
  then have "row_wf k_name (y_tunnels (step e c s))" using Cons.prems(2) by (simp add: grows_def)
  then have "grows D (y_tunnels (step e c s)) (y_tunnels (foldl (\<lambda>s conn. step e conn s) (step e c s) conns))"
    using Cons.prems(1) by (intro Cons.IH) auto
  with g show ?case by (auto intro: grows_trans)
qed

definition evolves :: "tstate list \<Rightarrow> tstate list \<Rightarrow> bool" where
  "evolves ts ts' \<longleftrightarrow> (row_wf k_name ts \<longrightarrow> row_wf k_name ts') \<and> (\<forall>t' \<in> set ts'. origin UNIV ts t')"

lemma grows_evolves: "grows D ts ts' \<Longrightarrow> evolves ts ts'"
  by (auto simp: grows_def evolves_def origin_def)

lemma Reconcile_evolves:
  assumes wf: "row_wf k_name (y_tunnels s)"
  shows "evolves (y_tunnels s) (y_tunnels (snd (Reconcile e s)))"
proof (cases "ListConnections (y_store s)")
  case (Inl err)
  then show ?thesis by (simp add: Reconcile_def evolves_def origin_def) blast
next
  case (Inr conns)
  let ?en = "filter c_enabled conns"
  let ?D = "c_name ` set ?en"
  let ?s1 = "snd (staleTunnels ?D s)"
  let ?s2 = "foldl (\<lambda>s t. disconnect e t s) ?s1 (fst (staleTunnels ?D s))"
  let ?w = "writeConfigs e ?en ?s2"
  let ?s4 = "foldl (\<lambda>s t. redefine e t s) (snd ?w) (case fst ?w of Inr ch \<Rightarrow> ch | Inl _ \<Rightarrow> [])"
  let ?s5 = "foldl (\<lambda>s conn. step e conn s) ?s4 ?en"
  have t1: "y_tunnels ?s1 = filter (\<lambda>t. k_name t \<in> ?D) (y_tunnels s)" by (simp add: staleTunnels_def)
  have t3: "y_tunnels (snd ?w) = y_tunnels ?s1" by (simp add: foldl_tunnels_same)
  have wf1: "row_wf k_name (y_tunnels ?s1)" using wf unfolding t1 by (simp add: row_wf_def distinct_map_filter)
  have g4: "grows ?D (y_tunnels (snd ?w)) (y_tunnels ?s4)" by (rule grows_foldl) (rule redefine_grows)
  then have wf4: "row_wf k_name (y_tunnels ?s4)" using wf1 t3 by (simp add: grows_def)
  have g5: "grows ?D (y_tunnels ?s4) (y_tunnels ?s5)" by (rule steps_grow [OF _ wf4]) simp
  have fin: "evolves (y_tunnels s) ts'" if g: "grows ?D (y_tunnels ?s1) ts'" for ts'
  proof -
    have "origin UNIV (y_tunnels s) t'" if t': "t' \<in> set ts'" for t'
    proof -
      from g t' have "origin ?D (y_tunnels ?s1) t'" by (simp add: grows_def)
      then show ?thesis unfolding origin_def t1 by auto
    qed
    then show ?thesis using g wf1 by (simp add: evolves_def grows_def)
  qed
  show ?thesis
  proof (cases "fst ?w")
    case (Inl err)
    then have "y_tunnels (snd (Reconcile e s)) = y_tunnels ?s1"
      using \<open>ListConnections _ = _\<close> t3 by (simp add: Reconcile_def Let_def case_prod_beta)
    then show ?thesis using fin [OF grows_refl] by simp
  next
    case (Inr ch)
    then have "y_tunnels (snd (Reconcile e s)) = y_tunnels ?s5"
      using \<open>ListConnections _ = _\<close> by (simp add: Reconcile_def Let_def case_prod_beta)
    then show ?thesis using fin grows_trans [OF g4 g5] t3 by simp
  qed
qed

section \<open>The store stays well formed\<close>

lemma ops_store_wf:
  assumes "store_wf (y_store s)"
  shows "store_wf (y_store (drop_tunnel e name s))" "store_wf (y_store (disconnect e t s))"
    "store_wf (y_store (fail e name iface reason s))" "store_wf (y_store (dial e name s))"
    "store_wf (y_store (snd (PPPDown e name iface s)))" "store_wf (y_store (Unhealthy e name reason s))"
  using assms
  by (simp_all add: drop_tunnel_def disconnect_def fail_def dial_def dial_record_def dialFailed_def PPPDown_def
      Unhealthy_def Let_def case_prod_beta SetStatus_wf split: option.split sum.split)

lemma PPPUp_store_wf: "store_wf (y_store s) \<Longrightarrow> store_wf (y_store (snd (PPPUp e name iface l p s)))"
  by (simp add: PPPUp_def Let_def case_prod_beta ops_store_wf SetStatus_wf split: option.split sum.split)

lemma redefine_store_wf: "store_wf (y_store s) \<Longrightarrow> store_wf (y_store (redefine e t s))"
  by (simp add: redefine_def Let_def case_prod_beta ops_store_wf split: sum.split)

lemma step_store_wf: "store_wf (y_store s) \<Longrightarrow> store_wf (y_store (step e conn s))"
proof -
  assume wf: "store_wf (y_store s)"
  have "y_store (enter conn s) = y_store s" by (simp add: enter_def Let_def)
  then show ?thesis using wf
    by (auto simp: step_def step_from_def Let_def case_prod_beta ops_store_wf split: option.split db_state.split)
qed

lemma foldl_keeps: "P s \<Longrightarrow> (\<And>s x. P s \<Longrightarrow> P (f s x)) \<Longrightarrow> P (foldl f s xs)"
  by (induction xs arbitrary: s) auto

lemma Reconcile_store_wf:
  assumes wf: "store_wf (y_store s)" shows "store_wf (y_store (snd (Reconcile e s)))"
proof -
  let ?P = "\<lambda>s. store_wf (y_store s)"
  have s1: "?P (snd (staleTunnels D s))" for D using wf by (simp add: staleTunnels_def)
  have s2: "?P (foldl (\<lambda>s t. disconnect e t s) (snd (staleTunnels D s)) xs)" for D xs
    by (rule foldl_keeps [of ?P]) (use s1 ops_store_wf in auto)
  have s4: "?P (foldl (\<lambda>s t. redefine e t s) s' xs)" if "?P s'" for s' xs
    by (rule foldl_keeps [of ?P]) (use that redefine_store_wf in auto)
  have s5: "?P (foldl (\<lambda>s c. step e c s) s' xs)" if "?P s'" for s' xs
    by (rule foldl_keeps [of ?P]) (use that step_store_wf in auto)
  show ?thesis
    using wf s2 s4 s5 by (auto simp: Reconcile_def Let_def case_prod_beta split: sum.split)
qed

section \<open>The machine\<close>

text \<open>
  The events of the manager: a turn of its loop, the hooks of pppd, the health checker, a restarted
  daemon, and calls on the store by the web server.
\<close>

datatype mgr_cmd =
    EvReconcile | EvPrerender | EvInvalidate
  | EvUp string string string string | EvDown string string | EvUnhealthy string string
  | EvDb db_cmd

fun mgr_step :: "'w env \<Rightarrow> mgr_cmd \<Rightarrow> 'w sys \<Rightarrow> 'w sys" where
  "mgr_step e EvReconcile s = snd (Reconcile e s)"
| "mgr_step e EvPrerender s = snd (Prerender e s)"
| "mgr_step e EvInvalidate s = Invalidate s"
| "mgr_step e (EvUp name iface l p) s = snd (PPPUp e name iface l p s)"
| "mgr_step e (EvDown name iface) s = snd (PPPDown e name iface s)"
| "mgr_step e (EvUnhealthy name reason) s = Unhealthy e name reason s"
| "mgr_step e (EvDb c) s = s\<lparr>y_store := db_step c (y_store s)\<rparr>"

text \<open>pppd names the interface it has brought up.\<close>

fun mgr_allowed :: "mgr_cmd \<Rightarrow> bool" where
  "mgr_allowed (EvUp name iface l p) \<longleftrightarrow> iface \<noteq> []"
| "mgr_allowed (EvDb c) \<longleftrightarrow> db_allowed c"
| "mgr_allowed _ \<longleftrightarrow> True"

definition mgr_inv :: "'w sys \<Rightarrow> bool" where
  "mgr_inv s \<longleftrightarrow> row_wf k_name (y_tunnels s) \<and> (\<forall>t \<in> set (y_tunnels s). tun_ok t) \<and> store_wf (y_store s)"

lemma evolves_refl [simp]: "evolves ts ts"
  by (auto simp: evolves_def origin_def)

lemma Prerender_frames [simp]:
  "y_tunnels (snd (Prerender e s)) = y_tunnels s" "y_store (snd (Prerender e s)) = y_store s"
  by (simp_all add: Prerender_def case_prod_beta split: sum.split)

lemma mgr_step_evolves:
  assumes "row_wf k_name (y_tunnels s)" "mgr_allowed c"
  shows "evolves (y_tunnels s) (y_tunnels (mgr_step e c s))"
proof (cases c)
  case EvReconcile
  then show ?thesis using Reconcile_evolves [OF assms(1)] by simp
next
  case (EvUp name iface l p)
  then have "grows UNIV (y_tunnels s) (y_tunnels (snd (PPPUp e name iface l p s)))"
    using PPPUp_tunnels [of e name iface l p s] assms(2)
    by (auto intro!: grows_upd r_into_rtranclp intro: moves.up moves.failed)
  then show ?thesis using EvUp by (auto intro: grows_evolves)
next
  case (EvDown name iface)
  have "grows UNIV (y_tunnels s) (y_tunnels (snd (PPPDown e name iface s)))"
    using PPPDown_tunnels [of e name iface s] by (auto intro!: grows_upd r_into_rtranclp intro: moves.down)
  then show ?thesis using EvDown by (auto intro: grows_evolves)
next
  case (EvUnhealthy name reason)
  have "grows UNIV (y_tunnels s) (y_tunnels (Unhealthy e name reason s))"
    using Unhealthy_tunnels [of e name reason s] by (auto intro!: grows_upd r_into_rtranclp intro: moves.failed)
  then show ?thesis using EvUnhealthy by (auto intro: grows_evolves)
qed (simp_all add: Invalidate_def Nudge_def)

lemma evolves_ok:
  "evolves ts ts' \<Longrightarrow> \<forall>t \<in> set ts. tun_ok t \<Longrightarrow> t' \<in> set ts' \<Longrightarrow> tun_ok t'"
  unfolding evolves_def origin_def by (metis moves_star_ok new_tunnel_ok)

lemma mgr_step_inv: "mgr_inv s \<Longrightarrow> mgr_allowed c \<Longrightarrow> mgr_inv (mgr_step e c s)"
proof -
  assume i: "mgr_inv s" and a: "mgr_allowed c"
  then have ev: "evolves (y_tunnels s) (y_tunnels (mgr_step e c s))"
    by (intro mgr_step_evolves) (auto simp: mgr_inv_def)
  have "store_wf (y_store (mgr_step e c s))"
    using i a by (cases c) (auto simp: mgr_inv_def Reconcile_store_wf PPPUp_store_wf ops_store_wf db_step_wf
        Invalidate_def)
  moreover have "row_wf k_name (y_tunnels (mgr_step e c s))" using ev i by (simp add: evolves_def mgr_inv_def)
  ultimately show ?thesis using evolves_ok [OF ev] i by (auto simp: mgr_inv_def)
qed

interpretation mgr: machine "mgr_step e" mgr_allowed mgr_inv for e :: "'w env"
  by unfold_locales (rule mgr_step_inv)

end
