(* ===== verification/RenderProps.thy ===== *)
theory RenderProps
  imports Render
begin

text \<open>
  What the rendered files say: they are the repository's hand-written examples on the example
  tunnel; a reader of the lines gets back exactly the fields of each tunnel, so no field of a
  validated connection adds a line or a setting; and writing leaves exactly these files.
\<close>

section \<open>The hand-written configurations\<close>

text \<open>The example tunnel of the repository and its four files under \<open>examples/\<close>.\<close>

definition example_tunnel :: tunnel where
  "example_tunnel = \<lparr>t_name = ''example'', t_host = ''vpn.example.com'', t_addr = [],
     t_psk = ''replace-with-preshared-key'', t_user = ''replace-with-ppp-username'',
     t_pass = ''replace-with-ppp-password'', t_subnets = []\<rparr>"

definition example_swanctl :: "string list" where
  "example_swanctl = [''connections {'',
    ''    example {'',
    ''        version = 1'',
    ''        local_addrs = %any'',
    ''        remote_addrs = vpn.example.com'',
    ''        encap = yes'',
    ''        keyingtries = 0'',
    ''        rekey_time = 0'',
    ''        proposals = aes256-sha256-modp2048,aes128-sha1-modp1024,default'',
    [],
    ''        local {'',
    ''            auth = psk'',
    ''        }'',
    ''        remote {'',
    ''            auth = psk'',
    ''        }'',
    [],
    ''        children {'',
    ''            example {'',
    ''                mode = transport'',
    ''                local_ts = dynamic[udp/l2tp]'',
    ''                remote_ts = dynamic[udp/l2tp]'',
    ''                esp_proposals = aes256-sha256,aes128-sha1,default'',
    ''                start_action = none'',
    ''                dpd_action = clear'',
    ''            }'',
    ''        }'',
    ''    }'',
    ''}'',
    [],
    ''secrets {'',
    ''    ike-example {'',
    ''        id = %any'',
    ''        secret = '' @ [dquote] @ ''replace-with-preshared-key'' @ [dquote],
    ''    }'',
    ''}'']"

definition example_xl2tpd :: "string list" where
  "example_xl2tpd = [''[global]'',
    ''access control = no'',
    ''port = 1701'',
    [],
    ''[lac example]'',
    ''lns = vpn.example.com'',
    ''require chap = yes'',
    ''refuse pap = yes'',
    ''require authentication = no'',
    ''name = replace-with-ppp-username'',
    ''pppoptfile = /etc/ppp/peers/example'',
    ''length bit = yes'',
    ''redial = yes'',
    ''redial timeout = 10'',
    ''max redials = 5'']"

definition example_peer :: "string list" where
  "example_peer = [''remotename example'',
    ''ipparam example'',
    ''user '' @ [dquote] @ ''replace-with-ppp-username'' @ [dquote],
    ''noauth'',
    ''refuse-eap'',
    ''refuse-pap'',
    ''hide-password'',
    ''nodefaultroute'',
    ''noipdefault'',
    ''usepeerdns'',
    ''noccp'',
    ''mtu 1400'',
    ''mru 1400'',
    ''lcp-echo-interval 10'',
    ''lcp-echo-failure 5'',
    ''connect-delay 5000'']"

definition example_chap :: "string list" where
  "example_chap = [''# client'' @ [tab] @ ''server'' @ [tab] @ ''secret'' @ [tab] @ ''IP addresses'',
    ''replace-with-ppp-username'' @ [tab] @ ''*'' @ [tab] @ [dquote] @ ''replace-with-ppp-password'' @ [dquote] @ [tab] @ ''*'']"

section \<open>Reading lines back\<close>

definition text_lines :: "string \<Rightarrow> string list" where
  "text_lines s = butlast (split_on nl s)"

text \<open>The values of the settings that start with \<open>p\<close>, in order.\<close>

definition settings :: "string \<Rightarrow> string \<Rightarrow> string list" where
  "settings p s = map (drop (length p)) (filter (\<lambda>l. HasPrefix l p) (text_lines s))"

definition one_line :: "string \<Rightarrow> bool" where
  "one_line l \<longleftrightarrow> nl \<notin> set l"

lemma one_line_simps [simp]:
  "one_line []" "one_line (c # l) \<longleftrightarrow> c \<noteq> nl \<and> one_line l" "one_line (a @ b) \<longleftrightarrow> one_line a \<and> one_line b"
  by (auto simp: one_line_def)

lemma text_lines_unlines: "\<forall>l \<in> set ls. one_line l \<Longrightarrow> text_lines (unlines ls) = ls"
proof (induction ls)
  case Nil
  then show ?case by (simp add: text_lines_def unlines_def)
next
  case (Cons l ls)
  then show ?case
    by (simp add: text_lines_def unlines_def split_on_append_sep split_on_fresh one_line_def butlast_append)
qed

lemma HasPrefix_rec:
  "HasPrefix s []" "HasPrefix (c # s) (d # p) \<longleftrightarrow> c = d \<and> HasPrefix s p" "\<not> HasPrefix [] (d # p)"
  by (auto simp: HasPrefix_def)

lemma line_safe_one_line:
  assumes "line_safe s" shows "one_line s"
proof -
  have "\<not> 32 \<le> (of_char nl :: nat)" by (simp add: nl_def)
  with assms show ?thesis unfolding line_safe_def one_line_def by blast
qed

section \<open>Safe tunnels\<close>

text \<open>
  What validation guarantees of the fields of an enabled connection, and of an address printed by
  the resolver.
\<close>

definition tunnel_safe :: "tunnel \<Rightarrow> bool" where
  "tunnel_safe t \<longleftrightarrow> name_pattern (t_name t) \<and> token_safe (t_host t) \<and> token_safe (t_addr t) \<and>
     line_safe (t_psk t) \<and> token_safe (t_user t) \<and> line_safe (t_pass t)"

lemma FromConnection_safe:
  assumes "validateConnection conn = Inr ()" "ValidateSecrets sec = Inr ()" "token_safe addr"
  shows "tunnel_safe (FromConnection conn sec addr)"
proof -
  have e: "line_safe []" by (simp add: line_safe_def)
  have p: "line_safe (s_psk sec)"
    using assms(2) e by (cases "s_psk sec = []") (auto simp: ValidateSecrets_def bindr_Inr_iff intro: validateConfigField_safe)
  have w: "line_safe (s_pass sec)"
    using assms(2) e by (cases "s_pass sec = []") (auto simp: ValidateSecrets_def bindr_Inr_iff intro: validateConfigField_safe)
  from p w show ?thesis
    using validateConnection_valid [OF assms(1)] assms(3)
    by (simp add: tunnel_safe_def FromConnection_def connection_valid_def)
qed

lemma tunnel_one_lines:
  assumes "tunnel_safe t"
  shows "one_line (t_name t)" "one_line (t_host t)" "one_line (t_addr t)" "one_line (t_psk t)"
    "one_line (t_user t)" "one_line (t_pass t)" "one_line (pskIdentity t)"
  using assms name_pattern_safe [of "t_name t"]
  by (auto simp: tunnel_safe_def token_safe_def pskIdentity_def nl_def intro: line_safe_one_line)

lemma tunnel_name_Cons:
  assumes "tunnel_safe t" obtains c n where "t_name t = c # n" "c \<noteq> CHR '' ''"
  using assms name_pattern_safe [of "t_name t"]
  by (cases "t_name t") (auto simp: tunnel_safe_def token_safe_def)

section \<open>Quoted words\<close>

lemma quote_rune_plain:
  "32 \<le> r \<and> r < 127 \<and> r \<noteq> 34 \<and> r \<noteq> 92 \<Longrightarrow> quote_rune isPrint (r, b) = b"
  by (simp add: quote_rune_def)

lemma go_quote_plain:
  assumes "\<forall>c \<in> set s. 32 \<le> (of_char c :: nat) \<and> (of_char c :: nat) < 127 \<and> (of_char c :: nat) \<noteq> 34 \<and> (of_char c :: nat) \<noteq> 92"
  shows "go_quote isPrint s = [dquote] @ s @ [dquote]"
proof -
  have "ascii s" using assms by (auto simp: ascii_def)
  moreover have "concat (map (\<lambda>c. quote_rune isPrint (of_char c, [c])) s) = s"
    using assms by (induction s) (simp_all add: quote_rune_plain)
  ultimately show ?thesis by (simp add: go_quote_def runes_ascii comp_def)
qed

section \<open>Properties\<close>

text \<open>On the example tunnel the renderers produce the four hand-written files under \<open>examples/\<close>.\<close>

theorem render_matches_examples:
  "RenderSwanctl [example_tunnel] = unlines example_swanctl \<and>
   RenderXL2TPD [example_tunnel] ''/etc/ppp/peers'' = unlines example_xl2tpd \<and>
   RenderPPPPeer example_tunnel = unlines example_peer \<and>
   RenderCHAPSecrets isPrint [example_tunnel] = unlines example_chap"
proof -
  have "go_quote isPrint (t_pass example_tunnel) = [dquote] @ ''replace-with-ppp-password'' @ [dquote]"
    using go_quote_plain [of "t_pass example_tunnel" isPrint] by (simp add: example_tunnel_def)
  then show ?thesis
    by (simp add: RenderSwanctl_def RenderXL2TPD_def RenderPPPPeer_def RenderCHAPSecrets_def swanctl_conn_def
        swanctl_secret_def xl2tpd_lac_def ppp_peer_def chap_line_def example_swanctl_def example_xl2tpd_def
        example_peer_def example_chap_def path_join_def pskIdentity_def) (simp add: example_tunnel_def)
qed

text \<open>
  The settings of one tunnel's section: the lines of the templates that start with a given key.
\<close>

lemma filter_concat_single:
  "(\<And>t. t \<in> set ts \<Longrightarrow> filter P (f t) = [g t]) \<Longrightarrow> filter P (concat (map f ts)) = map g ts"
  by (induction ts) auto

lemma filter_concat_none:
  "(\<And>t. t \<in> set ts \<Longrightarrow> filter P (f t) = []) \<Longrightarrow> filter P (concat (map f ts)) = []"
  by (induction ts) auto

lemma swanctl_one_lines:
  assumes "tunnel_safe t" shows "\<forall>l \<in> set (swanctl_conn t @ swanctl_secret t). one_line l"
  using tunnel_one_lines [OF assms] by (simp add: swanctl_conn_def swanctl_secret_def nl_def dquote_def)

lemma swanctl_keys:
  assumes "tunnel_safe t"
  shows "filter (\<lambda>l. HasPrefix l ''        id = '') (swanctl_conn t) = []"
    "filter (\<lambda>l. HasPrefix l ''        id = '') (swanctl_secret t) = [''        id = '' @ pskIdentity t]"
    "filter (\<lambda>l. HasPrefix l ''        secret = '') (swanctl_conn t) = []"
    "filter (\<lambda>l. HasPrefix l ''        secret = '') (swanctl_secret t) = [''        secret = '' @ [dquote] @ t_psk t @ [dquote]]"
    "filter (\<lambda>l. HasPrefix l ''        remote_addrs = '') (swanctl_conn t) = [''        remote_addrs = '' @ t_host t]"
    "filter (\<lambda>l. HasPrefix l ''        remote_addrs = '') (swanctl_secret t) = []"
proof -
  obtain c n where "t_name t = c # n" "c \<noteq> CHR '' ''" by (rule tunnel_name_Cons [OF assms])
  note simps = this swanctl_conn_def swanctl_secret_def HasPrefix_rec
  show "filter (\<lambda>l. HasPrefix l ''        id = '') (swanctl_conn t) = []" by (simp add: simps)
  show "filter (\<lambda>l. HasPrefix l ''        id = '') (swanctl_secret t) = [''        id = '' @ pskIdentity t]" by (simp add: simps)
  show "filter (\<lambda>l. HasPrefix l ''        secret = '') (swanctl_conn t) = []" by (simp add: simps)
  show "filter (\<lambda>l. HasPrefix l ''        secret = '') (swanctl_secret t) = [''        secret = '' @ [dquote] @ t_psk t @ [dquote]]"
    by (simp add: simps)
  show "filter (\<lambda>l. HasPrefix l ''        remote_addrs = '') (swanctl_conn t) = [''        remote_addrs = '' @ t_host t]"
    by (simp add: simps)
  show "filter (\<lambda>l. HasPrefix l ''        remote_addrs = '') (swanctl_secret t) = []" by (simp add: simps)
qed

lemma swanctl_lines:
  assumes "\<forall>t \<in> set ts. tunnel_safe t"
  shows "text_lines (RenderSwanctl ts) = [''connections {''] @ concat (map swanctl_conn ts) @ [''}'', [], ''secrets {''] @
      concat (map swanctl_secret ts) @ [''}'']"
  unfolding RenderSwanctl_def
  by (rule text_lines_unlines) (use assms swanctl_one_lines in \<open>auto simp: nl_def\<close>)

lemma swanctl_filters:
  assumes "\<And>t. t \<in> set ts \<Longrightarrow> tunnel_safe t"
  shows "filter (\<lambda>l. HasPrefix l ''        id = '') (concat (map swanctl_conn ts)) = []"
    "filter (\<lambda>l. HasPrefix l ''        id = '') (concat (map swanctl_secret ts)) = map (\<lambda>t. ''        id = '' @ pskIdentity t) ts"
    "filter (\<lambda>l. HasPrefix l ''        secret = '') (concat (map swanctl_conn ts)) = []"
    "filter (\<lambda>l. HasPrefix l ''        secret = '') (concat (map swanctl_secret ts)) = map (\<lambda>t. ''        secret = '' @ [dquote] @ t_psk t @ [dquote]) ts"
    "filter (\<lambda>l. HasPrefix l ''        remote_addrs = '') (concat (map swanctl_conn ts)) = map (\<lambda>t. ''        remote_addrs = '' @ t_host t) ts"
    "filter (\<lambda>l. HasPrefix l ''        remote_addrs = '') (concat (map swanctl_secret ts)) = []"
  by (rule filter_concat_single filter_concat_none, rule swanctl_keys, erule assms)+



section \<open>The other files\<close>

lemma xl2tpd_one_lines:
  "tunnel_safe t \<Longrightarrow> one_line d \<Longrightarrow> \<forall>l \<in> set (xl2tpd_lac d t). one_line l"
  using tunnel_one_lines [of t] by (simp add: xl2tpd_lac_def nl_def path_join_def)

lemma xl2tpd_lines:
  assumes "\<And>t. t \<in> set ts \<Longrightarrow> tunnel_safe t" "one_line d"
  shows "text_lines (RenderXL2TPD ts d) = [''[global]'', ''access control = no'', ''port = 1701''] @ concat (map (xl2tpd_lac d) ts)"
  unfolding RenderXL2TPD_def
  by (rule text_lines_unlines) (use assms xl2tpd_one_lines in \<open>auto simp: nl_def\<close>)

lemma xl2tpd_keys:
  "filter (\<lambda>l. HasPrefix l ''[lac '') (xl2tpd_lac d t) = [''[lac '' @ t_name t @ '']'']"
  "filter (\<lambda>l. HasPrefix l ''lns = '') (xl2tpd_lac d t) = [''lns = '' @ t_host t]"
  "filter (\<lambda>l. HasPrefix l ''name = '') (xl2tpd_lac d t) = [''name = '' @ t_user t]"
  "filter (\<lambda>l. HasPrefix l ''pppoptfile = '') (xl2tpd_lac d t) = [''pppoptfile = '' @ path_join d (t_name t)]"
  by (simp_all add: xl2tpd_lac_def HasPrefix_rec)

lemma xl2tpd_filters:
  "filter (\<lambda>l. HasPrefix l ''[lac '') (concat (map (xl2tpd_lac d) ts)) = map (\<lambda>t. ''[lac '' @ t_name t @ '']'') ts"
  "filter (\<lambda>l. HasPrefix l ''lns = '') (concat (map (xl2tpd_lac d) ts)) = map (\<lambda>t. ''lns = '' @ t_host t) ts"
  "filter (\<lambda>l. HasPrefix l ''name = '') (concat (map (xl2tpd_lac d) ts)) = map (\<lambda>t. ''name = '' @ t_user t) ts"
  "filter (\<lambda>l. HasPrefix l ''pppoptfile = '') (concat (map (xl2tpd_lac d) ts)) =
     map (\<lambda>t. ''pppoptfile = '' @ path_join d (t_name t)) ts"
  by (rule filter_concat_single, rule xl2tpd_keys)+

text \<open>The bytes of a rune: itself below 128, and only high bytes otherwise.\<close>

lemma utf8_step_low:
  assumes "utf8_step a bs = (r, w)" "r < 128" shows "a = r \<and> w = 1"
  using assms by (auto simp: utf8_step.simps utf8_second_def utf8_cont_def split: if_splits list.splits)

lemma rune_bytes:
  "(r, b) \<in> set (runes s) \<Longrightarrow> (r < 128 \<and> b = [char_of r]) \<or> (128 \<le> r \<and> (\<forall>c \<in> set b. 128 \<le> (of_char c :: nat)))"
proof (induction s rule: runes.induct)
  case 1
  then show ?case by simp
next
  case (2 c cs)
  obtain q w where st: "utf8_step (of_char c) (map of_char (take 3 cs)) = (q, w)"
    by (cases "utf8_step (of_char c) (map of_char (take 3 cs))") auto
  show ?case
  proof (cases "(r, b) \<in> set (runes (drop (w - 1) cs))")
    case True
    with 2(1) st show ?thesis by simp
  next
    case False
    then have rb: "r = q" "b = take w (c # cs)" using 2(2) st by auto
    have w: "1 \<le> w" using st by (rule utf8_width)
    show ?thesis
    proof (cases "q < 128")
      case True
      with utf8_step_low [OF st] have "q = of_char c" "w = 1" by auto
      then show ?thesis using rb True by simp
    next
      case False
      have "128 \<le> (of_char c :: nat)"
        using False st utf8_step_ascii [of "of_char c"] by (cases "(of_char c :: nat) < 128") auto
      moreover have "128 \<le> (of_char x :: nat)" if x: "x \<in> set (take (w - 1) cs)" for x
      proof -
        obtain k where k: "k < w - 1" "k < length cs" "cs ! k = x"
          using x by (auto simp: in_set_conv_nth)
        from utf8_step_multi [OF st k(1)] k show ?thesis by auto
      qed
      ultimately show ?thesis using False rb w by (cases w) auto
    qed
  qed
qed

text \<open>pppd's reading of a quoted word: a backslash stands for the character after it.\<close>

fun unescape :: "string \<Rightarrow> string" where
  "unescape [] = []"
| "unescape [c] = [c]"
| "unescape (c # d # s) = (if c = bslash then d # unescape s else c # unescape (d # s))"

definition unquote :: "string \<Rightarrow> string" where
  "unquote w = unescape (butlast (tl w))"

lemma unescape_plain: "bslash \<notin> set b \<Longrightarrow> unescape (b @ s) = b @ unescape s"
proof (induction b)
  case Nil
  then show ?case by simp
next
  case (Cons c b)
  then show ?case by (cases "b @ s") auto
qed

definition printable :: "(nat \<Rightarrow> bool) \<Rightarrow> string \<Rightarrow> bool" where
  "printable isPrint s \<longleftrightarrow> (\<forall>(r, b) \<in> set (runes s). r < 128 \<or> isPrint r \<and> \<not> (r = 65533 \<and> length b = 1))"

lemma quote_rune_safe:
  assumes rb: "(r, b) \<in> set (runes s)" and "line_safe s" "printable isPrint s"
  shows "unescape (quote_rune isPrint (r, b) @ t) = b @ unescape t"
proof (cases "r < 128")
  case True
  then have b: "b = [char_of r]" using rune_bytes [OF rb] by auto
  have "set b \<subseteq> set s" using rb runes_concat [of s] by (metis (no_types, lifting) UN_upper image_eqI list.set_map set_concat snd_conv)
  then have c: "char_of r \<in> set s" using b by simp
  have r: "(of_char (char_of r :: char) :: nat) = r" using True by simp
  have "char_of r \<noteq> CHR 0x22" "32 \<le> r" "r \<noteq> 127" using assms(2) c r unfolding line_safe_def by fastforce+
  moreover have "char_of r = CHR 0x22" if "r = 34"
  proof -
    have "r = of_char (CHR 0x22)" using that by simp
    then show ?thesis by (simp only: char_of_char)
  qed
  ultimately have r': "r \<noteq> 34" "32 \<le> r" "r < 127" using True by auto
  show ?thesis
  proof (cases "r = 92")
    case True
    then show ?thesis by (simp add: quote_rune_def b bslash_def)
  next
    case False
    have "char_of r \<noteq> bslash"
    proof
      assume "char_of r = bslash"
      then have "(of_char (char_of r :: char) :: nat) = 92" by (simp add: bslash_def)
      with r False show False by simp
    qed
    then show ?thesis using False r' b unescape_plain [of b t] by (simp add: quote_rune_def)
  qed
next
  case False
  then have h: "\<forall>c \<in> set b. 128 \<le> (of_char c :: nat)" "128 \<le> r" using rune_bytes [OF rb] by auto
  then have "bslash \<notin> set b" by (auto simp: bslash_def)
  then show ?thesis using False rb assms(3) by (auto simp: quote_rune_def printable_def unescape_plain)
qed

lemma line_safe_tab: "line_safe s \<Longrightarrow> tab \<notin> set s"
proof
  assume "line_safe s" "tab \<in> set s"
  then have "32 \<le> (of_char tab :: nat)" by (simp add: line_safe_def)
  then show False by (simp add: tab_def)
qed

lemma quote_rune_chars:
  assumes "r < 128 \<or> isPrint r \<and> \<not> (r = 65533 \<and> length b = 1)" "32 \<le> r" "r \<noteq> 127"
  shows "set (quote_rune isPrint (r, b)) \<subseteq> insert bslash (set b)"
  using assms by (auto simp: quote_rune_def)

lemma line_safe_rune:
  assumes "(r, b) \<in> set (runes s)" "line_safe s" shows "32 \<le> r \<and> r \<noteq> 127 \<and> set b \<subseteq> set s"
proof -
  have sub: "set b \<subseteq> set s" using assms(1) runes_concat [of s]
    by (metis (no_types, lifting) UN_upper image_eqI list.set_map set_concat snd_conv)
  show ?thesis
  proof (cases "r < 128")
    case True
    then have "char_of r \<in> set s" "(of_char (char_of r :: char) :: nat) = r"
      using rune_bytes [OF assms(1)] sub by auto
    then show ?thesis using assms(2) sub unfolding line_safe_def by fastforce
  qed (use sub in simp)
qed

lemma go_quote_clean:
  assumes "line_safe s" "printable isPrint s"
  shows "tab \<notin> set (go_quote isPrint s) \<and> one_line (go_quote isPrint s)"
proof -
  have "set (quote_rune isPrint (r, b)) \<subseteq> insert bslash (set s)" if "(r, b) \<in> set (runes s)" for r b
    using quote_rune_chars [of r isPrint b] line_safe_rune [OF that assms(1)] assms(2) that
    unfolding printable_def by blast
  then have "set (go_quote isPrint s) \<subseteq> {dquote, bslash} \<union> set s" by (auto simp: go_quote_def)
  moreover have "tab \<notin> {dquote, bslash} \<union> set s" "nl \<notin> {dquote, bslash} \<union> set s"
    using line_safe_tab [OF assms(1)] line_safe_one_line [OF assms(1)]
    by (auto simp: one_line_def tab_def dquote_def bslash_def nl_def)
  ultimately show ?thesis by (auto simp: one_line_def)
qed

lemma unquote_quote:
  assumes "line_safe s" "printable isPrint s"
  shows "unquote (go_quote isPrint s) = s"
proof -
  have "set rs \<subseteq> set (runes s) \<Longrightarrow> unescape (concat (map (quote_rune isPrint) rs)) = concat (map snd rs)" for rs
    using quote_rune_safe [OF _ assms] by (induction rs) auto
  then show ?thesis by (simp add: unquote_def go_quote_def butlast_append runes_concat)
qed

text \<open>The rendered xl2tpd.conf of safe tunnels holds one section, one gateway, one user name and one
  options file per tunnel, in order; and chap-secrets one line per tunnel whose tab-separated
  words are the user name, the server, the quoted password, which reads back as the password, and
  the addresses.\<close>

theorem daemon_files_read_back:
  assumes safe: "\<forall>t \<in> set ts. tunnel_safe t" and dir: "one_line peersDir"
    and pr: "\<forall>t \<in> set ts. printable isPrint (t_pass t)"
  shows "settings ''[lac '' (RenderXL2TPD ts peersDir) = map (\<lambda>t. t_name t @ '']'') ts \<and>
    settings ''lns = '' (RenderXL2TPD ts peersDir) = map t_host ts \<and>
    settings ''name = '' (RenderXL2TPD ts peersDir) = map t_user ts \<and>
    settings ''pppoptfile = '' (RenderXL2TPD ts peersDir) = map (\<lambda>t. path_join peersDir (t_name t)) ts \<and>
    map (split_on tab) (tl (text_lines (RenderCHAPSecrets isPrint ts))) =
      map (\<lambda>t. [t_user t, ''*'', go_quote isPrint (t_pass t), ''*'']) ts \<and>
    (\<forall>t \<in> set ts. unquote (go_quote isPrint (t_pass t)) = t_pass t)"
proof -
  have k: "t \<in> set ts \<Longrightarrow> tunnel_safe t" for t using safe by blast
  note lines = xl2tpd_lines [of ts peersDir, OF k dir]
  have x: "settings ''[lac '' (RenderXL2TPD ts peersDir) = map (\<lambda>t. t_name t @ '']'') ts"
    "settings ''lns = '' (RenderXL2TPD ts peersDir) = map t_host ts"
    "settings ''name = '' (RenderXL2TPD ts peersDir) = map t_user ts"
    "settings ''pppoptfile = '' (RenderXL2TPD ts peersDir) = map (\<lambda>t. path_join peersDir (t_name t)) ts"
    by (simp_all add: settings_def lines HasPrefix_rec xl2tpd_filters comp_def)
  have q: "unquote (go_quote isPrint (t_pass t)) = t_pass t" if "t \<in> set ts" for t
    using that k pr by (intro unquote_quote) (auto simp: tunnel_safe_def)
  have g: "tab \<notin> set (go_quote isPrint (t_pass t)) \<and> one_line (go_quote isPrint (t_pass t))" if t: "t \<in> set ts" for t
    by (rule go_quote_clean) (use t k pr in \<open>auto simp: tunnel_safe_def\<close>)
  have u: "tab \<notin> set (t_user t) \<and> one_line (t_user t)" if "t \<in> set ts" for t
    using k [OF that] tunnel_one_lines(5) [OF k [OF that]] by (auto simp: tunnel_safe_def token_safe_def dest: line_safe_tab)
  have "\<forall>l \<in> set (map (chap_line isPrint) ts). one_line l"
    using g u by (auto simp: chap_line_def tab_def nl_def)
  then have "text_lines (RenderCHAPSecrets isPrint ts) = (''# client'' @ [tab] @ ''server'' @ [tab] @ ''secret'' @ [tab] @ ''IP addresses'') #
       map (chap_line isPrint) ts"
    unfolding RenderCHAPSecrets_def by (intro text_lines_unlines) (auto simp: nl_def tab_def)
  moreover have "split_on tab (chap_line isPrint t) = [t_user t, ''*'', go_quote isPrint (t_pass t), ''*'']" if "t \<in> set ts" for t
    using g [OF that] u [OF that]
    by (simp add: chap_line_def split_on_append_sep split_on_fresh) (simp add: tab_def)
  ultimately show ?thesis using x q by simp
qed

theorem daemon_files_read_back_witness:
  "settings ''name = '' (RenderXL2TPD [example_tunnel] ''/run/peers'') = [''replace-with-ppp-username'']"
proof -
  have "\<forall>t \<in> set [example_tunnel]. tunnel_safe t" "one_line ''/run/peers''"
    "\<forall>t \<in> set [example_tunnel]. printable (\<lambda>_. True) (t_pass t)" by code_simp+
  from daemon_files_read_back [OF this] show ?thesis by (simp add: example_tunnel_def)
qed

section \<open>Writing\<close>

interpretation file_tab: row_table fst "row_sel fst" row_ins "row_upd fst" "row_del fst" "row_wf fst"
  by (rule row_table_rows)

lemma fs_do_Inr: "fs_do op x f fs = (Inr y, fs') \<longleftrightarrow> fs_fault fs op = None \<and> y = x \<and> fs' = fs\<lparr>fs_files := f (fs_files fs)\<rparr>"
  by (auto simp: fs_do_def split: option.splits)

lemma remove_each_files:
  "remove_each dir ns fs = (Inr (), fs') \<Longrightarrow>
     fs_files fs' = filter (\<lambda>e. fst e \<notin> path_join dir ` set ns) (fs_files fs)"
proof (induction ns arbitrary: fs)
  case Nil
  then show ?case by simp
next
  case (Cons n ns)
  then obtain fs1 where "fs1 = fs\<lparr>fs_files := row_del fst (path_join dir n) (fs_files fs)\<rparr>"
    "remove_each dir ns fs1 = (Inr (), fs')"
    by (auto simp: sbind_Inr_iff os_Remove_def fs_do_Inr)
  then show ?case using Cons.IH [of fs1] by (auto simp: row_del_def intro!: filter_cong)
qed

lemma write_each_files:
  "write_each l fs = (Inr (), fs') \<Longrightarrow> row_wf fst (fs_files fs) \<Longrightarrow> distinct (map fst l) \<Longrightarrow>
     row_sel fst p (fs_files fs') = (case map_of l p of Some c \<Rightarrow> Some (p, c) | None \<Rightarrow> row_sel fst p (fs_files fs))"
proof (induction l arbitrary: fs rule: write_each.induct)
  case 1
  then show ?case by simp
next
  case (2 q c l)
  then obtain fs1 where fs1: "fs1 = fs\<lparr>fs_files := row_upsert fst (q, c) (fs_files fs)\<rparr>"
    "write_each l fs1 = (Inr (), fs')"
    by (auto simp: sbind_Inr_iff os_WriteFile_def fs_do_Inr)
  have wf: "row_wf fst (fs_files fs1)"
    and sel: "row_sel fst p (fs_files fs1) = (if p = q then Some (q, c) else row_sel fst p (fs_files fs))"
    using row_upsert_sel(1) [OF "2.prems"(2), of p "(q, c)"] row_upsert_sel(2) [OF "2.prems"(2), of "(q, c)"]
    by (simp_all add: fs1)
  have "map_of l q = None" using "2.prems"(3) by (auto simp: map_of_eq_None_iff)
  then show ?case using "2.IH" [OF fs1(2) wf] "2.prems"(3) sel by (auto split: option.splits)
qed

lemma dir_entries_mem:
  "n \<in> set (dir_entries dir files) \<longleftrightarrow> CHR ''/'' \<notin> set n \<and> path_join dir n \<in> fst ` set files"
proof
  assume "n \<in> set (dir_entries dir files)"
  then obtain q c where "(q, c) \<in> set files" "HasPrefix q (dir @ ''/'')" "CHR ''/'' \<notin> set n" "n = drop (length dir + 1) q"
    by (auto simp: dir_entries_def)
  moreover from this obtain x where "q = (dir @ ''/'') @ x" by (auto simp: HasPrefix_iff)
  ultimately show "CHR ''/'' \<notin> set n \<and> path_join dir n \<in> fst ` set files" by (force simp: path_join_def)
next
  assume a: "CHR ''/'' \<notin> set n \<and> path_join dir n \<in> fst ` set files"
  then obtain c where "(path_join dir n, c) \<in> set files" by auto
  moreover have "drop (length dir + 1) (path_join dir n) = n" by (simp add: path_join_def)
  moreover have "HasPrefix (path_join dir n) (dir @ ''/'')" by (simp add: HasPrefix_iff path_join_def)
  ultimately show "n \<in> set (dir_entries dir files)" using a by (force simp: dir_entries_def image_iff)
qed

lemma row_sel_fst_mem: "row_sel fst p l \<noteq> None \<longleftrightarrow> p \<in> fst ` set l"
  by (auto simp: row_sel_None image_iff)

text \<open>The contents \<open>Write\<close> gives each path.\<close>

definition wanted_file :: "(nat \<Rightarrow> bool) \<Rightarrow> string \<Rightarrow> tunnel list \<Rightarrow> string \<Rightarrow> string option" where
  "wanted_file isPrint dir ts p =
     (if p = path_join dir ''swanctl.conf'' then Some (RenderSwanctl ts)
      else if p = path_join dir ''xl2tpd.conf'' then Some (RenderXL2TPD ts (path_join dir ''peers''))
      else if p = path_join dir ''chap-secrets'' then Some (RenderCHAPSecrets isPrint ts)
      else map_option RenderPPPPeer (find (\<lambda>t. path_join (path_join dir ''peers'') (t_name t) = p) ts))"

lemma path_join_inject [simp]: "path_join d m = path_join d n \<longleftrightarrow> m = n"
  by (simp add: path_join_def)

lemma peer_path_other [simp]:
  "path_join (path_join dir ''peers'') n \<noteq> path_join dir ''swanctl.conf''"
  "path_join (path_join dir ''peers'') n \<noteq> path_join dir ''xl2tpd.conf''"
  "path_join (path_join dir ''peers'') n \<noteq> path_join dir ''chap-secrets''"
  by (simp_all add: path_join_def)

lemma row_sel_fst: "row_sel fst p l = map_option (Pair p) (map_of l p)"
  by (induction l) (auto simp: row_sel_def)

lemma render_files_lookup:
  assumes "distinct (map t_name ts)"
  shows "distinct (map fst (render_files isPrint dir ts)) \<and> map_of (render_files isPrint dir ts) p = wanted_file isPrint dir ts p"
proof -
  let ?pd = "path_join dir ''peers''"
  let ?add = "\<lambda>files t. row_upsert fst (path_join ?pd (t_name t), RenderPPPPeer t) files"
  have step: "row_wf fst (foldl ?add files ts) \<and> row_sel fst p (foldl ?add files ts) =
      (case find (\<lambda>t. path_join ?pd (t_name t) = p) ts of Some t \<Rightarrow> Some (p, RenderPPPPeer t) | None \<Rightarrow> row_sel fst p files)"
    if "row_wf fst files" for files
    using assms that
  proof (induction ts arbitrary: files)
    case Nil
    then show ?case by simp
  next
    case (Cons t ts)
    note u = row_upsert_sel(1) [OF Cons.prems(2), of p "(path_join ?pd (t_name t), RenderPPPPeer t)"]
      row_upsert_sel(2) [OF Cons.prems(2), of "(path_join ?pd (t_name t), RenderPPPPeer t)"]
    have "find (\<lambda>t'. path_join ?pd (t_name t') = p) ts = None" if "path_join ?pd (t_name t) = p"
      using that Cons.prems(1) by (auto simp: find_None_iff image_iff)
    then show ?case using Cons.IH [OF _ u(2)] Cons.prems(1) u(1) by (auto split: option.splits)
  qed
  let ?base = "[(path_join dir ''swanctl.conf'', RenderSwanctl ts),
            (path_join dir ''xl2tpd.conf'', RenderXL2TPD ts ?pd),
            (path_join dir ''chap-secrets'', RenderCHAPSecrets isPrint ts)]"
  have b: "row_wf fst ?base" by (simp add: row_wf_def)
  have "row_sel fst p (render_files isPrint dir ts) = map_option (Pair p) (wanted_file isPrint dir ts p)"
  proof (cases "find (\<lambda>t. path_join ?pd (t_name t) = p) ts")
    case None
    then show ?thesis
      using step [OF b] by (simp add: render_files_def Let_def wanted_file_def row_sel_fst)
  next
    case (Some t)
    then have "p = path_join ?pd (t_name t)" by (auto simp: find_Some_iff)
    then show ?thesis using step [OF b] Some by (simp add: render_files_def Let_def wanted_file_def)
  qed
  then have "map_of (render_files isPrint dir ts) p = wanted_file isPrint dir ts p"
    unfolding row_sel_fst by (auto simp: map_option_case split: option.splits)
  then show ?thesis using step [OF b] by (simp add: render_files_def Let_def row_wf_def)
qed

lemma Write_files:
  assumes w: "Write isPrint dir ts fs = (Inr (), fs')" and wf: "row_wf fst (fs_files fs)"
    and names: "distinct (map t_name ts)"
  shows "row_sel fst p (fs_files fs') = (case wanted_file isPrint dir ts p of
      Some c \<Rightarrow> Some (p, c)
    | None \<Rightarrow> if \<exists>n. p = path_join (path_join dir ''peers'') n \<and> CHR ''/'' \<notin> set n then None
              else row_sel fst p (fs_files fs))"
proof -
  let ?pd = "path_join dir ''peers''"
  let ?stale = "filter (\<lambda>n. n \<notin> t_name ` set ts) (dir_entries ?pd (fs_files fs))"
  from w obtain fs2 where r: "remove_each ?pd ?stale fs = (Inr (), fs2)"
    and we: "write_each (render_files isPrint dir ts) fs2 = (Inr (), fs')"
    by (auto simp: Write_def pruneStalePeers_def sbind_Inr_iff fs_do_Inr os_ReadDir_def)
  note f2 = remove_each_files [OF r]
  have wf2: "row_wf fst (fs_files fs2)" unfolding f2 using wf by (simp add: row_wf_def distinct_map_filter)
  have sel2: "row_sel fst p (fs_files fs2) = (if p \<in> path_join ?pd ` set ?stale then None else row_sel fst p (fs_files fs))"
  proof -
    have "row_sel fst p (filter (\<lambda>e. fst e \<notin> A) l) = (if p \<in> A then None else row_sel fst p l)" for A and l :: "(string \<times> string) list"
      by (induction l) (auto simp: row_sel_def)
    then show ?thesis unfolding f2 .
  qed
  have stale: "p \<in> path_join ?pd ` set ?stale"
    if "p = path_join ?pd n" "CHR ''/'' \<notin> set n" "wanted_file isPrint dir ts p = None" "row_sel fst p (fs_files fs) \<noteq> None" for n
  proof -
    have "n \<notin> t_name ` set ts" using that(1,3) by (auto simp: wanted_file_def find_None_iff split: if_splits)
    moreover have "n \<in> set (dir_entries ?pd (fs_files fs))"
      using that(1,2,4) unfolding dir_entries_mem row_sel_fst_mem by simp
    ultimately show ?thesis using that(1) by auto
  qed
  have live: "\<exists>n. p = path_join ?pd n \<and> CHR ''/'' \<notin> set n" if "p \<in> path_join ?pd ` set ?stale"
    using that by (auto simp: dir_entries_mem)
  note w = write_each_files [OF we wf2, of p] and l = render_files_lookup [OF names, of isPrint dir p]
  show ?thesis
  proof (cases "wanted_file isPrint dir ts p")
    case None
    then show ?thesis
      using w l sel2 stale live by (cases "row_sel fst p (fs_files fs)") (auto simp del: set_filter)
  next
    case (Some c)
    then show ?thesis using w l by simp
  qed
qed

text \<open>C34: A successful write leaves swanctl.conf, xl2tpd.conf, chap-secrets and one options file per
  tunnel with their rendered contents, no other file in the peers directory, and every other
  file as it was.\<close>

theorem write_leaves_exactly:
  assumes w: "Write isPrint dir ts fs = (Inr (), fs')" and wf: "row_wf fst (fs_files fs)"
    and names: "distinct (map t_name ts)"
  shows "row_sel fst p (fs_files fs') = (case wanted_file isPrint dir ts p of
      Some c \<Rightarrow> Some (p, c)
    | None \<Rightarrow> if \<exists>n. p = path_join (path_join dir ''peers'') n \<and> CHR ''/'' \<notin> set n then None
              else row_sel fst p (fs_files fs))"
  using Write_files[OF assms] .

definition demo_fs :: fsys where
  "demo_fs = \<lparr>fs_files = [(''/run/peers/old'', ''x''), (''/etc/hosts'', ''h'')], fs_fault = \<lambda>_. None\<rparr>"

theorem write_leaves_exactly_witness:
  "row_sel fst ''/run/peers/old'' (fs_files (snd (Write (\<lambda>_. True) ''/run'' [example_tunnel] demo_fs))) = None \<and>
   row_sel fst ''/etc/hosts'' (fs_files (snd (Write (\<lambda>_. True) ''/run'' [example_tunnel] demo_fs))) = Some (''/etc/hosts'', ''h'')"
proof -
  have "fst (Write (\<lambda>_. True) ''/run'' [example_tunnel] demo_fs) = Inr ()" by code_simp
  then have w: "Write (\<lambda>_. True) ''/run'' [example_tunnel] demo_fs = (Inr (), snd (Write (\<lambda>_. True) ''/run'' [example_tunnel] demo_fs))"
    by (auto simp: prod_eq_iff)
  have wf: "row_wf fst (fs_files demo_fs)" "distinct (map t_name [example_tunnel])" by code_simp+
  have a: "wanted_file (\<lambda>_. True) ''/run'' [example_tunnel] ''/run/peers/old'' = None"
    "wanted_file (\<lambda>_. True) ''/run'' [example_tunnel] ''/etc/hosts'' = None" by code_simp+
  have b: "\<exists>n. ''/run/peers/old'' = path_join (path_join ''/run'' ''peers'') n \<and> CHR ''/'' \<notin> set n"
    by (rule exI [of _ "''old''"]) (simp add: path_join_def)
  have c: "\<not> (\<exists>n. ''/etc/hosts'' = path_join (path_join ''/run'' ''peers'') n \<and> CHR ''/'' \<notin> set n)"
    by (simp add: path_join_def)
  have d: "row_sel fst ''/etc/hosts'' (fs_files demo_fs) = Some (''/etc/hosts'', ''h'')" by code_simp
  show ?thesis
    using write_leaves_exactly [OF w wf, of "''/run/peers/old''"] write_leaves_exactly [OF w wf, of "''/etc/hosts''"] a b c d
    by simp
qed

end
