(* ===== verification/ManagerProps.thy ===== *)
theory ManagerProps
  imports ManagerInv RenderProps
begin

text \<open>
  What the reconciler guarantees: the life cycle of its tunnels, backoff, change detection, and that
  tearing down undoes setting up.
\<close>

section \<open>An example system\<close>

text \<open>A world in which every command succeeds and the clock ticks once per reading.\<close>

definition calm_env :: "int env" where
  "calm_env = \<lparr>e_run = (\<lambda>c w. (Inr [], w)), e_now = (\<lambda>w. (w, w + Second)),
     e_resolve = (\<lambda>h w. (Inr ''192.0.2.1'', w)), e_tail = Some (\<lambda>rs w. (Inr (), w)),
     e_print = (\<lambda>_. True), e_text = (\<lambda>_. ''error''), e_dir = ''/run/tsv'', e_ctl = ''/run/l2tp-control'',
     e_tick = defaultTick, e_dial = defaultDialTimeout\<rparr>"

definition new_sys :: "store \<Rightarrow> fsys \<Rightarrow> 'w \<Rightarrow> 'w sys" where
  "new_sys st fs w = \<lparr>y_tunnels = [], y_advertised = [], y_rendered = [], y_nudge = False, y_logs = [],
     y_store = st, y_fs = fs, y_world = w\<rparr>"

lemma new_sys_inv: "store_wf st \<Longrightarrow> mgr_inv (new_sys st fs w)"
  by (simp add: mgr_inv_def new_sys_def row_wf_def)

text \<open>The store of the examples as rows, the tunnel its connection stands for, and a manager whose
  configuration is up to date.\<close>

definition demo_row :: conn_row where
  "demo_row = \<lparr>r_id = 1, r_name = ''alpha'', r_gateway = ''vpn.example.com'', r_psk = ''nnk3y'', r_user = ''bob'',
     r_pass = ''mmp4ss'', r_subnets = ''10.1.0.0/16'', r_hcip = None, r_enabled = True, r_created = 7, r_updated = 7\<rparr>"

definition demo_db :: store where
  "demo_db = (new_store demo_aead)\<lparr>tconns := [demo_row]\<rparr>"

definition demo_tunnel :: tunnel where
  "demo_tunnel = \<lparr>t_name = ''alpha'', t_host = ''vpn.example.com'', t_addr = ''192.0.2.1'', t_psk = ''k3y'',
     t_user = ''bob'', t_pass = ''p4ss'', t_subnets = [''10.1.0.0/16'']\<rparr>"

definition demo_sys :: "int sys" where
  "demo_sys = (new_sys demo_db \<lparr>fs_files = [], fs_fault = \<lambda>_. None\<rparr> (100 * Second))
     \<lparr>y_rendered := [(''alpha'', fingerprint demo_tunnel)]\<rparr>"

lemma demo_db_wf: "store_wf demo_db"
proof -
  have p: "ParseSubnet ''10.1.0.0/16'' = Inr (Prefix (Addr4 0x0A010000) 16)"
    "show_prefix (Prefix (Addr4 0x0A010000) 16) = ''10.1.0.0/16''" by code_simp+
  have n: "name_pattern ''alpha''" "token_safe ''vpn.example.com''" "token_safe ''bob''" by code_simp+
  have s: "splitSubnets ''10.1.0.0/16'' = [''10.1.0.0/16'']" by code_simp
  have "row_ok demo_row"
    using p n ParseSubnet_canonical [OF p(1)] unfolding row_ok_def demo_row_def
    by (auto intro!: exI [of _ "[Prefix (Addr4 0x0A010000) 16]"])
  moreover have "routed demo_db = [Prefix (Addr4 0x0A010000) 16]"
    using p s by (simp add: routed_def row_pfx_def demo_db_def demo_row_def new_store_def prefixesOf_def)
  ultimately show ?thesis
    by (simp add: store_wf_def demo_db_def new_store_def row_wf_def disjoint_list_def)
qed

lemma demo_sys_inv: "mgr_inv demo_sys"
  using new_sys_inv [OF demo_db_wf] by (simp add: demo_sys_def mgr_inv_def)

section \<open>Life cycle\<close>

text \<open>C8: Whatever happens, in any order - turns of the loop, hooks, failed health checks, restarted
  daemons, edits of the store - every name has one tunnel, a tunnel holds an interface exactly while
  it is up, an up tunnel carries no failures and no pending retry, a failed one at least one failure,
  and the store stays well formed.\<close>

theorem manager_invariant:
  assumes "mgr_inv s0" "\<forall>c \<in> set cmds. mgr_allowed c"
  shows "let s = run_cmds (mgr_step e) cmds s0 in
    distinct (map k_name (y_tunnels s)) \<and> store_wf (y_store s) \<and>
    (\<forall>t \<in> set (y_tunnels s). (k_iface t \<noteq> [] \<longleftrightarrow> k_phase t = StateUp) \<and> 0 \<le> k_failures t \<and>
       (k_phase t = StateUp \<longrightarrow> k_failures t = 0 \<and> k_retry t = 0) \<and>
       (k_phase t = StateFailed \<longrightarrow> redialDelay (k_failures t) \<noteq> None))"
  using mgr.run_inv [OF assms, of e]
  by (auto simp: mgr_inv_def row_wf_def tun_ok_def redialDelay_def Let_def)

theorem manager_invariant_witness:
  "let s = run_cmds (mgr_step calm_env) [EvReconcile, EvUp ''alpha'' ''ppp0'' ''10.1.0.2'' ''10.1.0.1'', EvReconcile] demo_sys in
     distinct (map k_name (y_tunnels s)) \<and> mgr_Status ''alpha'' s = (StateUp, ''ppp0'')"
proof -
  have "mgr_Status ''alpha'' (run_cmds (mgr_step calm_env)
      [EvReconcile, EvUp ''alpha'' ''ppp0'' ''10.1.0.2'' ''10.1.0.1'', EvReconcile] demo_sys) = (StateUp, ''ppp0'')"
    by code_simp
  moreover have "\<forall>c \<in> set [EvReconcile, EvUp ''alpha'' ''ppp0'' ''10.1.0.2'' ''10.1.0.1'', EvReconcile]. mgr_allowed c"
    by simp
  note manager_invariant [OF demo_sys_inv this, of calm_env]
  ultimately show ?thesis unfolding Let_def by blast
qed



definition demo_connecting :: tstate where
  "demo_connecting = \<lparr>k_id = 1, k_name = ''alpha'', k_subnets = [''10.1.0.0/16''], k_iface = [],
     k_phase = StateConnecting, k_failures = 0, k_dialed = 101 * Second, k_retry = 0\<rparr>"


section \<open>Backoff\<close>

text \<open>The delay before the next dial doubles with each failure in a row, from ten seconds to five
  minutes; it never shrinks and never overflows.\<close>

theorem redial_backoff:
  assumes "1 \<le> n"
  shows "redialDelay n = Some (min (minRedialDelay * 2 ^ nat (n - 1)) maxRedialDelay) \<and>
    (\<exists>d. redialDelay n = Some d \<and> minRedialDelay \<le> d \<and> d \<le> maxRedialDelay \<and>
      (\<exists>d'. redialDelay (n + 1) = Some d' \<and> d \<le> d'))"
proof -
  have eq: "redialDelay k = Some (min (minRedialDelay * 2 ^ nat (k - 1)) maxRedialDelay)" if k: "1 \<le> k" for k
  proof (cases "k - 1 \<le> 16")
    case True
    have "(2::int) ^ nat (k - 1) \<le> 2 ^ 16" by (rule power_increasing) (use True in auto)
    then have "minRedialDelay * 2 ^ nat (k - 1) \<le> minRedialDelay * 2 ^ 16"
      by (simp add: minRedialDelay_def Second_def)
    also have "\<dots> < 2 ^ 63" by (simp add: minRedialDelay_def Second_def)
    finally have u: "minRedialDelay * 2 ^ nat (k - 1) < 2 ^ 63" .
    have "0 \<le> minRedialDelay * 2 ^ nat (k - 1)" by (simp add: minRedialDelay_def Second_def)
    then have "- (2 ^ 63) \<le> minRedialDelay * 2 ^ nat (k - 1)" by (rule order_trans [rotated]) simp
    then have "wrap64 (minRedialDelay * 2 ^ nat (k - 1)) = minRedialDelay * 2 ^ nat (k - 1)"
      using u by (rule wrap64_id)
    then show ?thesis using True k by (simp add: redialDelay_def)
  next
    case False
    have w: "wrap64 (minRedialDelay * 2 ^ 16) = minRedialDelay * 2 ^ 16"
      by (rule wrap64_id) (simp_all add: minRedialDelay_def Second_def)
    have "(2::int) ^ 16 \<le> 2 ^ nat (k - 1)" by (rule power_increasing) (use False in auto)
    then have "minRedialDelay * 2 ^ 16 \<le> minRedialDelay * 2 ^ nat (k - 1)"
      by (intro mult_left_mono) (simp_all add: minRedialDelay_def Second_def)
    moreover have x: "maxRedialDelay \<le> minRedialDelay * 2 ^ 16"
      by (simp add: minRedialDelay_def maxRedialDelay_def Second_def Minute_def)
    ultimately have "min (minRedialDelay * 2 ^ nat (k - 1)) maxRedialDelay = maxRedialDelay" by linarith
    moreover have "min (minRedialDelay * 2 ^ 16) maxRedialDelay = maxRedialDelay" using x by linarith
    moreover have "min (k - 1) 16 = 16" using False by simp
    then have "redialDelay k = Some (min (wrap64 (minRedialDelay * 2 ^ 16)) maxRedialDelay)"
      unfolding redialDelay_def by (simp only:) simp
    ultimately show ?thesis by (simp only: w)
  qed
  have "(2::int) ^ nat (n - 1) \<le> 2 ^ nat n" by (rule power_increasing) auto
  then have "minRedialDelay * 2 ^ nat (n - 1) \<le> minRedialDelay * 2 ^ nat n"
    by (simp add: minRedialDelay_def Second_def)
  moreover have "minRedialDelay \<le> minRedialDelay * 2 ^ nat (n - 1)" "minRedialDelay \<le> maxRedialDelay"
    by (simp_all add: minRedialDelay_def maxRedialDelay_def Second_def Minute_def)
  ultimately show ?thesis using eq [OF assms] eq [of "n + 1"] assms by (auto simp: min_def)
qed

theorem redial_backoff_witness: "redialDelay 3 = Some (40 * Second)"
  using redial_backoff [of 3] by (simp add: minRedialDelay_def maxRedialDelay_def Second_def Minute_def)

text \<open>A tunnel that failed is left alone until its retry time: \<open>step\<close> only refreshes its key and
  subnets.\<close>

theorem failed_tunnel_waits:
  assumes "mgr_inv s" "the_tunnel (c_name conn) s = Some t" "k_phase t \<in> {StateFailed, StateDisconnected}"
    and "fst (e_now e (y_world s)) < k_retry t"
  shows "step e conn s = s\<lparr>y_tunnels := row_upd k_name (c_name conn) (refresh_t conn) (y_tunnels s),
      y_world := snd (e_now e (y_world s))\<rparr>"
proof -
  have e: "enter conn s = upd_tunnel (c_name conn) (refresh_t conn) s"
    using assms(2) by (simp add: enter_def refresh_t_def [abs_def])
  have wf: "row_wf k_name (y_tunnels s)" using assms(1) by (simp add: mgr_inv_def)
  have "the_tunnel (c_name conn) (enter conn s) = Some (refresh_t conn t)"
    using row_table.sel_upd [OF row_table_rows wf, of "refresh_t conn" "c_name conn" "c_name conn"] assms(2)
    by (simp add: e the_tunnel_def) (simp add: refresh_t_def)
  moreover have "in_world (e_now e) (enter conn s) =
      (fst (e_now e (y_world s)), (enter conn s)\<lparr>y_world := snd (e_now e (y_world s))\<rparr>)"
    by (simp add: in_world_def case_prod_beta e upd_tunnel_def)
  moreover have "k_phase (refresh_t conn t) = k_phase t" "k_retry (refresh_t conn t) = k_retry t"
    by (simp_all add: refresh_t_def)
  ultimately show ?thesis
    using assms(3,4) by (auto simp: step_def Let_def step_from_def e upd_tunnel_def)
qed

theorem failed_tunnel_waits_witness:
  "let s = demo_sys\<lparr>y_tunnels := [demo_connecting\<lparr>k_phase := StateFailed, k_failures := 1, k_retry := 1000 * Second\<rparr>]\<rparr> in
   y_tunnels (step calm_env (demo_conn ''alpha'' [''10.1.0.0/16'']) s) =
   [demo_connecting\<lparr>k_id := 0, k_phase := StateFailed, k_failures := 1, k_retry := 1000 * Second\<rparr>]"
proof -
  let ?t = "demo_connecting\<lparr>k_phase := StateFailed, k_failures := 1, k_retry := 1000 * Second\<rparr>"
  let ?s = "demo_sys\<lparr>y_tunnels := [?t]\<rparr>" and ?c = "demo_conn ''alpha'' [''10.1.0.0/16'']"
  have "mgr_inv ?s"
    using demo_db_wf by (simp add: mgr_inv_def demo_sys_def new_sys_def row_wf_def tun_ok_def demo_connecting_def)
  moreover have "the_tunnel (c_name ?c) ?s = Some ?t" by (simp add: the_tunnel_def row_sel_def demo_conn_def demo_connecting_def)
  moreover have "k_phase ?t \<in> {StateFailed, StateDisconnected}" by simp
  moreover have "fst (e_now calm_env (y_world ?s)) < k_retry ?t"
    by (simp add: calm_env_def demo_sys_def new_sys_def Second_def)
  ultimately have "step calm_env ?c ?s = ?s\<lparr>y_tunnels := row_upd k_name (c_name ?c) (refresh_t ?c) (y_tunnels ?s),
      y_world := snd (e_now calm_env (y_world ?s))\<rparr>" by (rule failed_tunnel_waits)
  then show ?thesis by (simp add: row_upd_def refresh_t_def demo_conn_def demo_connecting_def)
qed

text \<open>The loop never sleeps less than a second, nor longer than a tick, nor past a pending retry
  by more than that second.\<close>

theorem next_wake_bounds:
  "Second \<le> nextRetry_at tick now ts \<and> nextRetry_at tick now ts \<le> max tick Second \<and>
   (\<forall>t. t \<in> set ts \<and> now < k_retry t \<and> k_retry t \<noteq> 0 \<longrightarrow> nextRetry_at tick now ts \<le> max (k_retry t - now) Second)"
proof -
  let ?f = "\<lambda>wait t. if k_retry t = 0 \<or> \<not> now < k_retry t then wait else min wait (time_Sub (k_retry t) now)"
  have m: "foldl ?f w ts \<le> w" for w ts
  proof (induction ts arbitrary: w)
    case Nil
    then show ?case by simp
  next
    case (Cons t ts)
    from Cons.IH [of "?f w t"] show ?case by (auto split: if_splits)
  qed
  have p: "foldl ?f w ts \<le> k_retry t - now" if "t \<in> set ts" "now < k_retry t" "k_retry t \<noteq> 0" for w t
    using that
  proof (induction ts arbitrary: w)
    case Nil
    then show ?case by simp
  next
    case (Cons u ts)
    show ?case
    proof (cases "t = u")
      case True
      have "foldl ?f (?f w u) ts \<le> ?f w u" by (rule m)
      also have "\<dots> \<le> k_retry t - now" using True Cons.prems by (auto simp: time_Sub_def)
      finally show ?thesis by simp
    next
      case False
      then show ?thesis using Cons.IH [of "?f w u"] Cons.prems by simp
    qed
  qed
  have "nextRetry_at tick now ts \<le> max (k_retry t - now) Second"
    if "t \<in> set ts" "now < k_retry t" "k_retry t \<noteq> 0" for t
    unfolding nextRetry_at_def by (rule max.mono) (rule p [OF that], simp)
  moreover have "nextRetry_at tick now ts \<le> max tick Second"
    unfolding nextRetry_at_def by (rule max.mono) (rule m, simp)
  ultimately show ?thesis by (simp add: nextRetry_at_def)
qed

theorem next_wake_bounds_witness:
  "nextRetry_at defaultTick 0 [demo_connecting\<lparr>k_retry := 10 * Second\<rparr>] \<le> 10 * Second"
proof -
  have "demo_connecting\<lparr>k_retry := 10 * Second\<rparr> \<in> set [demo_connecting\<lparr>k_retry := 10 * Second\<rparr>]" by simp
  moreover have "0 < k_retry (demo_connecting\<lparr>k_retry := 10 * Second\<rparr>)" by (simp add: Second_def)
  ultimately have "nextRetry_at defaultTick 0 [demo_connecting\<lparr>k_retry := 10 * Second\<rparr>] \<le>
      max (k_retry (demo_connecting\<lparr>k_retry := 10 * Second\<rparr>) - 0) Second"
    using next_wake_bounds [of defaultTick 0 "[demo_connecting\<lparr>k_retry := 10 * Second\<rparr>]"] by auto
  then show ?thesis by (simp add: Second_def)
qed

section \<open>Reconciling\<close>

lemma enter_names: "k_name ` set (y_tunnels (enter conn s)) = insert (c_name conn) (k_name ` set (y_tunnels s))"
proof -
  have u: "k_name ` set (row_upd k_name n (refresh_t conn) ts) = k_name ` set ts" for n ts
    unfolding row_upd_def by (rule keys_map) (simp add: refresh_t_def)
  have e: "y_tunnels (enter conn s) = row_upd k_name (c_name conn) (refresh_t conn)
      (if the_tunnel (c_name conn) s = None then row_ins (new_tunnel conn) (y_tunnels s) else y_tunnels s)"
    by (simp add: enter_def Let_def refresh_t_def [abs_def])
  show ?thesis
  proof (cases "the_tunnel (c_name conn) s")
    case None
    then show ?thesis by (simp add: e u row_ins_def new_tunnel_def)
  next
    case (Some t)
    then have "c_name conn \<in> k_name ` set (y_tunnels s)" unfolding the_tunnel_def by (rule row_sel_key_mem)
    then show ?thesis using Some by (auto simp: e u)
  qed
qed

lemma names_upd: "(\<And>t. k_name (f t) = k_name t) \<Longrightarrow> k_name ` set (row_upd k_name n f ts) = k_name ` set ts"
  unfolding row_upd_def by (rule keys_map) simp

lemma moved_names [simp]:
  "k_name (reset_t t) = k_name t" "k_name (failed_t now t) = k_name t" "k_name (refused_t now t) = k_name t"
  "k_name (dialled_t now t) = k_name t" "k_name (up_t i t) = k_name t" "k_name (down_t now t) = k_name t"
  by (simp_all add: moved_defs)

lemma fail_names: "k_name ` set (y_tunnels (fail e name iface reason s)) = k_name ` set (y_tunnels s)"
proof -
  obtain now where f: "y_tunnels (fail e name iface reason s) = row_upd k_name name (failed_t now) (y_tunnels s)"
    using fail_tunnels by blast
  show ?thesis unfolding f by (rule names_upd) simp
qed

lemma dial_names: "k_name ` set (y_tunnels (dial e name s)) = k_name ` set (y_tunnels s)"
proof -
  obtain now f where f: "f \<in> {refused_t now, dialled_t now}" "y_tunnels (dial e name s) = row_upd k_name name f (y_tunnels s)"
    using dial_tunnels by blast
  show ?thesis unfolding f(2) by (rule names_upd) (use f(1) in auto)
qed

lemma step_names: "k_name ` set (y_tunnels (step e conn s)) = insert (c_name conn) (k_name ` set (y_tunnels s))"
proof -
  have "k_name ` set (y_tunnels (step_from e conn t now s')) = k_name ` set (y_tunnels s')" for t now s'
    by (simp add: step_from_def fail_names dial_names split: db_state.split)
  then show ?thesis using enter_names [of conn s] by (simp add: step_def Let_def case_prod_beta split: option.split)
qed

lemma steps_names:
  "k_name ` set (y_tunnels (foldl (\<lambda>s c. step e c s) s conns)) = c_name ` set conns \<union> k_name ` set (y_tunnels s)"
  by (induction conns arbitrary: s) (auto simp: step_names)

lemma redefines_names: "k_name ` set (y_tunnels (foldl (\<lambda>s t. redefine e t s) s ts)) = k_name ` set (y_tunnels s)"
  by (induction ts arbitrary: s) (simp_all add: names_upd)

text \<open>C31: When a turn of the loop gets as far as writing the configuration, the manager has a tunnel for
  every enabled connection and for nothing else, with the key and the subnets of the connection.\<close>

theorem reconcile_tracks_enabled:
  assumes "Reconcile e s = (Inr (), s')" "ListConnections (y_store s) = Inr conns"
  shows "k_name ` set (y_tunnels s') = c_name ` set (filter c_enabled conns)"
proof -
  let ?en = "filter c_enabled conns"
  let ?D = "c_name ` set ?en"
  let ?s2 = "foldl (\<lambda>s t. disconnect e t s) (snd (staleTunnels ?D s)) (fst (staleTunnels ?D s))"
  let ?w = "writeConfigs e ?en ?s2"
  obtain ch where w: "fst ?w = Inr ch"
    using assms by (cases "fst ?w") (auto simp: Reconcile_def Let_def case_prod_beta)
  let ?s5 = "foldl (\<lambda>s c. step e c s) (foldl (\<lambda>s t. redefine e t s) (snd ?w) ch) ?en"
  have "advertise e ?s5 = (Inr (), s')" using assms w by (simp add: Reconcile_def Let_def case_prod_beta)
  then have "y_tunnels s' = y_tunnels ?s5" using advertise_frames(1) [of e ?s5] by simp
  moreover have "y_tunnels (snd ?w) = filter (\<lambda>t. k_name t \<in> ?D) (y_tunnels s)"
    by (simp add: foldl_tunnels_same) (simp add: staleTunnels_def)
  ultimately have "k_name ` set (y_tunnels s') = ?D \<union> k_name ` set (filter (\<lambda>t. k_name t \<in> ?D) (y_tunnels s))"
    by (simp only: steps_names redefines_names)
  then show ?thesis by auto
qed

theorem reconcile_tracks_enabled_witness:
  "k_name ` set (y_tunnels (snd (Reconcile calm_env demo_sys))) = {''alpha''}"
proof -
  have "fst (Reconcile calm_env demo_sys) = Inr ()" by code_simp
  note r = run_result [OF this]
  have "ListConnections (y_store demo_sys) = Inr [scanConnection demo_row]" by code_simp
  from reconcile_tracks_enabled [OF r this] show ?thesis by (simp add: scanConnection_def demo_row_def)
qed

section \<open>Change detection\<close>

lemma fingerprint_nonempty [simp]: "fingerprint t \<noteq> []" "[] \<noteq> fingerprint t"
  by (simp_all add: fingerprint_def)

lemma fingerprints_lookup:
  assumes "distinct (map t_name ts)"
  shows "row_wf fst (fingerprintsOf ts) \<and> length (fingerprintsOf ts) = length ts \<and>
    (\<forall>k. row_sel fst k (fingerprintsOf ts) = map_option (\<lambda>t. (k, fingerprint t)) (find (\<lambda>t. t_name t = k) ts))"
proof -
  let ?add = "\<lambda>prints t. row_upsert fst (t_name t, fingerprint t) prints"
  have "row_wf fst (foldl ?add m ts) \<and> length (foldl ?add m ts) = length m + length ts \<and>
      (\<forall>k. row_sel fst k (foldl ?add m ts) = (case find (\<lambda>t. t_name t = k) ts of Some t \<Rightarrow> Some (k, fingerprint t) | None \<Rightarrow> row_sel fst k m))"
    if "row_wf fst m" "fst ` set m \<inter> t_name ` set ts = {}" for m
    using assms that
  proof (induction ts arbitrary: m)
    case Nil
    then show ?case by simp
  next
    case (Cons t ts)
    let ?m = "row_upsert fst (t_name t, fingerprint t) m"
    have "\<not> (\<exists>x \<in> set m. fst x = t_name t)" using Cons.prems(3) by (force simp: disjoint_iff image_iff)
    then have m: "?m = m @ [(t_name t, fingerprint t)]" by (simp add: row_upsert_def row_ins_def)
    have wf: "row_wf fst ?m" by (rule row_upsert_sel(2) [OF Cons.prems(2)])
    have dj: "fst ` set ?m \<inter> t_name ` set ts = {}" using Cons.prems(1,3) by (auto simp: m)
    have "find (\<lambda>u. t_name u = t_name t) ts = None" using Cons.prems(1) by (auto simp: find_None_iff image_iff)
    then show ?case
      using Cons.IH [OF _ wf dj] Cons.prems(1) row_upsert_sel(1) [OF Cons.prems(2), of _ "(t_name t, fingerprint t)"]
      by (auto simp: m split: option.splits)
  qed
  from this [of "[]"] have "row_wf fst (fingerprintsOf ts)" "length (fingerprintsOf ts) = length ts"
    "row_sel fst k (fingerprintsOf ts) = (case find (\<lambda>t. t_name t = k) ts of Some t \<Rightarrow> Some (k, fingerprint t) | None \<Rightarrow> row_sel fst k [])" for k
    by (simp_all add: fingerprintsOf_def row_wf_def)
  moreover have "row_sel fst k ([] :: (string \<times> string) list) = None" for k by (simp add: row_sel_def)
  ultimately show ?thesis by (simp split: option.split)
qed

lemma go_index_prints:
  assumes "distinct (map t_name ts)" "t \<in> set ts"
  shows "go_index (fingerprintsOf ts) (t_name t) = fingerprint t"
proof -
  have "find (\<lambda>u. t_name u = t_name t) ts = Some t" using assms by (induction ts) (auto simp: image_iff)
  then show ?thesis using fingerprints_lookup [OF assms(1)] by (simp add: go_index_def)
qed



text \<open>Between tunnels whose fields hold no bar, and whose subnets hold no comma, the fingerprint
  tells every difference that matters to the daemons.\<close>

theorem fingerprint_injective:
  assumes "fingerprint t = fingerprint u"
    and "\<forall>x \<in> {t_host t, t_addr t, t_psk t, t_user t, t_pass t, t_host u, t_addr u, t_psk u, t_user u, t_pass u}. CHR ''|'' \<notin> set x"
    and "t_subnets t \<noteq> []" "t_subnets u \<noteq> []"
    and "\<forall>x \<in> set (t_subnets t) \<union> set (t_subnets u). CHR ''|'' \<notin> set x \<and> CHR '','' \<notin> set x"
  shows "t_host t = t_host u \<and> t_addr t = t_addr u \<and> t_psk t = t_psk u \<and> t_user t = t_user u \<and>
    t_pass t = t_pass u \<and> t_subnets t = t_subnets u"
proof -
  have j: "CHR ''|'' \<notin> set (join '','' xs)" if "\<forall>x \<in> set xs. CHR ''|'' \<notin> set x" for xs
    using set_join [of "'',''" xs] that by auto
  have "[t_host t, t_addr t, t_psk t, t_user t, t_pass t, join '','' (t_subnets t)] =
      [t_host u, t_addr u, t_psk u, t_user u, t_pass u, join '','' (t_subnets u)]"
    by (rule join_inject [OF assms(1) [unfolded fingerprint_def]]) (use assms(2,5) j in auto)
  then have eq: "t_host t = t_host u" "t_addr t = t_addr u" "t_psk t = t_psk u" "t_user t = t_user u"
    "t_pass t = t_pass u" "join '','' (t_subnets t) = join '','' (t_subnets u)" by simp_all
  moreover have "t_subnets t = t_subnets u" by (rule join_inject [OF eq(6) assms(3,4)]) (use assms(5) in auto)
  ultimately show ?thesis by simp
qed

theorem fingerprint_injective_witness: "t_psk demo_tunnel = t_psk (demo_tunnel\<lparr>t_name := ''beta''\<rparr>)"
proof -
  have "fingerprint demo_tunnel = fingerprint (demo_tunnel\<lparr>t_name := ''beta''\<rparr>)" by (simp add: fingerprint_def)
  from fingerprint_injective [OF this] show ?thesis by (simp add: demo_tunnel_def)
qed

text \<open>Fields may hold a bar, so an edit that moves one between the pre-shared key and the user name
  keeps the fingerprint: the daemons go on with the old credentials.\<close>

theorem fingerprint_misses_edit:
  "let t = demo_tunnel\<lparr>t_psk := ''x|y'', t_user := ''z''\<rparr>; u = demo_tunnel\<lparr>t_psk := ''x'', t_user := ''y|z''\<rparr>
   in tunnel_safe t \<and> tunnel_safe u \<and> t \<noteq> u \<and> changedTunnels (fingerprintsOf [t]) (fingerprintsOf [u]) [u] = [] \<and>
      RenderSwanctl [t] \<noteq> RenderSwanctl [u]"
proof -
  let ?t = "demo_tunnel\<lparr>t_psk := ''x|y'', t_user := ''z''\<rparr>" and ?u = "demo_tunnel\<lparr>t_psk := ''x'', t_user := ''y|z''\<rparr>"
  have s: "tunnel_safe ?t" "tunnel_safe ?u" by code_simp+
  have f: "fingerprint ?t = fingerprint ?u" by (simp add: fingerprint_def)
  have "settings ''        secret = '' (RenderSwanctl [?t]) \<noteq> settings ''        secret = '' (RenderSwanctl [?u])"
    using s by (simp add: settings_def swanctl_lines swanctl_keys HasPrefix_rec)
  then have "RenderSwanctl [?t] \<noteq> RenderSwanctl [?u]" by auto
  moreover have "changedTunnels (fingerprintsOf [?t]) (fingerprintsOf [?u]) [?u] = []"
    using f by (simp add: changedTunnels_def fingerprintsOf_def row_upsert_def row_ins_def go_index_def row_sel_def)
  ultimately show ?thesis using s by (simp add: Let_def demo_tunnel_def)
qed

section \<open>Nothing to do\<close>

lemma desiredTunnels_run: "desiredTunnels (e\<lparr>e_run := run\<rparr>) conns s = desiredTunnels e conns s"
  by (induction conns arbitrary: s) (simp_all add: case_prod_beta Let_def split: sum.split)

lemma desiredTunnels_keeps:
  "y_rendered (snd (desiredTunnels e conns s)) = y_rendered s \<and> y_advertised (snd (desiredTunnels e conns s)) = y_advertised s"
proof (induction conns arbitrary: s)
  case Nil
  then show ?case by simp
next
  case (Cons c conns)
  then show ?case by (simp add: case_prod_beta Let_def in_world_def logf_def split: sum.split)
qed

lemma advertised_sorted: "AdvertisedRoutes st = Inr rs \<Longrightarrow> sorted rs"
  by (auto simp: AdvertisedRoutes_def bindr_Inr_iff)

text \<open>An entry that is up and already carries the connection's key and subnets.\<close>

definition settled :: "connection \<Rightarrow> tstate list \<Rightarrow> bool" where
  "settled conn ts \<longleftrightarrow> (\<exists>t. row_sel k_name (c_name conn) ts = Some t \<and> k_phase t = StateUp \<and>
     k_id t = c_id conn \<and> k_subnets t = c_subnets conn)"

lemma row_upd_settled:
  assumes "row_wf k_name ts" "row_sel k_name n ts = Some t" "f t = t"
  shows "row_upd k_name n f ts = ts"
proof -
  have "(if k_name r = n then f r else r) = r" if "r \<in> set ts" for r
    using row_sel_member [OF assms(1) that] assms(2,3) by auto
  then show ?thesis by (simp add: row_upd_def map_idI)
qed

lemma step_settled:
  assumes "row_wf k_name (y_tunnels s)" "settled conn (y_tunnels s)"
  shows "step e conn s = snd (in_world (e_now e) s)"
proof -
  obtain t where t: "the_tunnel (c_name conn) s = Some t" "k_phase t = StateUp" "k_id t = c_id conn" "k_subnets t = c_subnets conn"
    using assms(2) by (auto simp: settled_def the_tunnel_def)
  have "row_upd k_name (c_name conn) (\<lambda>t. t\<lparr>k_id := c_id conn, k_subnets := c_subnets conn\<rparr>) (y_tunnels s) = y_tunnels s"
    by (rule row_upd_settled [OF assms(1)]) (use t in \<open>auto simp: the_tunnel_def\<close>)
  then have "enter conn s = s" using t(1) by (simp add: enter_def upd_tunnel_def)
  then show ?thesis using t by (simp add: step_def Let_def case_prod_beta step_from_def)
qed

lemma steps_settled:
  assumes "row_wf k_name (y_tunnels s)" "\<forall>c \<in> set conns. settled c (y_tunnels s)"
  shows "foldl (\<lambda>s c. step e c s) s conns = foldl (\<lambda>s c. snd (in_world (e_now e) s)) s conns"
  using assms
proof (induction conns arbitrary: s)
  case Nil
  then show ?case by simp
next
  case (Cons c conns)
  then show ?case by (simp add: step_settled)
qed

lemma readings_world: "\<exists>w. foldl (\<lambda>s c. snd (in_world (e_now e) s)) s conns = s\<lparr>y_world := w\<rparr>"
proof (induction conns arbitrary: s)
  case Nil
  show ?case by (rule exI [of _ "y_world s"]) simp
next
  case (Cons c conns)
  have "snd (in_world (e_now e) s) = s\<lparr>y_world := snd (e_now e (y_world s))\<rparr>"
    by (simp add: in_world_def case_prod_beta)
  with Cons.IH [of "snd (in_world (e_now e) s)"] show ?case by auto
qed

text \<open>When the configuration is loaded, the routes are advertised and every enabled connection is up,
  a turn of the loop resolves the gateways, reads the clock and runs no command at all.\<close>

theorem idle_reconcile_runs_nothing:
  assumes inv: "mgr_inv s" and conns: "ListConnections (y_store s) = Inr conns"
    and up: "\<forall>c \<in> set (filter c_enabled conns). settled c (y_tunnels s)"
    and only: "k_name ` set (y_tunnels s) \<subseteq> c_name ` set (filter c_enabled conns)"
    and ts: "desiredTunnels e (filter c_enabled conns) s = (Inr ts, s1)" and cfg: "y_rendered s = fingerprintsOf ts"
    and adv: "AdvertisedRoutes (y_store s) = Inr rs" "y_advertised s = join '','' rs"
  shows "\<exists>w. \<forall>run. Reconcile (e\<lparr>e_run := run\<rparr>) s = (Inr (), s1\<lparr>y_world := w\<rparr>)"
proof -
  let ?en = "filter c_enabled conns"
  have s1: "y_tunnels s1 = y_tunnels s" "y_store s1 = y_store s" "y_rendered s1 = y_rendered s" "y_advertised s1 = y_advertised s"
    using desiredTunnels_frames [of e ?en s] desiredTunnels_keeps [of e ?en s] ts by simp_all
  have keep: "\<forall>t \<in> set (y_tunnels s). k_name t \<in> c_name ` set ?en" using only by auto
  have st: "staleTunnels (c_name ` set ?en) s = ([], s)"
    using keep by (simp add: staleTunnels_def filter_empty_conv filter_True del: set_filter)
  have w: "writeConfigs (e\<lparr>e_run := run\<rparr>) ?en s = (Inr [], s1)" for run
    by (simp add: writeConfigs_def desiredTunnels_run ts s1 cfg changedTunnels_def)
  let ?s5 = "foldl (\<lambda>s c. snd (in_world (e_now e) s)) s1 ?en"
  have steps: "foldl (\<lambda>s c. step (e\<lparr>e_run := run\<rparr>) c s) s1 ?en = ?s5" for run
    using steps_settled [of s1 ?en "e\<lparr>e_run := run\<rparr>"] inv up s1 by (simp add: mgr_inv_def)
  obtain w5 where w5: "?s5 = s1\<lparr>y_world := w5\<rparr>" using readings_world [of e s1 ?en] by blast
  have "sort rs = rs" using advertised_sorted [OF adv(1)] by (simp add: sorted_sort_id)
  then have "advertise (e\<lparr>e_run := run\<rparr>) (s1\<lparr>y_world := w5\<rparr>) = (Inr (), s1\<lparr>y_world := w5\<rparr>)" for run
    using adv s1 by (simp add: advertise_def Let_def)
  then have "Reconcile (e\<lparr>e_run := run\<rparr>) s = (Inr (), s1\<lparr>y_world := w5\<rparr>)" for run
    using conns st w steps w5 by (simp add: Reconcile_def Let_def)
  then show ?thesis by blast
qed

definition idle_sys :: "int sys" where
  "idle_sys = demo_sys\<lparr>y_tunnels := [demo_connecting\<lparr>k_phase := StateUp, k_iface := ''ppp0''\<rparr>], y_advertised := ''10.1.0.0/16''\<rparr>"

theorem idle_reconcile_runs_nothing_witness:
  "\<exists>w. \<forall>run. Reconcile (calm_env\<lparr>e_run := run\<rparr>) idle_sys = (Inr (), idle_sys\<lparr>y_world := w\<rparr>)"
proof -
  have inv: "mgr_inv idle_sys"
    using demo_db_wf by (simp add: mgr_inv_def idle_sys_def demo_sys_def new_sys_def row_wf_def tun_ok_def demo_connecting_def)
  have c: "ListConnections (y_store idle_sys) = Inr [scanConnection demo_row]" by code_simp
  have sp: "splitSubnets ''10.1.0.0/16'' = [''10.1.0.0/16'']" by code_simp
  have en: "filter c_enabled [scanConnection demo_row] = [scanConnection demo_row]" by (simp add: demo_row_def)
  have up: "\<forall>c \<in> set (filter c_enabled [scanConnection demo_row]). settled c (y_tunnels idle_sys)"
    by (simp add: settled_def idle_sys_def row_sel_def demo_connecting_def demo_row_def sp)
  have only: "k_name ` set (y_tunnels idle_sys) \<subseteq> c_name ` set (filter c_enabled [scanConnection demo_row])"
    by (simp add: idle_sys_def demo_connecting_def demo_row_def)
  have sec: "ConnectionSecrets 1 (y_store idle_sys) = Inr \<lparr>s_psk = ''k3y'', s_pass = ''p4ss''\<rparr>" by code_simp
  have ts: "desiredTunnels calm_env (filter c_enabled [scanConnection demo_row]) idle_sys = (Inr [demo_tunnel], idle_sys)"
    using sec sp by (simp add: en in_world_def calm_env_def demo_row_def FromConnection_def demo_tunnel_def)
  have cfg: "y_rendered idle_sys = fingerprintsOf [demo_tunnel]"
    by (simp add: idle_sys_def demo_sys_def fingerprintsOf_def row_upsert_def row_ins_def demo_tunnel_def)
  have adv: "AdvertisedRoutes (y_store idle_sys) = Inr [''10.1.0.0/16'']" by code_simp
  have a: "y_advertised idle_sys = join '','' [''10.1.0.0/16'']" by (simp add: idle_sys_def)
  show ?thesis by (rule idle_reconcile_runs_nothing [OF inv c up only ts cfg adv a])
qed

end
