(* ===== verification/NetProps.thy ===== *)
theory NetProps
  imports ManagerProps
begin

text \<open>
  Routes and NAT rules across the life of an interface, on any kernel that behaves as documented
  (\<open>kernel_like\<close>), with a concrete kernel as an instance; and two orders of events the manager
  does not expect.
\<close>

section \<open>A concrete kernel\<close>

record kern =
  kn_routes :: "(string \<times> string) list"
  kn_rules :: "rule list"
  kn_time :: time

definition kern_ip :: "string list \<Rightarrow> kern \<Rightarrow> (string + string) \<times> kern" where
  "kern_ip args k = (case args of
     [_, verb, s, _, d] \<Rightarrow>
       if verb = ''replace'' \<and> d = ''ppp9'' then (Inl ''Cannot find device ppp9'', k)
       else if verb = ''replace'' then (Inr [], k\<lparr>kn_routes := (s, d) # filter (\<lambda>x. fst x \<noteq> s) (kn_routes k)\<rparr>)
       else if (s, d) \<in> set (kn_routes k) then (Inr [], k\<lparr>kn_routes := filter (\<lambda>x. x \<noteq> (s, d)) (kn_routes k)\<rparr>)
       else (Inl ''RTNETLINK answers: No such process'', k)
   | _ \<Rightarrow> (Inl ''usage'', k))"

definition kern_ipt :: "string list \<Rightarrow> kern \<Rightarrow> (string + string) \<times> kern" where
  "kern_ipt args k = (case args of
     _ # tb # flag # ch # spec \<Rightarrow>
       (let r = \<lparr>ru_table = tb, ru_chain = ch, ru_spec = spec\<rparr>
        in if flag = ''-A'' then (Inr [], k\<lparr>kn_rules := kn_rules k @ [r]\<rparr>)
           else if r \<notin> set (kn_rules k) then (Inl ''iptables: Bad rule (does a matching rule exist in that chain?).'', k)
           else if flag = ''-D'' then (Inr [], k\<lparr>kn_rules := remove1 r (kn_rules k)\<rparr>)
           else (Inr [], k))
   | _ \<Rightarrow> (Inl ''usage'', k))"

definition kern_run :: "kern runner" where
  "kern_run c k =
     (if cmd_path c = ''ip'' then kern_ip (cmd_args c) k
      else if cmd_path c = ''iptables'' then kern_ipt (cmd_args c) k
      else (Inr [], k))"

lemmas kern_run_defs = kern_run_def ip_route_def iptables_def mk_command_def kern_ip_def kern_ipt_def Let_def

text \<open>This kernel keeps what the tools promise.\<close>

interpretation table_kernel: kernel_like kern_run "\<lambda>k. set (kn_routes k)" "\<lambda>k. mset (kn_rules k)"
proof unfold_locales
  fix s d :: string and w w' :: kern and r
  assume "kern_run (ip_route ''replace'' s d) w = (r, w')"
  then show "mset (kn_rules w') = mset (kn_rules w) \<and>
      set (kn_routes w') = (case r of Inr _ \<Rightarrow> {x \<in> set (kn_routes w). fst x \<noteq> s} \<union> {(s, d)} | Inl _ \<Rightarrow> set (kn_routes w))"
    by (auto simp: kern_run_defs split: if_splits)
next
  fix s d :: string and w w' :: kern and r
  assume "kern_run (ip_route ''del'' s d) w = (r, w')"
  then show "mset (kn_rules w') = mset (kn_rules w) \<and>
      (case r of Inr _ \<Rightarrow> set (kn_routes w') = set (kn_routes w) - {(s, d)}
       | Inl e \<Rightarrow> set (kn_routes w') = set (kn_routes w) \<and> (alreadyGone e \<longrightarrow> (s, d) \<notin> set (kn_routes w)))"
    by (auto simp: kern_run_defs split: if_splits)
next
  fix u :: rule and w w' :: kern and r
  assume "kern_run (iptables ''-C'' u) w = (r, w')"
  then show "set (kn_routes w') = set (kn_routes w) \<and> mset (kn_rules w') = mset (kn_rules w) \<and>
      ((\<exists>out. r = Inr out) \<longleftrightarrow> u \<in># mset (kn_rules w))"
    by (cases u) (auto simp: kern_run_defs split: if_splits)
next
  fix u :: rule and w w' :: kern and r
  assume "kern_run (iptables ''-A'' u) w = (r, w')"
  then show "set (kn_routes w') = set (kn_routes w) \<and>
      mset (kn_rules w') = (case r of Inr _ \<Rightarrow> add_mset u (mset (kn_rules w)) | Inl _ \<Rightarrow> mset (kn_rules w))"
    by (cases u) (auto simp: kern_run_defs split: if_splits)
next
  fix u :: rule and w w' :: kern and r
  assume "kern_run (iptables ''-D'' u) w = (r, w')"
  then show "set (kn_routes w') = set (kn_routes w) \<and>
      (case r of Inr _ \<Rightarrow> mset (kn_rules w') = mset (kn_rules w) - {#u#}
       | Inl e \<Rightarrow> mset (kn_rules w') = mset (kn_rules w) \<and> (alreadyGone e \<longrightarrow> u \<notin># mset (kn_rules w)))"
    by (cases u) (auto simp: kern_run_defs split: if_splits)
qed

section \<open>Setting up and tearing down\<close>

text \<open>A deletion fails only because the object has gone, and reading the clock changes no route or rule.\<close>

definition deletes_ok :: "'w runner \<Rightarrow> bool" where
  "deletes_ok run \<longleftrightarrow>
     (\<forall>w s d. case run (ip_route ''del'' s d) w of (Inl e, _) \<Rightarrow> alreadyGone e | _ \<Rightarrow> True) \<and>
     (\<forall>w r. case run (iptables ''-D'' r) w of (Inl e, _) \<Rightarrow> alreadyGone e | _ \<Rightarrow> True)"

definition clock_apart :: "'w env \<Rightarrow> ('w \<Rightarrow> (string \<times> string) set) \<Rightarrow> ('w \<Rightarrow> rule multiset) \<Rightarrow> bool" where
  "clock_apart e routes rules \<longleftrightarrow> (\<forall>w. routes (snd (e_now e w)) = routes w \<and> rules (snd (e_now e w)) = rules w)"

lemma removeRoutes_total: "deletes_ok run \<Longrightarrow> fst (removeRoutes run iface ss w) = Inr ()"
proof (induction ss arbitrary: w)
  case Nil
  then show ?case by simp
next
  case (Cons s ss)
  then have "case run (ip_route ''del'' s iface) w of (Inl e, _) \<Rightarrow> alreadyGone e | _ \<Rightarrow> True"
    by (simp add: deletes_ok_def)
  then show ?case using Cons by (auto split: prod.splits sum.splits)
qed

lemma delete_each_total: "deletes_ok run \<Longrightarrow> fst (delete_each run rs w) = Inr ()"
proof (induction rs arbitrary: w)
  case Nil
  then show ?case by simp
next
  case (Cons r rs)
  then have "case run (iptables ''-D'' r) w of (Inl e, _) \<Rightarrow> alreadyGone e | _ \<Rightarrow> True"
    by (simp add: deletes_ok_def)
  then show ?case using Cons by (auto split: prod.splits sum.splits)
qed

lemma in_world_fst: "fst (in_world f s) = fst (f (y_world s))" "y_world (snd (in_world f s)) = snd (f (y_world s))"
  by (simp_all add: in_world_def case_prod_beta)

lemma frame_world [simp]:
  "y_world (logf m s) = y_world s" "y_world (upd_tunnel name g s) = y_world s" "y_world (Nudge s) = y_world s"
  "y_world (snd (put_status e st s)) = y_world s" "y_world (setStatus e i p r s) = y_world s"
  by (simp_all add: logf_def upd_tunnel_def Nudge_def put_status_def setStatus_def case_prod_beta split: sum.split)

lemma tearDown_effect:
  assumes k: "kernel_like (e_run e) routes rules" and d: "deletes_ok (e_run e)" and i: "iface \<noteq> []"
  shows "routes (y_world (tearDown e name iface ss s)) = routes (y_world s) - (\<lambda>x. (x, iface)) ` set ss \<and>
    rules (y_world (tearDown e name iface ss s)) = rules (y_world s) - mset (natRules iface)"
proof -
  let ?r = "removeRoutes (e_run e) iface ss (y_world s)"
  let ?n = "disableNAT (e_run e) iface (snd ?r)"
  have r: "?r = (Inr (), snd ?r)" using removeRoutes_total [OF d, of iface ss "y_world s"] by (simp add: prod_eq_iff)
  have n: "?n = (Inr (), snd ?n)"
    using delete_each_total [OF d, of "natRules iface" "snd ?r"] by (simp add: prod_eq_iff disableNAT_def)
  have f: "fst (in_world (removeRoutes (e_run e) iface ss) s) = Inr ()"
    using removeRoutes_total [OF d] by (simp only: in_world_fst)
  have w: "y_world (tearDown e name iface ss s) = snd ?n"
    using i r n by (simp add: tearDown_def tearDownInterface_def case_prod_beta Let_def f in_world_fst split: sum.split)
  from kernel_like.removeRoutes_effect [OF k r] kernel_like.delete_each_effect [OF k n [unfolded disableNAT_def]] show ?thesis
    unfolding w by (simp add: disableNAT_def)
qed

lemma fail_effect:
  assumes k: "kernel_like (e_run e) routes rules" and d: "deletes_ok (e_run e)" and c: "clock_apart e routes rules"
    and i: "iface \<noteq> []" and t: "the_tunnel name s = Some t"
  shows "routes (y_world (fail e name iface reason s)) = routes (y_world s) - (\<lambda>x. (x, iface)) ` set (k_subnets t) \<and>
    rules (y_world (fail e name iface reason s)) = rules (y_world s) - mset (natRules iface)"
  using tearDown_effect [OF k d i] c t
  by (simp add: fail_def case_prod_beta Let_def in_world_fst clock_apart_def)

lemma the_tunnel_frame: "y_tunnels s' = y_tunnels s \<Longrightarrow> the_tunnel name s' = the_tunnel name s"
  by (simp add: the_tunnel_def)

text \<open>C13: An interface that comes up gets a route for each subnet and its NAT rules once; when it goes
  down again, its routes and rules are gone and every other rule is as before.\<close>

theorem up_then_down_restores:
  assumes k: "kernel_like (e_run e) routes rules" and d: "deletes_ok (e_run e)" and c: "clock_apart e routes rules"
    and i: "iface \<noteq> []" and t: "the_tunnel name s = Some t"
    and up: "PPPUp e name iface l p s = (Inr (), s1)"
    and fresh: "set (natRules iface) \<inter> set_mset (rules (y_world s)) = {}"
  shows "(\<lambda>x. (x, iface)) ` set (k_subnets t) \<subseteq> routes (y_world s1) \<and>
    rules (y_world s1) = rules (y_world s) + mset (natRules iface) \<and>
    rules (y_world (snd (PPPDown e name iface s1))) = rules (y_world s) \<and>
    routes (y_world (snd (PPPDown e name iface s1))) = {x \<in> routes (y_world s). fst x \<notin> set (k_subnets t)}
      - (\<lambda>x. (x, iface)) ` set (k_subnets t)"
proof -
  let ?a = "addRoutes (e_run e) iface (k_subnets t) (y_world s)"
  let ?n = "enableNAT (e_run e) iface (snd ?a)"
  have a: "?a = (Inr (), snd ?a)" and n: "?n = (Inr (), snd ?n)"
    and w1: "y_world s1 = snd (e_now e (snd ?n))"
    and t1: "y_tunnels s1 = row_upd k_name name (up_t iface) (y_tunnels s)"
    using up t
    by (auto simp: PPPUp_def in_world_def case_prod_beta Let_def up_t_def [abs_def] prod_eq_iff split: sum.splits)
  note ae = kernel_like.addRoutes_effect [OF k a]
  have "filter (\<lambda>u. u \<notin># rules (y_world s)) (natRules iface) = natRules iface"
    using fresh by (auto intro!: filter_True)
  then have ne: "routes (snd ?n) = routes (snd ?a) \<and> rules (snd ?n) = rules (y_world s) + mset (natRules iface)"
    using kernel_like.ensure_each_effect [OF k n [unfolded enableNAT_def] natRules_distinct] ae by (simp add: enableNAT_def)
  have e1: "routes (y_world s1) = {x \<in> routes (y_world s). fst x \<notin> set (k_subnets t)} \<union> (\<lambda>x. (x, iface)) ` set (k_subnets t)"
    "rules (y_world s1) = rules (y_world s) + mset (natRules iface)"
    using ae ne c by (simp_all add: w1 clock_apart_def)
  obtain t2 where t2: "the_tunnel name s1 = Some t2" "k_subnets t2 = k_subnets t"
  proof -
    have "row_sel k_name name (row_upd k_name name (up_t iface) ts) = map_option (up_t iface) (row_sel k_name name ts)" for ts
      by (induction ts) (auto simp: row_sel_def row_upd_def)
    then show ?thesis using that t by (simp add: the_tunnel_def t1) (simp add: up_t_def)
  qed
  have "routes (y_world (snd (PPPDown e name iface s1))) = routes (y_world s1) - (\<lambda>x. (x, iface)) ` set (k_subnets t) \<and>
      rules (y_world (snd (PPPDown e name iface s1))) = rules (y_world s1) - mset (natRules iface)"
    using tearDown_effect [OF k d i] c t2 i
    by (simp add: PPPDown_def case_prod_beta Let_def in_world_fst clock_apart_def)
  with e1 show ?thesis by auto
qed

lemma fail_phase:
  assumes "the_tunnel name s = Some t"
  shows "mgr_Status name (fail e name iface reason s) = (StateFailed, [])"
proof -
  obtain now where f: "y_tunnels (fail e name iface reason s) = row_upd k_name name (failed_t now) (y_tunnels s)"
    using fail_tunnels by blast
  have "row_sel k_name name (row_upd k_name name (failed_t now) ts) = map_option (failed_t now) (row_sel k_name name ts)" for ts
    by (induction ts) (auto simp: row_sel_def row_upd_def)
  then show ?thesis using assms by (simp add: mgr_Status_def the_tunnel_def f) (simp add: failed_t_def)
qed


section \<open>The recorded status\<close>

lemma SetStatus_Status:
  assumes wf: "store_wf st" and f: "fault st UpsStatus = None" "fault st SelStatus = None"
    and c: "row_sel r_id (t_conn x) (tconns st) \<noteq> None"
  shows "\<exists>y. Status (t_conn x) (snd (SetStatus x st)) = Inr y \<and> t_state y = t_state x"
proof -
  have s1: "snd (SetStatus x st) = st\<lparr>tstatus := row_upsert st_conn (status_to_row x) (tstatus st)\<rparr>"
    using f c by (auto simp: SetStatus_def exec_def)
  have "row_sel st_conn (t_conn x) (tstatus (snd (SetStatus x st))) = Some (status_to_row x)"
    using row_upsert_sel(1) [OF store_wf_fields(7) [OF wf], of "t_conn x" "status_to_row x"]
    by (simp add: s1) (simp add: status_to_row_def)
  then show ?thesis using f by (simp add: Status_def query_def s1) (simp add: status_to_row_def)
qed

lemma the_tunnel_upd:
  "(\<And>t. k_name (g t) = k_name t) \<Longrightarrow> y_tunnels s' = row_upd k_name name g (y_tunnels s) \<Longrightarrow>
   the_tunnel name s' = map_option g (the_tunnel name s)"
proof -
  assume g: "\<And>t. k_name (g t) = k_name t" and u: "y_tunnels s' = row_upd k_name name g (y_tunnels s)"
  have "row_sel k_name name (row_upd k_name name g ts) = map_option g (row_sel k_name name ts)" for ts
    by (induction ts) (auto simp: row_sel_def row_upd_def g)
  then show ?thesis by (simp add: the_tunnel_def u)
qed

text \<open>While the database works, failing, dropping or dialling a tunnel and a report that it went
  down leave the stored status equal to the phase the manager holds.\<close>

theorem status_follows_phase:
  assumes wf: "mgr_inv s" and f: "fault (y_store s) UpsStatus = None" "fault (y_store s) SelStatus = None"
    and t: "the_tunnel name s = Some t" and c: "row_sel r_id (k_id t) (tconns (y_store s)) \<noteq> None"
    and s': "s' \<in> {fail e name iface reason s, drop_tunnel e name s, dial e name s, snd (PPPDown e name iface s)}"
  shows "\<exists>t' y. the_tunnel name s' = Some t' \<and> Status (k_id t) (y_store s') = Inr y \<and> t_state y = k_phase t'"
proof -
  have "\<exists>p r g. y_store s' = snd (SetStatus ((empty_status (k_id t) p)\<lparr>t_err := r\<rparr>) (y_store s)) \<and>
      y_tunnels s' = row_upd k_name name g (y_tunnels s) \<and> (\<forall>u. k_name (g u) = k_name u \<and> k_phase (g u) = p)"
  proof -
    have n: "k_name t = name" using t by (auto simp: the_tunnel_def dest: row_sel_Some)
    consider "s' = fail e name iface reason s" | "s' = drop_tunnel e name s" | "s' = dial e name s"
      | "s' = snd (PPPDown e name iface s)" using s' by blast
    then show ?thesis
    proof cases
      case 1
      obtain now where "y_tunnels s' = row_upd k_name name (failed_t now) (y_tunnels s)"
        using fail_tunnels 1 by blast
      moreover have "y_store s' = snd (SetStatus ((empty_status (k_id t) StateFailed)\<lparr>t_err := reason\<rparr>) (y_store s))"
        using t 1 by (simp add: fail_def case_prod_beta Let_def)
      moreover have "\<forall>u. k_name (failed_t now u) = k_name u \<and> k_phase (failed_t now u) = StateFailed"
        by (simp add: failed_t_def)
      ultimately show ?thesis by blast
    next
      case 2
      moreover have "y_store s' = snd (SetStatus ((empty_status (k_id t) StateDisconnected)\<lparr>t_err := []\<rparr>) (y_store s))"
        using t 2 by (simp add: drop_tunnel_def Let_def)
      moreover have "\<forall>u. k_name (reset_t u) = k_name u \<and> k_phase (reset_t u) = StateDisconnected"
        by (simp add: reset_t_def)
      ultimately show ?thesis using drop_tunnel_tunnels by blast
    next
      case 3
      let ?r = "fst (dial_attempt e name s)" and ?s1 = "snd (dial_attempt e name s)"
      have d: "s' = dial_record e t ?r ?s1" using t 3 by (simp add: dial_def case_prod_beta)
      obtain now where ts: "y_tunnels s' = row_upd k_name name (case ?r of Inl _ \<Rightarrow> refused_t now | Inr _ \<Rightarrow> dialled_t now) (y_tunnels s)"
        using dial_record_tunnels [of e t ?r ?s1] d n by auto
      show ?thesis
      proof (cases ?r)
        case (Inl err)
        have "y_store s' = snd (SetStatus ((empty_status (k_id t) StateFailed)\<lparr>t_err := err\<rparr>) (y_store s))"
          using d Inl by (simp add: dial_record_def dialFailed_def case_prod_beta Let_def)
        moreover have "\<forall>u. k_name (refused_t now u) = k_name u \<and> k_phase (refused_t now u) = StateFailed"
          by (simp add: refused_t_def)
        moreover have "y_tunnels s' = row_upd k_name name (refused_t now) (y_tunnels s)" using ts Inl by simp
        ultimately show ?thesis by blast
      next
        case (Inr x)
        have "y_store s' = snd (SetStatus ((empty_status (k_id t) StateConnecting)\<lparr>t_err := []\<rparr>) (y_store s))"
          using d Inr by (simp add: dial_record_def case_prod_beta Let_def)
        moreover have "\<forall>u. k_name (dialled_t now u) = k_name u \<and> k_phase (dialled_t now u) = StateConnecting"
          by (simp add: dialled_t_def)
        moreover have "y_tunnels s' = row_upd k_name name (dialled_t now) (y_tunnels s)" using ts Inr by simp
        ultimately show ?thesis by blast
      qed
    next
      case 4
      obtain now where "y_tunnels s' = row_upd k_name name (down_t now) (y_tunnels s)"
        using PPPDown_tunnels 4 by blast
      moreover have "y_store s' = snd (SetStatus ((empty_status (k_id t) StateDisconnected)\<lparr>t_err := []\<rparr>) (y_store s))"
        using t 4 by (simp add: PPPDown_def case_prod_beta Let_def)
      moreover have "\<forall>u. k_name (down_t now u) = k_name u \<and> k_phase (down_t now u) = StateDisconnected"
        by (simp add: down_t_def)
      ultimately show ?thesis by blast
    qed
  qed
  then obtain p r g where st: "y_store s' = snd (SetStatus ((empty_status (k_id t) p)\<lparr>t_err := r\<rparr>) (y_store s))"
    and ts: "y_tunnels s' = row_upd k_name name g (y_tunnels s)"
    and g: "\<And>u. k_name (g u) = k_name u" "\<And>u. k_phase (g u) = p" by blast
  have "the_tunnel name s' = Some (g t)" using the_tunnel_upd [OF g(1) ts] t by simp
  moreover have "store_wf (y_store s)" using wf by (simp add: mgr_inv_def)
  note SetStatus_Status [OF this f, of "(empty_status (k_id t) p)\<lparr>t_err := r\<rparr>"]
  then have "\<exists>y. Status (k_id t) (y_store s') = Inr y \<and> t_state y = p" using c by (simp add: st empty_status_def)
  ultimately show ?thesis using g(2) by auto
qed

section \<open>Witnesses\<close>

definition kern_env :: "kern env" where
  "kern_env = \<lparr>e_run = kern_run, e_now = (\<lambda>k. (kn_time k, k\<lparr>kn_time := kn_time k + Second\<rparr>)),
     e_resolve = (\<lambda>h k. (Inr ''192.0.2.1'', k)), e_tail = None, e_print = (\<lambda>_. True), e_text = (\<lambda>_. ''error''),
     e_dir = ''/run/tsv'', e_ctl = ''/run/l2tp-control'', e_tick = defaultTick, e_dial = defaultDialTimeout\<rparr>"

definition kern_sys :: "kern sys" where
  "kern_sys = (new_sys demo_db \<lparr>fs_files = [], fs_fault = \<lambda>_. None\<rparr>
     \<lparr>kn_routes = [(''192.168.0.0/24'', ''eth0'')], kn_rules = [], kn_time = 100 * Second\<rparr>)\<lparr>y_tunnels := [demo_connecting]\<rparr>"

lemma kern_env_ok:
  "kernel_like (e_run kern_env) (\<lambda>k. set (kn_routes k)) (\<lambda>k. mset (kn_rules k))" "deletes_ok (e_run kern_env)"
  "clock_apart kern_env (\<lambda>k. set (kn_routes k)) (\<lambda>k. mset (kn_rules k))"
proof -
  have g: "alreadyGone ''RTNETLINK answers: No such process''"
    "alreadyGone ''iptables: Bad rule (does a matching rule exist in that chain?).''" by code_simp+
  show "kernel_like (e_run kern_env) (\<lambda>k. set (kn_routes k)) (\<lambda>k. mset (kn_rules k))"
    using table_kernel.kernel_like_axioms by (simp add: kern_env_def)
  show "deletes_ok (e_run kern_env)"
    unfolding deletes_ok_def
    by (simp add: kern_env_def kern_run_def ip_route_def iptables_def mk_command_def kern_ip_def kern_ipt_def Let_def g)
  show "clock_apart kern_env (\<lambda>k. set (kn_routes k)) (\<lambda>k. mset (kn_rules k))"
    by (simp add: clock_apart_def kern_env_def)
qed

theorem up_then_down_restores_witness:
  "kn_routes (y_world (snd (PPPDown kern_env ''alpha'' ''ppp0''
     (snd (PPPUp kern_env ''alpha'' ''ppp0'' ''10.9.0.2'' ''10.9.0.1'' kern_sys))))) = [(''192.168.0.0/24'', ''eth0'')] \<and>
   mset (kn_rules (y_world (snd (PPPUp kern_env ''alpha'' ''ppp0'' ''10.9.0.2'' ''10.9.0.1'' kern_sys)))) = mset (natRules ''ppp0'')"
proof -
  have "fst (PPPUp kern_env ''alpha'' ''ppp0'' ''10.9.0.2'' ''10.9.0.1'' kern_sys) = Inr ()" by code_simp
  note up = run_result [OF this]
  have i: "''ppp0'' \<noteq> []" by simp
  have t: "the_tunnel ''alpha'' kern_sys = Some demo_connecting" by code_simp
  have f: "set (natRules ''ppp0'') \<inter> set_mset (mset (kn_rules (y_world kern_sys))) = {}" by (simp add: kern_sys_def new_sys_def)
  have r: "mset (kn_rules (y_world kern_sys)) = {#}" by (simp add: kern_sys_def new_sys_def)
  have "kn_routes (y_world (snd (PPPDown kern_env ''alpha'' ''ppp0''
     (snd (PPPUp kern_env ''alpha'' ''ppp0'' ''10.9.0.2'' ''10.9.0.1'' kern_sys))))) = [(''192.168.0.0/24'', ''eth0'')]"
    by code_simp
  with up_then_down_restores [OF kern_env_ok i t up f] r show ?thesis by simp
qed


section \<open>Orders of events\<close>

text \<open>The states of a dial during which pppd reports: after the commands, after the report, after the
  manager has recorded the dial, and when a turn of the loop finds it timed out.\<close>

definition race_up :: "kern sys" where
  "race_up = snd (PPPUp kern_env ''alpha'' ''ppp0'' ''10.9.0.2'' ''10.9.0.1'' (snd (dial_attempt kern_env ''alpha'' kern_sys)))"

definition race_recorded :: "kern sys" where
  "race_recorded = dial_record kern_env demo_connecting (fst (dial_attempt kern_env ''alpha'' kern_sys)) race_up"

definition race_timeout :: "kern sys" where
  "race_timeout = step kern_env (scanConnection demo_row)
     (race_recorded\<lparr>y_world := (y_world race_recorded)\<lparr>kn_time := 1000 * Second\<rparr>\<rparr>)"

text \<open>pppd may report the interface while \<open>dial\<close> is still between its last command and taking its lock
  again.  The report is then overwritten: the tunnel says connecting but holds an interface, no later
  report comes, and when the dial times out the working session is torn down.\<close>

theorem dial_races_with_hook:
  "mgr_Status ''alpha'' race_up = (StateUp, ''ppp0'') \<and> mgr_Status ''alpha'' race_recorded = (StateConnecting, ''ppp0'') \<and>
   kn_rules (y_world race_recorded) = natRules ''ppp0'' \<and>
   mgr_Status ''alpha'' race_timeout = (StateFailed, []) \<and> kn_rules (y_world race_timeout) = []"
  by (intro conjI; code_simp)

text \<open>A report that an interface came up, and a late one that an older interface went down.\<close>

definition second_up :: "kern sys" where
  "second_up = snd (PPPUp kern_env ''alpha'' ''ppp1'' ''10.9.0.2'' ''10.9.0.1'' kern_sys)"

definition late_down :: "kern sys" where
  "late_down = snd (PPPDown kern_env ''alpha'' ''ppp0'' second_up)"

text \<open>A late report that an old interface went down is taken for the current one: the manager forgets
  the interface that is up and leaves its routes and rules in the kernel.\<close>

theorem stale_down_forgets_interface:
  "mgr_Status ''alpha'' second_up = (StateUp, ''ppp1'') \<and> mgr_Status ''alpha'' late_down = (StateDisconnected, []) \<and>
   (''10.1.0.0/16'', ''ppp1'') \<in> set (kn_routes (y_world late_down)) \<and> kn_rules (y_world late_down) = natRules ''ppp1''"
  by (intro conjI; code_simp)

text \<open>A connection that is up is deleted and created again with the same settings before the next turn.\<close>

definition recreated :: "int sys" where
  "recreated = (let s = snd (PPPUp calm_env ''alpha'' ''ppp0'' ''10.9.0.2'' ''10.9.0.1'' (demo_sys\<lparr>y_tunnels := [demo_connecting]\<rparr>))
     in s\<lparr>y_store := db_step (demo_create ''alpha'' [''10.1.0.0/16'']) (db_step (CmdDelete 1) (y_store s))\<rparr>)"

text \<open>A connection that is deleted and created again with the same settings keeps its tunnel, and
  nobody writes a status for it: the store says disconnected while the tunnel is up.\<close>

theorem recreated_connection_shows_down:
  "mgr_Status ''alpha'' (snd (Reconcile calm_env recreated)) = (StateUp, ''ppp0'') \<and>
   Status 1 (y_store (snd (Reconcile calm_env recreated))) = Inr (empty_status 1 StateDisconnected)"
  by (intro conjI; code_simp)

theorem status_follows_phase_witness:
  "\<exists>y. Status 1 (y_store (fail calm_env ''alpha'' [] ''gone'' (demo_sys\<lparr>y_tunnels := [demo_connecting]\<rparr>))) = Inr y \<and>
     t_state y = StateFailed"
proof -
  let ?s = "demo_sys\<lparr>y_tunnels := [demo_connecting]\<rparr>"
  have wf: "mgr_inv ?s"
    using demo_db_wf by (simp add: mgr_inv_def demo_sys_def new_sys_def row_wf_def tun_ok_def demo_connecting_def)
  have f: "fault (y_store ?s) UpsStatus = None" "fault (y_store ?s) SelStatus = None" by code_simp+
  have t: "the_tunnel ''alpha'' ?s = Some demo_connecting" by code_simp
  have c: "row_sel r_id (k_id demo_connecting) (tconns (y_store ?s)) \<noteq> None" by code_simp
  have p: "mgr_Status ''alpha'' (fail calm_env ''alpha'' [] ''gone'' ?s) = (StateFailed, [])" by (rule fail_phase [OF t])
  from status_follows_phase [OF wf f t c, of "fail calm_env ''alpha'' [] ''gone'' ?s" calm_env "[]" "''gone''"] p show ?thesis
    by (auto simp: mgr_Status_def demo_connecting_def)
qed

end
