(* ===== verification/Migrate.thy ===== *)
theory Migrate
  imports Store
begin

text \<open>
  Opening the database: \<open>Open\<close> and \<open>migrate\<close> of \<open>internal/db/db.go\<close>.  The embedded files are a list
  of names and statements; what running statements does to the data is the parameter \<open>run_sql\<close>, and
  \<open>mg_fault\<close> says which of the driver's calls fail.
\<close>

section \<open>The database handle\<close>

datatype mig_call = MigVersion | MigBegin | MigRead string | MigPragma | MigCommit

datatype mig_err = MigErr string | MigPanic string

record 'd migdb =
  mg_version :: int
  mg_data :: 'd
  mg_fault :: "mig_call \<Rightarrow> string option"

type_synonym 'd mig_act = "'d migdb \<Rightarrow> (mig_err + unit) \<times> 'd migdb"

definition mig_call :: "mig_call \<Rightarrow> 'd mig_act" where
  "mig_call c db = (case mg_fault db c of Some e \<Rightarrow> (Inl (MigErr e), db) | None \<Rightarrow> (Inr (), db))"

definition pad4 :: "nat \<Rightarrow> string" where
  "pad4 n = replicate (4 - length (dec n)) (CHR ''0'') @ dec n"

text \<open>\<open>path.Base\<close> on a path without a trailing slash.\<close>

definition path_Base :: "string \<Rightarrow> string" where
  "path_Base p = last (split_on (CHR ''/'') p)"

definition migrationVersion :: "string \<Rightarrow> mig_err + int" where
  "migrationVersion name =
     (case Cut (path_Base name) ''_'' of (prefix, _, ok) \<Rightarrow>
       let bad = Inl (MigErr (''migration '' @ name @ '': name must start with NNNN_'')) in
       if \<not> ok then bad
       else (case ParseInt prefix of None \<Rightarrow> bad | Some v \<Rightarrow> if v < 1 then bad else Inr v))"

text \<open>The check that the versions are 1, 2, 3 and so on; \<open>i\<close> is the loop's index.\<close>

fun check_versions :: "nat \<Rightarrow> string list \<Rightarrow> mig_err + unit" where
  "check_versions i [] = Inr ()"
| "check_versions i (name # names) =
     (case migrationVersion name of
        Inl e \<Rightarrow> Inl e
      | Inr v \<Rightarrow> if v \<noteq> int i + 1
          then Inl (MigErr (''migration '' @ name @ '': want version '' @ pad4 (i + 1)))
          else check_versions (i + 1) names)"

text \<open>
  One migration in its transaction: on any error the deferred rollback leaves data and version as
  they were.
\<close>

definition applyMigration ::
  "(string \<Rightarrow> 'd \<Rightarrow> string + 'd) \<Rightarrow> string \<Rightarrow> string \<Rightarrow> int \<Rightarrow> 'd mig_act" where
  "applyMigration run_sql name statements version db =
     (case mig_call MigBegin db of
        (Inl e, _) \<Rightarrow> (Inl e, db)
      | (Inr _, _) \<Rightarrow> (case run_sql statements (mg_data db) of
          Inl e \<Rightarrow> (Inl (MigErr (''migration '' @ name @ '': '' @ e)), db)
        | Inr d \<Rightarrow>
            (let tx = db\<lparr>mg_data := d\<rparr> in
             case mig_call MigPragma tx of
               (Inl e, _) \<Rightarrow> (Inl e, db)
             | (Inr _, _) \<Rightarrow> (let tx = tx\<lparr>mg_version := version\<rparr> in
                 case mig_call MigCommit tx of (Inl e, _) \<Rightarrow> (Inl e, db) | (Inr _, _) \<Rightarrow> (Inr (), tx)))))"

text \<open>The loop over \<open>names[version:]\<close>; \<open>next\<close> is \<open>version + i + 1\<close>.\<close>

fun apply_migrations ::
  "(string \<Rightarrow> 'd \<Rightarrow> string + 'd) \<Rightarrow> (string \<times> string) list \<Rightarrow> int \<Rightarrow> 'd mig_act" where
  "apply_migrations run_sql [] nxt db = (Inr (), db)"
| "apply_migrations run_sql ((name, statements) # files) nxt db =
     (case mig_call (MigRead name) db of
        (Inl e, _) \<Rightarrow> (Inl e, db)
      | (Inr _, _) \<Rightarrow> (case applyMigration run_sql name statements nxt db of
          (Inl e, db1) \<Rightarrow> (Inl e, db1)
        | (Inr _, db1) \<Rightarrow> apply_migrations run_sql files (nxt + 1) db1))"

definition migrate :: "(string \<Rightarrow> 'd \<Rightarrow> string + 'd) \<Rightarrow> (string \<times> string) list \<Rightarrow> 'd mig_act" where
  "migrate run_sql embedded db =
     (let files = sort_key fst embedded in
      case check_versions 0 (map fst files) of
        Inl e \<Rightarrow> (Inl e, db)
      | Inr _ \<Rightarrow> (case mig_call MigVersion db of
          (Inl e, _) \<Rightarrow> (Inl e, db)
        | (Inr _, _) \<Rightarrow>
            (let version = mg_version db in
             if int (length files) < version
             then (Inl (MigErr (''database schema version '' @ dec_int version @
                 '' is newer than this binary knows ('' @ dec (length files) @ '')'')), db)
             else if version < 0
             then (Inl (MigPanic (''slice bounds out of range ['' @ dec_int version @ '':]'')), db)
             else apply_migrations run_sql (drop (nat version) files) (version + 1) db)))"

text \<open>\<open>Open\<close> keeps the handle only when the migration succeeds.\<close>

definition db_Open :: "string option \<Rightarrow> (string \<Rightarrow> 'd \<Rightarrow> string + 'd) \<Rightarrow> (string \<times> string) list \<Rightarrow> 'd migdb \<Rightarrow>
    mig_err + 'd migdb" where
  "db_Open openErr run_sql embedded db =
     (case openErr of
        Some e \<Rightarrow> Inl (MigErr e)
      | None \<Rightarrow> (case migrate run_sql embedded db of (Inl e, _) \<Rightarrow> Inl e | (Inr _, db1) \<Rightarrow> Inr db1))"

section \<open>All or a prefix\<close>

fun run_all :: "(string \<Rightarrow> 'd \<Rightarrow> string + 'd) \<Rightarrow> string list \<Rightarrow> 'd \<Rightarrow> string + 'd" where
  "run_all run_sql [] d = Inr d"
| "run_all run_sql (s # ss) d = bindr (run_sql s d) (run_all run_sql ss)"

lemma applyMigration_result:
  "applyMigration run_sql name s v db = (r, db') \<Longrightarrow>
   (r = Inr () \<and> (\<exists>d. run_sql s (mg_data db) = Inr d \<and> db' = db\<lparr>mg_data := d, mg_version := v\<rparr>)) \<or>
   (r \<noteq> Inr () \<and> db' = db)"
  by (auto simp: applyMigration_def mig_call_def Let_def split: option.splits sum.splits)

lemma apply_migrations_result:
  assumes "mg_version db = nxt - 1" "apply_migrations run_sql files nxt db = (r, db')"
  shows "\<exists>k d. k \<le> length files \<and> run_all run_sql (map snd (take k files)) (mg_data db) = Inr d
    \<and> db' = db\<lparr>mg_data := d, mg_version := mg_version db + int k\<rparr> \<and> (r = Inr () \<longleftrightarrow> k = length files)"
  using assms
proof (induction files arbitrary: nxt db)
  case Nil
  then show ?case by auto
next
  case (Cons f files)
  obtain name s where f: "f = (name, s)" by fastforce
  have stop: ?case if "r \<noteq> Inr ()" "db' = db"
    using that by (intro exI[of _ 0] exI[of _ "mg_data db"]) auto
  show ?case
  proof (cases "mg_fault db (MigRead name)")
    case (Some e)
    then show ?thesis using Cons.prems by (intro stop) (auto simp: mig_call_def f)
  next
    case None
    obtain r1 db1 where m: "applyMigration run_sql name s nxt db = (r1, db1)" by fastforce
    from applyMigration_result[OF m] show ?thesis
    proof
      assume "r1 \<noteq> Inr () \<and> db1 = db"
      then show ?thesis using Cons.prems None m by (intro stop) (auto simp: mig_call_def f split: sum.splits)
    next
      assume a: "r1 = Inr () \<and> (\<exists>d. run_sql s (mg_data db) = Inr d \<and> db1 = db\<lparr>mg_data := d, mg_version := nxt\<rparr>)"
      then obtain d where d: "run_sql s (mg_data db) = Inr d" "db1 = db\<lparr>mg_data := d, mg_version := nxt\<rparr>" by blast
      have c: "mig_call (MigRead name) db = (Inr (), db)" using None by (simp add: mig_call_def)
      have rest: "apply_migrations run_sql files (nxt + 1) db1 = (r, db')"
        using Cons.prems(2) a m c by (simp add: f)
      obtain k d' where k: "k \<le> length files" "run_all run_sql (map snd (take k files)) (mg_data db1) = Inr d'"
        "db' = db1\<lparr>mg_data := d', mg_version := mg_version db1 + int k\<rparr>" "r = Inr () \<longleftrightarrow> k = length files"
        using Cons.IH[OF _ rest] d(2) by auto
      show ?thesis
        using k d Cons.prems(1) by (intro exI[of _ "Suc k"] exI[of _ d']) (auto simp: f)
    qed
  qed
qed

text \<open>C37: A migration run either applies every missing file in order and leaves the version at the
  number of files, or stops having applied some of them, with the version counting exactly those:
  running it again continues there.\<close>

lemma migrate_applies_prefix:
  assumes "migrate run_sql embedded db = (r, db')" and "0 \<le> mg_version db"
  shows "\<exists>k d. run_all run_sql (map snd (take k (drop (nat (mg_version db)) (sort_key fst embedded)))) (mg_data db) = Inr d
    \<and> db' = db\<lparr>mg_data := d, mg_version := mg_version db + int k\<rparr>
    \<and> (r = Inr () \<longrightarrow> mg_version db' = int (length embedded))"
proof -
  let ?files = "sort_key fst embedded"
  have stop: ?thesis if "r \<noteq> Inr ()" "db' = db"
    using that by (intro exI[of _ 0] exI[of _ "mg_data db"]) auto
  show ?thesis
  proof (cases "check_versions 0 (map fst ?files) = Inr () \<and> mg_fault db MigVersion = None \<and>
      mg_version db \<le> int (length embedded)")
    case False
    then show ?thesis
      using assms by (intro stop) (auto simp: migrate_def mig_call_def Let_def split: sum.splits option.splits if_splits)
  next
    case True
    then have "apply_migrations run_sql (drop (nat (mg_version db)) ?files) (mg_version db + 1) db = (r, db')"
      using assms by (simp add: migrate_def mig_call_def Let_def)
    from apply_migrations_result[OF _ this] obtain k d where
      "k \<le> length (drop (nat (mg_version db)) ?files)"
      "run_all run_sql (map snd (take k (drop (nat (mg_version db)) ?files))) (mg_data db) = Inr d"
      "db' = db\<lparr>mg_data := d, mg_version := mg_version db + int k\<rparr>"
      "r = Inr () \<longleftrightarrow> k = length (drop (nat (mg_version db)) ?files)" by auto
    then show ?thesis using assms(2) True by (intro exI[of _ k] exI[of _ d]) auto
  qed
qed

definition demo_files :: "(string \<times> string) list" where
  "demo_files = [(''migrations/0002_b.sql'', ''b''), (''migrations/0001_a.sql'', ''a'')]"

definition demo_sql :: "string \<Rightarrow> string \<Rightarrow> string + string" where
  "demo_sql s d = (if s = ''x'' then Inl ''syntax error'' else Inr (d @ s))"

lemma migrate_applies_prefix_witness:
  "mg_data (snd (migrate demo_sql demo_files \<lparr>mg_version = 1, mg_data = ''a'', mg_fault = (\<lambda>_. None)\<rparr>)) = ''ab''"
proof -
  let ?db = "\<lparr>mg_version = 1, mg_data = ''a'', mg_fault = (\<lambda>_. None)\<rparr>"
  let ?m = "migrate demo_sql demo_files ?db"
  have "fst ?m = Inr ()" by code_simp
  have s: "sort_key fst demo_files = [(''migrations/0001_a.sql'', ''a''), (''migrations/0002_b.sql'', ''b'')]"
    by code_simp
  from migrate_applies_prefix[OF prod.collapse[symmetric, of ?m]] obtain k d where
    "run_all demo_sql (map snd (take k [(''migrations/0002_b.sql'', ''b'')])) ''a'' = Inr d"
    "snd ?m = ?db\<lparr>mg_data := d, mg_version := 1 + int k\<rparr>"
    "mg_version (snd ?m) = int (length demo_files)"
    using \<open>fst ?m = Inr ()\<close> by (auto simp: s)
  then show ?thesis by (cases k) (auto simp: demo_files_def demo_sql_def)
qed

section \<open>A negative version\<close>

text \<open>A database whose user version is negative is not refused but makes the slice panic.\<close>

lemma negative_version_panics:
  "migrate run_sql [] (db\<lparr>mg_version := - 1, mg_fault := (\<lambda>_. None)\<rparr>) =
     (Inl (MigPanic (''slice bounds out of range ['' @ dec_int (- 1) @ '':]'')),
      db\<lparr>mg_version := - 1, mg_fault := (\<lambda>_. None)\<rparr>)"
  by (simp add: migrate_def mig_call_def Let_def)

end
