(* ===== verification/Supervise.thy ===== *)
theory Supervise
  imports GoStrings GoTime
begin

text \<open>
  The daemon supervisor of \<open>internal/supervise/supervise.go\<close>.  A process's life is a list of
  attempts, each with what the operating system answers; \<open>supervise\<close> turns it into the events the
  loop causes, in order: a spawned command, a line handed to \<open>OnLine\<close>, a wait before the restart.
\<close>

section \<open>The supervisor and what it sees\<close>

record process =
  p_name :: string
  p_path :: string
  p_args :: "string list"
  p_env :: "string list"

record supervisor =
  s_online :: bool
  s_minBackoff :: duration
  s_maxBackoff :: duration
  s_stableAfter :: duration

datatype wait_result = WaitOk | WaitCanceled | WaitFailed string

text \<open>
  One start of the process: errors of the two pipes and of \<open>Start\<close>, the bytes of the two streams
  with their read errors, the schedule in which the two scanners hand their lines on, the result of
  \<open>Wait\<close>, the uptime, whether the context was cancelled by then, and whether it is cancelled
  during the wait that follows.
\<close>

record attempt =
  t_stdoutErr :: "string option"
  t_stderrErr :: "string option"
  t_startErr :: "string option"
  t_stdout :: string
  t_stdoutFail :: "string option"
  t_stderr :: string
  t_stderrFail :: "string option"
  t_schedule :: "bool list"
  t_wait :: wait_result
  t_uptime :: duration
  t_cancelled :: bool
  t_cancelledInWait :: bool

datatype event = Spawn string "string list" "string list option" | LogLine string string | Sleep duration

section \<open>Durations and lines\<close>

definition min_backoff :: "supervisor \<Rightarrow> duration" where
  "min_backoff s = (if s_minBackoff s \<le> 0 then Second else s_minBackoff s)"

definition max_backoff :: "supervisor \<Rightarrow> duration" where
  "max_backoff s = (if s_maxBackoff s \<le> 0 then 30 * Second else s_maxBackoff s)"

definition stableAfter :: "supervisor \<Rightarrow> duration" where
  "stableAfter s = (if s_stableAfter s \<le> 0 then Minute else s_stableAfter s)"

definition log_line :: "supervisor \<Rightarrow> string \<Rightarrow> string \<Rightarrow> event list" where
  "log_line s source txt = (if s_online s then [LogLine source txt] else [])"

text \<open>
  \<open>bufio.ScanLines\<close> with a buffer of 64 KiB: lines end at a newline, a trailing carriage return is
  dropped, a last line needs no newline, and a line that does not fit with its newline stops the
  scan.
\<close>

definition scanner_max :: nat where "scanner_max = 65536"

definition drop_cr :: "string \<Rightarrow> string" where
  "drop_cr l = (if HasSuffix l [CHR 0x0D] then butlast l else l)"

definition scan_stream :: "string \<Rightarrow> string option \<Rightarrow> string list" where
  "scan_stream content rerr =
     (let ls = stream_lines content;
          fit = takeWhile (\<lambda>l. length l < scanner_max) ls
      in map drop_cr fit @
         (if fit \<noteq> ls then [''log stream unreadable: bufio.Scanner: token too long'']
          else case rerr of None \<Rightarrow> [] | Some e \<Rightarrow> [''log stream unreadable: '' @ e]))"

text \<open>The two reading goroutines: the schedule says whose line comes next.\<close>

fun interleave :: "bool list \<Rightarrow> 'a list \<Rightarrow> 'a list \<Rightarrow> 'a list" where
  "interleave sched [] ys = ys"
| "interleave sched (x # xs) [] = x # xs"
| "interleave [] (x # xs) ys = x # interleave [] xs ys"
| "interleave (b # bs) (x # xs) (y # ys) =
     (if b then x # interleave bs xs (y # ys) else y # interleave bs (x # xs) ys)"

section \<open>Starting and restarting\<close>

text \<open>\<open>start\<close>: the events and the error it returns.  \<open>environ\<close> is the inherited environment.\<close>

definition start_process ::
  "string list \<Rightarrow> supervisor \<Rightarrow> process \<Rightarrow> attempt \<Rightarrow> event list \<times> string option" where
  "start_process environ s p t =
     (case t_stdoutErr t of Some e \<Rightarrow> ([], Some e) | None \<Rightarrow>
      case t_stderrErr t of Some e \<Rightarrow> ([], Some e) | None \<Rightarrow>
      case t_startErr t of Some e \<Rightarrow> ([], Some e) | None \<Rightarrow>
        (Spawn (p_path p) (p_args p) (if p_env p = [] then None else Some (environ @ p_env p)) #
         log_line s (p_name p) ''started'' @
         concat (map (log_line s (p_name p))
           (interleave (t_schedule t) (scan_stream (t_stdout t) (t_stdoutFail t))
              (scan_stream (t_stderr t) (t_stderrFail t)))),
         case t_wait t of WaitOk \<Rightarrow> None | WaitCanceled \<Rightarrow> None | WaitFailed e \<Rightarrow> Some e))"

definition exit_line :: "string option \<Rightarrow> string" where
  "exit_line err = (case err of Some e \<Rightarrow> ''exited: '' @ e | None \<Rightarrow> ''exited'')"

definition backoff_now :: "supervisor \<Rightarrow> duration \<Rightarrow> attempt \<Rightarrow> duration" where
  "backoff_now s backoff t = (if stableAfter s \<le> t_uptime t then min_backoff s else backoff)"

definition backoff_next :: "supervisor \<Rightarrow> duration \<Rightarrow> duration" where
  "backoff_next s backoff = min (wrap64 (backoff * 2)) (max_backoff s)"

fun supervise_from ::
  "string list \<Rightarrow> supervisor \<Rightarrow> process \<Rightarrow> duration \<Rightarrow> attempt list \<Rightarrow> event list" where
  "supervise_from environ s p backoff [] = []"
| "supervise_from environ s p backoff (t # ts) =
     (let (evs, err) = start_process environ s p t in
      if t_cancelled t then evs
      else let b = backoff_now s backoff t in
        evs @ log_line s (p_name p) (exit_line err) @ Sleep b #
        (if t_cancelledInWait t then []
         else supervise_from environ s p (backoff_next s b) ts))"

definition supervise :: "string list \<Rightarrow> supervisor \<Rightarrow> process \<Rightarrow> attempt list \<Rightarrow> event list" where
  "supervise environ s p ts = supervise_from environ s p (min_backoff s) ts"

text \<open>\<open>Run\<close>: one goroutine per process; they share nothing but the callback.\<close>

definition Run_all ::
  "string list \<Rightarrow> supervisor \<Rightarrow> (process \<times> attempt list) list \<Rightarrow> event list list" where
  "Run_all environ s ps = map (\<lambda>(p, ts). supervise environ s p ts) ps"

section \<open>The waits\<close>

definition sleeps :: "event list \<Rightarrow> duration list" where
  "sleeps evs = concat (map (\<lambda>e. case e of Sleep d \<Rightarrow> [d] | _ \<Rightarrow> []) evs)"

lemma sleeps_simps [simp]:
  "sleeps [] = []" "sleeps (Sleep d # evs) = d # sleeps evs"
  "sleeps (Spawn a b c # evs) = sleeps evs" "sleeps (LogLine x y # evs) = sleeps evs"
  "sleeps (xs @ ys) = sleeps xs @ sleeps ys"
  by (simp_all add: sleeps_def)

lemma sleeps_log [simp]: "sleeps (log_line s a b) = []"
  by (simp add: log_line_def)

lemma sleeps_logs [simp]: "sleeps (concat (map (log_line s a) ls)) = []"
  by (induction ls) auto

lemma sleeps_start [simp]: "sleeps (fst (start_process environ s p t)) = []"
  by (simp add: start_process_def split: option.split)

text \<open>
  The reference: \<open>streak\<close> counts the restarts since the start of the supervisor or since the last
  run that stayed up long enough, and the wait doubles with each.
\<close>

fun streak_from :: "supervisor \<Rightarrow> nat \<Rightarrow> duration list \<Rightarrow> nat" where
  "streak_from s n [] = n"
| "streak_from s n (u # us) = streak_from s (if stableAfter s \<le> u then 1 else Suc n) us"

definition delay :: "supervisor \<Rightarrow> nat \<Rightarrow> duration" where
  "delay s n = (if n \<le> 1 then min_backoff s
                else min (min_backoff s * 2 ^ (n - 1)) (max_backoff s))"

lemma backoff_bounds:
  "0 < min_backoff s" "0 < max_backoff s"
  by (simp_all add: min_backoff_def max_backoff_def time_units)

lemma delay_pos: "0 < delay s n"
  using backoff_bounds[of s] by (simp add: delay_def)

lemma delay_next:
  assumes "min_backoff s < 2 ^ 62" "max_backoff s < 2 ^ 62" "1 \<le> n"
  shows "backoff_next s (delay s n) = delay s (Suc n)"
proof -
  have le: "delay s n < 2 ^ 62" "0 < delay s n"
    using assms delay_pos[of s n] by (auto simp: delay_def)
  then have w: "wrap64 (delay s n * 2) = delay s n * 2"
    by (intro wrap64_id) auto
  have p: "min_backoff s * 2 ^ n = min_backoff s * 2 ^ (n - 1) * 2"
    using assms(3) by (cases n) auto
  show ?thesis
    unfolding backoff_next_def w using assms(3) backoff_bounds[of s] by (auto simp: delay_def p min_def)
qed

definition restarted :: "attempt \<Rightarrow> bool" where
  "restarted t \<longleftrightarrow> \<not> t_cancelled t \<and> \<not> t_cancelledInWait t"

lemma sleeps_from:
  assumes "min_backoff s < 2 ^ 62" "max_backoff s < 2 ^ 62"
    and "\<forall>t \<in> set ts. restarted t"
  shows "sleeps (supervise_from environ s p (delay s (Suc n)) ts) =
    map (\<lambda>i. delay s (streak_from s n (map t_uptime (take (Suc i) ts)))) [0..<length ts]"
  using assms(3)
proof (induction ts arbitrary: n)
  case Nil
  then show ?case by simp
next
  case (Cons t ts)
  let ?n = "if stableAfter s \<le> t_uptime t then 0 else n"
  have b: "backoff_now s (delay s (Suc n)) t = delay s (Suc ?n)"
    by (simp add: backoff_now_def delay_def)
  have nxt: "backoff_next s (delay s (Suc ?n)) = delay s (Suc (Suc ?n))"
    using delay_next[OF assms(1,2), of "Suc ?n"] by simp
  have "sleeps (supervise_from environ s p (delay s (Suc n)) (t # ts)) =
      delay s (Suc ?n) # sleeps (supervise_from environ s p (delay s (Suc (Suc ?n))) ts)"
    using Cons.prems by (simp add: restarted_def case_prod_beta b nxt Let_def)
  also have "\<dots> = delay s (Suc ?n) #
      map (\<lambda>i. delay s (streak_from s (Suc ?n) (map t_uptime (take (Suc i) ts)))) [0..<length ts]"
    using Cons by simp
  also have "\<dots> = map (\<lambda>i. delay s (streak_from s n (map t_uptime (take (Suc i) (t # ts)))))
      [0..<length (t # ts)]"
    by (simp add: upt_conv_Cons map_Suc_upt[symmetric] comp_def del: upt_Suc)
  finally show ?case .
qed

text \<open>C40: The supervisor waits the least delay after the first exit and after every run that stayed up
  for the stable time, twice as long after each further exit, and never more than the greatest
  delay; the doubling does not overflow.\<close>

lemma supervisor_backoff:
  assumes "min_backoff s < 2 ^ 62" "max_backoff s < 2 ^ 62"
    and "\<forall>t \<in> set ts. restarted t"
  shows "sleeps (supervise environ s p ts) =
    map (\<lambda>i. delay s (streak_from s 0 (map t_uptime (take (Suc i) ts)))) [0..<length ts]"
  using sleeps_from[OF assms, of environ p 0] by (simp add: supervise_def delay_def)

definition demo_supervisor :: supervisor where
  "demo_supervisor = \<lparr>s_online = True, s_minBackoff = 0, s_maxBackoff = 5 * Second, s_stableAfter = 0\<rparr>"

definition demo_attempt :: "duration \<Rightarrow> attempt" where
  "demo_attempt up =
     \<lparr>t_stdoutErr = None, t_stderrErr = None, t_startErr = None,
      t_stdout = ''up'', t_stdoutFail = None, t_stderr = [], t_stderrFail = None, t_schedule = [],
      t_wait = WaitFailed ''exit status 1'', t_uptime = up, t_cancelled = False,
      t_cancelledInWait = False\<rparr>"

lemma supervisor_backoff_witness:
  "sleeps (supervise [] demo_supervisor \<lparr>p_name = ''charon'', p_path = ''charon'', p_args = [], p_env = []\<rparr>
     (map demo_attempt [Second, Second, Second, Second, Hour, Second])) =
   map (\<lambda>n. n * Second) [1, 2, 4, 5, 1, 2]"
  by (subst supervisor_backoff)
    (simp_all add: demo_supervisor_def demo_attempt_def min_backoff_def max_backoff_def stableAfter_def
      restarted_def delay_def time_units upt_conv_Cons take_Cons')

end
