(* ===== verification/Changelog.thy ===== *)
theory Changelog
  imports GoStrings
begin

text \<open>
  The changelog reader of \<open>internal/changelog/changelog.go\<close>: \<open>Parse\<close> is the loop over the lines,
  \<open>parse_line\<close> its switch.  The printer at the end is the shape the doc comment describes, and the
  last theorem reads a printed changelog back.
\<close>

section \<open>The reader\<close>

record notes_section =
  sec_title :: string
  sec_items :: "string list"

record release =
  rel_version :: string
  rel_date :: string
  rel_notes :: "string list"
  rel_sections :: "notes_section list"

text \<open>\<open>xs[len(xs)-1]\<close> updated in place; every use is guarded by a length test.\<close>

definition update_last :: "('a \<Rightarrow> 'a) \<Rightarrow> 'a list \<Rightarrow> 'a list" where
  "update_last f xs = (if xs = [] then [] else butlast xs @ [f (last xs)])"

definition add_item :: "string \<Rightarrow> notes_section \<Rightarrow> notes_section" where
  "add_item line sec =
     (let txt = TrimSpace line in
      if HasPrefix txt ''- '' then sec\<lparr>sec_items := sec_items sec @ [TrimSpace (drop 2 txt)]\<rparr>
      else if txt \<noteq> [] \<and> sec_items sec \<noteq> [] then
        sec\<lparr>sec_items := update_last (\<lambda>i. i @ '' '' @ txt) (sec_items sec)\<rparr>
      else sec)"

definition add_text :: "string \<Rightarrow> release \<Rightarrow> release" where
  "add_text line rel =
     (if rel_sections rel = [] then
        (if TrimSpace line \<noteq> [] then rel\<lparr>rel_notes := rel_notes rel @ [TrimSpace line]\<rparr> else rel)
      else rel\<lparr>rel_sections := update_last (add_item line) (rel_sections rel)\<rparr>)"

definition parse_line :: "string \<Rightarrow> release list \<Rightarrow> release list" where
  "parse_line line releases =
     (if HasPrefix line ''## '' then
        (case Cut (TrimSpace (drop 3 line)) '' - '' of (version, date, _) \<Rightarrow>
           releases @ [\<lparr>rel_version = TrimSpace version, rel_date = TrimSpace date,
                        rel_notes = [], rel_sections = []\<rparr>])
      else if releases = [] then releases
      else if HasPrefix line ''### '' then
        update_last (\<lambda>rel. rel\<lparr>rel_sections := rel_sections rel @
            [\<lparr>sec_title = TrimSpace (drop 4 line), sec_items = []\<rparr>]\<rparr>) releases
      else update_last (add_text line) releases)"

definition changelog_Parse :: "string \<Rightarrow> release list" where
  "changelog_Parse markdown = fold parse_line (stream_lines markdown) []"

section \<open>The shape the repository uses\<close>

text \<open>A written item is its first line and the indented lines it wraps onto.\<close>

type_synonym written_item = "string \<times> string list"

definition item_text :: "written_item \<Rightarrow> string" where
  "item_text i = fst i @ concat (map (\<lambda>l. '' '' @ l) (snd i))"

definition item_lines :: "written_item \<Rightarrow> string list" where
  "item_lines i = (''- '' @ fst i) # map (\<lambda>l. ''  '' @ l) (snd i)"

definition section_lines :: "string \<times> written_item list \<Rightarrow> string list" where
  "section_lines s = [''### '' @ fst s, []] @ concat (map item_lines (snd s)) @ [[]]"

record written_release =
  w_version :: string
  w_date :: string
  w_notes :: "string list"
  w_sections :: "(string \<times> written_item list) list"

definition release_lines :: "written_release \<Rightarrow> string list" where
  "release_lines w = [''## '' @ w_version w @ '' - '' @ w_date w, []] @
     concat (map (\<lambda>n. [n, []]) (w_notes w)) @ concat (map section_lines (w_sections w))"

definition show_changelog :: "string list \<Rightarrow> written_release list \<Rightarrow> string" where
  "show_changelog preamble ws =
     concat (map (\<lambda>l. l @ [CHR 0x0A]) (preamble @ concat (map release_lines ws)))"

definition read_section :: "string \<times> written_item list \<Rightarrow> notes_section" where
  "read_section s = \<lparr>sec_title = fst s, sec_items = map item_text (snd s)\<rparr>"

definition read_release :: "written_release \<Rightarrow> release" where
  "read_release w = \<lparr>rel_version = w_version w, rel_date = w_date w, rel_notes = w_notes w,
     rel_sections = map read_section (w_sections w)\<rparr>"

text \<open>
  A line of text: ASCII, not blank, no space at its ends and no newline; what starts like a
  heading or a bullet is not plain text.
\<close>

definition space :: "char \<Rightarrow> bool" where
  "space c = IsSpace (of_char c)"

definition tidy :: "string \<Rightarrow> bool" where
  "tidy s \<longleftrightarrow> s \<noteq> [] \<and> ascii s \<and> \<not> space (hd s) \<and> \<not> space (last s) \<and> CHR 0x0A \<notin> set s"

definition heading :: "string \<Rightarrow> bool" where
  "heading s \<longleftrightarrow> HasPrefix s ''## '' \<or> HasPrefix s ''### ''"

definition tidy_item :: "written_item \<Rightarrow> bool" where
  "tidy_item i \<longleftrightarrow> tidy (fst i) \<and> (\<forall>l \<in> set (snd i). tidy l \<and> \<not> HasPrefix l ''- '')"

definition tidy_release :: "written_release \<Rightarrow> bool" where
  "tidy_release w \<longleftrightarrow> tidy (w_version w) \<and> CHR '' '' \<notin> set (w_version w) \<and> tidy (w_date w)
     \<and> (\<forall>n \<in> set (w_notes w). tidy n \<and> \<not> heading n)
     \<and> (\<forall>s \<in> set (w_sections w). tidy (fst s) \<and> (\<forall>i \<in> set (snd s). tidy_item i))"

section \<open>Reading a printed changelog\<close>

lemma update_last_snoc [simp]: "update_last f (xs @ [x]) = xs @ [f x]"
  by (simp add: update_last_def)

lemma update_last_Nil_iff [simp]: "update_last f xs = [] \<longleftrightarrow> xs = []"
  by (simp add: update_last_def)

lemma tidy_not_Nil [simp]: "\<not> tidy []"
  by (simp add: tidy_def)

lemma trim_both_ends:
  "s \<noteq> [] \<Longrightarrow> \<not> P (hd s) \<Longrightarrow> \<not> P (last s) \<Longrightarrow> \<forall>c \<in> set pad. P c \<Longrightarrow> trim_both P (pad @ s) = s"
proof -
  assume a: "s \<noteq> []" "\<not> P (hd s)" "\<not> P (last s)" "\<forall>c \<in> set pad. P c"
  have "dropWhile P (pad @ s) = s" using a by (cases s) (auto simp: dropWhile_append2)
  moreover have "dropWhile P (rev s) = rev s" using a by (cases s rule: rev_cases) auto
  ultimately show ?thesis by (simp add: trim_both_def)
qed

lemma TrimSpace_tidy:
  assumes "tidy s" "ascii pad" "\<forall>c \<in> set pad. space c"
  shows "TrimSpace (pad @ s) = s"
proof -
  have "ascii (pad @ s)" using assms by (simp add: tidy_def)
  then show ?thesis
    using assms by (simp add: TrimSpace_ascii trim_both_ends tidy_def space_def)
qed

lemmas TrimSpace_trim [simp] = TrimSpace_tidy[where pad = "[]", simplified]

lemma TrimSpace_blank [simp]: "TrimSpace [] = []"
  by (simp add: TrimSpace_def trim_both_def)

lemma tidy_join: "tidy a \<Longrightarrow> tidy b \<Longrightarrow> ascii m \<Longrightarrow> CHR 0x0A \<notin> set m \<Longrightarrow> tidy (a @ m @ b)"
  by (auto simp: tidy_def ascii_def)

lemma bullet_tidy: "tidy s \<Longrightarrow> tidy (''- '' @ s)"
  by (auto simp: tidy_def ascii_def space_def IsSpace_def)

lemma parse_line_blank [simp]: "parse_line [] rels = rels"
proof (cases rels rule: rev_cases)
  case (snoc ys y)
  have "add_text [] y = y"
    by (cases "rel_sections y" rule: rev_cases) (auto simp: add_text_def add_item_def HasPrefix_def)
  then show ?thesis by (simp add: snoc parse_line_def HasPrefix_def)
qed (simp add: parse_line_def HasPrefix_def)

lemma add_item_bullet:
  "tidy s \<Longrightarrow> add_item (''- '' @ s) sec = sec\<lparr>sec_items := sec_items sec @ [s]\<rparr>"
  using bullet_tidy[of s] by (simp add: add_item_def HasPrefix_def)

lemma add_item_wrap:
  "tidy l \<Longrightarrow> \<not> HasPrefix l ''- '' \<Longrightarrow> sec_items sec = its @ [i] \<Longrightarrow>
   add_item (''  '' @ l) sec = sec\<lparr>sec_items := its @ [i @ '' '' @ l]\<rparr>"
  using TrimSpace_tidy[of l "''  ''"] by (auto simp: add_item_def tidy_def space_def IsSpace_def)

text \<open>One item's lines, read into the last section of the last release.\<close>

lemma parse_in_section:
  assumes "\<not> HasPrefix line ''## ''" "\<not> HasPrefix line ''### ''"
    and "rel_sections r = secs @ [sec]"
  shows "parse_line line (rs @ [r]) = rs @ [r\<lparr>rel_sections := secs @ [add_item line sec]\<rparr>]"
  using assms by (simp add: parse_line_def add_text_def)

lemma parse_wrapped:
  "rel_sections r = secs @ [sec] \<Longrightarrow> sec_items sec = its @ [i] \<Longrightarrow>
   \<forall>l \<in> set ls. tidy l \<and> \<not> HasPrefix l ''- '' \<Longrightarrow>
   fold parse_line (map (\<lambda>l. ''  '' @ l) ls) (rs @ [r]) =
     rs @ [r\<lparr>rel_sections := secs @ [sec\<lparr>sec_items := its @ [i @ concat (map (\<lambda>l. '' '' @ l) ls)]\<rparr>]\<rparr>]"
proof (induction ls arbitrary: r sec i)
  case Nil
  then show ?case by simp
next
  case (Cons l ls)
  let ?sec = "sec\<lparr>sec_items := its @ [i @ '' '' @ l]\<rparr>"
  let ?r = "r\<lparr>rel_sections := secs @ [?sec]\<rparr>"
  have "parse_line (''  '' @ l) (rs @ [r]) = rs @ [?r]"
    using Cons.prems add_item_wrap[of l sec its i]
    by (subst parse_in_section[of _ _ secs sec]) (auto simp: HasPrefix_def)
  then show ?case
    using Cons.IH[of ?r ?sec "i @ '' '' @ l"] Cons.prems by simp
qed

lemma parse_item:
  assumes "rel_sections r = secs @ [sec]" "tidy_item i"
  shows "fold parse_line (item_lines i) (rs @ [r]) =
    rs @ [r\<lparr>rel_sections := secs @ [sec\<lparr>sec_items := sec_items sec @ [item_text i]\<rparr>]\<rparr>]"
proof -
  let ?sec = "sec\<lparr>sec_items := sec_items sec @ [fst i]\<rparr>"
  let ?r = "r\<lparr>rel_sections := secs @ [?sec]\<rparr>"
  have "parse_line (''- '' @ fst i) (rs @ [r]) = rs @ [?r]"
    using assms by (subst parse_in_section[of _ _ secs sec])
      (auto simp: HasPrefix_def add_item_bullet[unfolded append.simps] tidy_item_def)
  then show ?thesis
    using parse_wrapped[of ?r secs ?sec "sec_items sec" "fst i" "snd i" rs] assms
    by (simp add: item_lines_def item_text_def tidy_item_def)
qed

lemma parse_items:
  "rel_sections r = secs @ [sec] \<Longrightarrow> \<forall>i \<in> set its. tidy_item i \<Longrightarrow>
   fold parse_line (concat (map item_lines its)) (rs @ [r]) =
     rs @ [r\<lparr>rel_sections := secs @ [sec\<lparr>sec_items := sec_items sec @ map item_text its\<rparr>]\<rparr>]"
proof (induction its arbitrary: r sec)
  case Nil
  then show ?case by simp
next
  case (Cons i its)
  then show ?case by (simp add: parse_item[of r secs sec])
qed

lemma parse_section:
  assumes "tidy (fst s)" "\<forall>i \<in> set (snd s). tidy_item i"
  shows "fold parse_line (section_lines s) (rs @ [r]) =
    rs @ [r\<lparr>rel_sections := rel_sections r @ [read_section s]\<rparr>]"
proof -
  let ?sec = "\<lparr>sec_title = fst s, sec_items = []\<rparr>"
  have "parse_line (''### '' @ fst s) (rs @ [r]) = rs @ [r\<lparr>rel_sections := rel_sections r @ [?sec]\<rparr>]"
    using assms by (simp add: parse_line_def HasPrefix_def)
  then show ?thesis
    using parse_items[of "r\<lparr>rel_sections := rel_sections r @ [?sec]\<rparr>" "rel_sections r" ?sec "snd s" rs] assms
    by (simp add: section_lines_def read_section_def)
qed

lemma parse_sections:
  "\<forall>s \<in> set ss. tidy (fst s) \<and> (\<forall>i \<in> set (snd s). tidy_item i) \<Longrightarrow>
   fold parse_line (concat (map section_lines ss)) (rs @ [r]) =
     rs @ [r\<lparr>rel_sections := rel_sections r @ map read_section ss\<rparr>]"
  by (induction ss arbitrary: r) (simp_all add: parse_section)

lemma parse_notes:
  "\<forall>n \<in> set ns. tidy n \<and> \<not> heading n \<Longrightarrow> rel_sections r = [] \<Longrightarrow>
   fold parse_line (concat (map (\<lambda>n. [n, []]) ns)) (rs @ [r]) =
     rs @ [r\<lparr>rel_notes := rel_notes r @ ns\<rparr>]"
proof (induction ns arbitrary: r)
  case (Cons n ns)
  have "n \<noteq> []" using Cons.prems by auto
  then have "parse_line n (rs @ [r]) = rs @ [r\<lparr>rel_notes := rel_notes r @ [n]\<rparr>]"
    using Cons.prems by (simp add: parse_line_def add_text_def heading_def)
  then show ?case using Cons.IH[of "r\<lparr>rel_notes := rel_notes r @ [n]\<rparr>"] Cons.prems by simp
qed simp

lemma parse_release:
  assumes "tidy_release w"
  shows "fold parse_line (release_lines w) rs = rs @ [read_release w]"
proof -
  let ?h = "w_version w @ '' - '' @ w_date w"
  let ?r = "\<lparr>rel_version = w_version w, rel_date = w_date w, rel_notes = [], rel_sections = []\<rparr>"
  have "tidy ?h" using assms by (intro tidy_join) (auto simp: tidy_release_def ascii_def)
  moreover have "Cut ?h '' - '' = (w_version w, w_date w, True)"
    using assms by (intro Cut_here) (auto simp: tidy_release_def)
  ultimately have "parse_line (''## '' @ ?h) rs = rs @ [?r]"
    using assms by (simp add: parse_line_def HasPrefix_def tidy_release_def)
  then show ?thesis
    using assms by (simp add: release_lines_def parse_notes parse_sections read_release_def tidy_release_def)
qed

lemma parse_releases:
  "\<forall>w \<in> set ws. tidy_release w \<Longrightarrow>
   fold parse_line (concat (map release_lines ws)) rs = rs @ map read_release ws"
  by (induction ws arbitrary: rs) (simp_all add: parse_release)

lemma parse_preamble:
  "\<forall>l \<in> set ls. \<not> HasPrefix l ''## '' \<Longrightarrow> fold parse_line ls [] = []"
  by (induction ls) (auto simp: parse_line_def)

lemma release_lines_no_newline:
  "tidy_release w \<Longrightarrow> l \<in> set (release_lines w) \<Longrightarrow> CHR 0x0A \<notin> set l"
  by (fastforce simp: release_lines_def section_lines_def item_lines_def tidy_release_def tidy_item_def tidy_def)

text \<open>A changelog written in the documented shape, with wrapped bullets and any lines before the
  first release, reads back to its versions, dates, notes, sections and unwrapped items.\<close>

lemma changelog_reads_back:
  assumes "\<forall>w \<in> set ws. tidy_release w"
    and "\<forall>l \<in> set preamble. CHR 0x0A \<notin> set l \<and> \<not> HasPrefix l ''## ''"
  shows "changelog_Parse (show_changelog preamble ws) = map read_release ws"
proof -
  have "stream_lines (show_changelog preamble ws) = preamble @ concat (map release_lines ws)"
    unfolding show_changelog_def
    using assms release_lines_no_newline by (intro stream_lines_concat) fastforce
  then show ?thesis
    using assms by (simp add: changelog_Parse_def parse_preamble parse_releases)
qed

definition demo_release :: written_release where
  "demo_release = \<lparr>w_version = ''1.0'', w_date = ''2026-08-19'', w_notes = [''First.''],
     w_sections = [(''Added'', [(''Tunnels and'', [''subnets.'']), (''Logs.'', [])])]\<rparr>"

lemma changelog_reads_back_witness:
  "changelog_Parse (show_changelog [''# Changelog'', []] [demo_release]) = [read_release demo_release]"
proof -
  have "tidy_release demo_release" by code_simp
  moreover have "\<forall>l \<in> set [''# Changelog'', []]. CHR 0x0A \<notin> set l \<and> \<not> HasPrefix l ''## ''" by code_simp
  ultimately show ?thesis using changelog_reads_back[of "[demo_release]" "[''# Changelog'', []]"] by simp
qed

end
