(* ===== verification/Ring.thy ===== *)
theory Ring
  imports Machine GoStrings GoTime
begin

text \<open>
  The per-connection log buffer of \<open>internal/logbuf/ring.go\<close>: \<open>ring\<close> is the struct with its
  bounded buckets and its cache of connection names, \<open>ring_Add\<close> one call of \<open>Add\<close> with the
  instants the clock shows during it and what the \<open>keys\<close> callback would return.  The second half
  states the promise as a history without bounds and without buckets and shows that the ring is
  an image of it.
\<close>

section \<open>The ring\<close>

record line =
  l_at :: time
  l_source :: string
  l_text :: string

record ring =
  r_size :: nat
  r_lines :: "string \<rightharpoonup> line list"
  r_keyed :: bool
  r_cached :: "string list"
  r_fetchedAt :: time

definition General :: string where "General = []"
definition keyTTL :: duration where "keyTTL = 3 * Second"

text \<open>\<open>r_keyed\<close> is \<open>keys != nil\<close>; the zero time stands in \<open>keysFetchedAt\<close> until the first fetch.\<close>

definition ring_New :: "nat \<Rightarrow> bool \<Rightarrow> ring" where
  "ring_New n keyed =
     \<lparr>r_size = n, r_lines = Map.empty, r_keyed = keyed, r_cached = [], r_fetchedAt = 0\<rparr>"

text \<open>One call: its arguments, the three clock readings in order, and the callback's answer.\<close>

record add_call =
  a_source :: string
  a_text :: string
  a_at :: time
  a_asked :: time
  a_names :: "string list"
  a_fetched :: time

definition ring_bucket :: "ring \<Rightarrow> string \<Rightarrow> line list" where
  "ring_bucket r key = (case r_lines r key of None \<Rightarrow> [] | Some ls \<Rightarrow> ls)"

definition currentKeys :: "add_call \<Rightarrow> ring \<Rightarrow> string list \<times> ring" where
  "currentKeys c r =
     (if \<not> r_keyed r then ([], r)
      else if time_Sub (a_asked c) (r_fetchedAt r) < keyTTL then (r_cached r, r)
      else (a_names c, r\<lparr>r_cached := a_names c, r_fetchedAt := a_fetched c\<rparr>))"

definition ring_append :: "string \<Rightarrow> line \<Rightarrow> ring \<Rightarrow> ring" where
  "ring_append key l r =
     (let ls = ring_bucket r key @ [l];
          kept = (if r_size r < length ls then drop (length ls - r_size r) ls else ls)
      in r\<lparr>r_lines := (r_lines r)(key \<mapsto> kept)\<rparr>)"

fun append_matching :: "string \<Rightarrow> line \<Rightarrow> string list \<Rightarrow> ring \<Rightarrow> ring" where
  "append_matching text l [] r = r"
| "append_matching text l (key # keys) r =
     append_matching text l keys
       (if key \<noteq> General \<and> Contains text key then ring_append key l r else r)"

definition ring_Add :: "add_call \<Rightarrow> ring \<Rightarrow> ring" where
  "ring_Add c r =
     (let text = TrimRight (a_text c) [CHR 0x0D, CHR 0x0A] in
      if TrimSpace text = [] then r
      else let l = \<lparr>l_at = a_at c, l_source = a_source c, l_text = text\<rparr>;
               (keys, r') = currentKeys c r
           in append_matching text l keys (ring_append General l r'))"

definition Lines :: "string \<Rightarrow> ring \<Rightarrow> line list" where
  "Lines key r = ring_bucket r key"

section \<open>The history the ring is a window of\<close>

text \<open>
  The reference keeps every line with the list of keys it is filed under, and no bound.  \<open>filed\<close>
  reads one key's lines off the history.
\<close>

record history =
  h_log :: "(line \<times> string list) list"
  h_size :: nat
  h_keyed :: bool
  h_cached :: "string list"
  h_fetchedAt :: time

definition hist_New :: "nat \<Rightarrow> bool \<Rightarrow> history" where
  "hist_New n keyed =
     \<lparr>h_log = [], h_size = n, h_keyed = keyed, h_cached = [], h_fetchedAt = 0\<rparr>"

definition filed_under :: "string \<Rightarrow> string list \<Rightarrow> string list" where
  "filed_under text names = General # filter (\<lambda>k. k \<noteq> General \<and> Contains text k) names"

definition stale_names :: "add_call \<Rightarrow> history \<Rightarrow> bool" where
  "stale_names c h \<longleftrightarrow> h_keyed h \<and> keyTTL \<le> time_Sub (a_asked c) (h_fetchedAt h)"

definition names_now :: "add_call \<Rightarrow> history \<Rightarrow> string list" where
  "names_now c h = (if \<not> h_keyed h then [] else if stale_names c h then a_names c else h_cached h)"

definition hist_Add :: "add_call \<Rightarrow> history \<Rightarrow> history" where
  "hist_Add c h =
     (let text = TrimRight (a_text c) [CHR 0x0D, CHR 0x0A] in
      if TrimSpace text = [] then h
      else h\<lparr>h_log := h_log h @ [(\<lparr>l_at = a_at c, l_source = a_source c, l_text = text\<rparr>,
                                  filed_under text (names_now c h))],
             h_cached := (if stale_names c h then a_names c else h_cached h),
             h_fetchedAt := (if stale_names c h then a_fetched c else h_fetchedAt h)\<rparr>)"

definition filed :: "string \<Rightarrow> (line \<times> string list) list \<Rightarrow> line list" where
  "filed key lg = concat (map (\<lambda>(l, ks). map (\<lambda>_. l) (filter (\<lambda>k. k = key) ks)) lg)"

definition window :: "history \<Rightarrow> ring" where
  "window h =
     \<lparr>r_size = h_size h,
      r_lines = (\<lambda>key. if filed key (h_log h) = [] then None
                       else Some (lastn (h_size h) (filed key (h_log h)))),
      r_keyed = h_keyed h, r_cached = h_cached h, r_fetchedAt = h_fetchedAt h\<rparr>"

section \<open>The ring is the window of the history\<close>

lemma filed_snoc: "filed key (lg @ [(l, ks)]) = filed key lg @ map (\<lambda>_. l) (filter (\<lambda>k. k = key) ks)"
  by (simp add: filed_def)

lemma filed_Nil [simp]: "filed key [] = []"
  by (simp add: filed_def)

definition window_of :: "nat \<Rightarrow> line list \<Rightarrow> line list option" where
  "window_of n ls = (if ls = [] then None else Some (lastn n ls))"

lemma window_of_snoc:
  "Some (lastn n ((case window_of n ls of None \<Rightarrow> [] | Some x \<Rightarrow> x) @ [l])) = window_of n (ls @ [l])"
  by (simp add: window_of_def lastn_append_lastn)

lemma ring_append_lines:
  "r_lines (ring_append key l r) =
     (r_lines r)(key \<mapsto> lastn (r_size r) (ring_bucket r key @ [l]))"
proof (cases "r_size r < Suc (length (ring_bucket r key))")
  case True
  then show ?thesis by (simp add: ring_append_def lastn_def)
next
  case False
  then show ?thesis by (simp add: ring_append_def lastn_all)
qed

lemma ring_append_frame [simp]:
  "r_size (ring_append key l r) = r_size r" "r_keyed (ring_append key l r) = r_keyed r"
  "r_cached (ring_append key l r) = r_cached r" "r_fetchedAt (ring_append key l r) = r_fetchedAt r"
  by (simp_all add: ring_append_def Let_def)

lemma append_matching_frame [simp]:
  "r_size (append_matching text l keys r) = r_size r"
  "r_keyed (append_matching text l keys r) = r_keyed r"
  "r_cached (append_matching text l keys r) = r_cached r"
  "r_fetchedAt (append_matching text l keys r) = r_fetchedAt r"
  by (induction keys arbitrary: r) auto

text \<open>Filing a line under one more key moves every bucket to the window of the longer list.\<close>

lemma ring_append_window:
  assumes "r_lines r = (\<lambda>k. window_of (r_size r) (ls k))"
  shows "r_lines (ring_append key l r) =
    (\<lambda>k. window_of (r_size (ring_append key l r)) (ls k @ map (\<lambda>_. l) (filter (\<lambda>x. x = k) [key])))"
  using window_of_snoc[of "r_size r"] by (auto simp: ring_append_lines ring_bucket_def assms fun_eq_iff)

lemma append_matching_window:
  "r_lines r = (\<lambda>k. window_of (r_size r) (ls k)) \<Longrightarrow>
   r_lines (append_matching text l keys r) =
    (\<lambda>k. window_of (r_size r)
       (ls k @ map (\<lambda>_. l) (filter (\<lambda>x. x = k) (filter (\<lambda>x. x \<noteq> General \<and> Contains text x) keys))))"
proof (induction keys arbitrary: r ls)
  case Nil
  then show ?case by simp
next
  case (Cons key keys)
  show ?case
  proof (cases "key \<noteq> General \<and> Contains text key")
    case True
    show ?thesis
      using Cons.IH[of "ring_append key l r", OF ring_append_window[OF Cons.prems]] True
      by (auto simp: fun_eq_iff)
  next
    case False
    then show ?thesis using Cons by auto
  qed
qed

lemma window_lines: "r_lines (window h) = (\<lambda>k. window_of (r_size (window h)) (filed k (h_log h)))"
  by (simp add: window_def window_of_def)

lemma currentKeys_window:
  "currentKeys c (window h) =
     (names_now c h, window (h\<lparr>h_cached := if stale_names c h then a_names c else h_cached h,
                              h_fetchedAt := if stale_names c h then a_fetched c else h_fetchedAt h\<rparr>))"
  by (auto simp: currentKeys_def names_now_def stale_names_def window_def)

lemma window_Add: "window (hist_Add c h) = ring_Add c (window h)"
proof (cases "TrimSpace (TrimRight (a_text c) [CHR 0x0D, CHR 0x0A]) = []")
  case True
  then show ?thesis by (simp add: hist_Add_def ring_Add_def)
next
  case False
  define t where "t = TrimRight (a_text c) [CHR 0x0D, CHR 0x0A]"
  define l where "l = \<lparr>l_at = a_at c, l_source = a_source c, l_text = t\<rparr>"
  define h' where "h' = h\<lparr>h_cached := if stale_names c h then a_names c else h_cached h,
                          h_fetchedAt := if stale_names c h then a_fetched c else h_fetchedAt h\<rparr>"
  have add: "ring_Add c (window h) =
      append_matching t l (names_now c h) (ring_append General l (window h'))"
    using False by (simp add: ring_Add_def currentKeys_window t_def l_def h'_def Let_def)
  have hist: "hist_Add c h = h'\<lparr>h_log := h_log h @ [(l, filed_under t (names_now c h))]\<rparr>"
    using False by (simp add: hist_Add_def t_def l_def h'_def Let_def)
  have "r_lines (window (hist_Add c h)) = r_lines (ring_Add c (window h))"
    unfolding add
    by (subst append_matching_window[OF ring_append_window[OF window_lines]])
      (auto simp: hist window_lines filed_snoc filed_under_def window_def window_of_def h'_def fun_eq_iff)
  moreover have "r_size (window (hist_Add c h)) = r_size (ring_Add c (window h))"
    "r_keyed (window (hist_Add c h)) = r_keyed (ring_Add c (window h))"
    "r_cached (window (hist_Add c h)) = r_cached (ring_Add c (window h))"
    "r_fetchedAt (window (hist_Add c h)) = r_fetchedAt (ring_Add c (window h))"
    unfolding add by (simp_all add: hist window_def h'_def)
  ultimately show ?thesis by (intro ring.equality) auto
qed

interpretation buf: refinement hist_Add ring_Add window "\<lambda>_. True"
  by unfold_locales (simp_all add: window_Add)

lemma window_New: "window (hist_New n keyed) = ring_New n keyed"
  by (simp add: window_def hist_New_def ring_New_def)

lemma hist_size [simp]: "h_size (run_cmds hist_Add cs h) = h_size h"
  by (induction cs arbitrary: h) (auto simp: hist_Add_def Let_def)

text \<open>C39: After any calls of Add, what the page shows for a key is the last lines, up to the
  buffer's size, of everything filed under that key since the start: none lost before the bound,
  none kept beyond it, in order.\<close>

lemma ring_shows_latest:
  "Lines key (run_cmds ring_Add cs (ring_New n keyed)) =
     lastn n (filed key (h_log (run_cmds hist_Add cs (hist_New n keyed))))"
proof -
  have "run_cmds ring_Add cs (ring_New n keyed) = window (run_cmds hist_Add cs (hist_New n keyed))"
    using buf.run_simulates[where s = "hist_New n keyed" and cs = cs] by (simp add: window_New)
  then show ?thesis
    by (simp add: Lines_def ring_bucket_def window_def hist_New_def[of n keyed, symmetric])
      (simp add: hist_New_def)
qed

text \<open>The connection names in use were fetched less than three seconds before, or by this call.\<close>

lemma names_fresh:
  "h_keyed h \<Longrightarrow> names_now c h = a_names c \<or>
     names_now c h = h_cached h \<and> a_asked c - h_fetchedAt h < 3 * Second"
  by (auto simp: names_now_def stale_names_def keyTTL_def time_Sub_def time_units split: if_splits)

end
