(* ===== verification/Dates.thy ===== *)
theory Dates
  imports GoStrings GoTime
begin

text \<open>
  Calendar dates as \<open>time.Format\<close> and \<open>time.Parse\<close> treat the layout \<open>2006-01-02\<close>, which names the
  log files: the proleptic Gregorian calendar on days counted from 0000-01-01.
\<close>

definition leap :: "nat \<Rightarrow> bool" where
  "leap y \<longleftrightarrow> y mod 4 = 0 \<and> (y mod 100 \<noteq> 0 \<or> y mod 400 = 0)"

definition year_days :: "nat \<Rightarrow> nat" where
  "year_days y = (if leap y then 366 else 365)"

definition month_days :: "nat \<Rightarrow> nat \<Rightarrow> nat" where
  "month_days y m = (if m = 2 then (if leap y then 29 else 28) else if m \<in> {4, 6, 9, 11} then 30 else 31)"

fun days_before_year :: "nat \<Rightarrow> nat" where
  "days_before_year 0 = 0"
| "days_before_year (Suc y) = days_before_year y + year_days y"

fun days_before_month :: "nat \<Rightarrow> nat \<Rightarrow> nat" where
  "days_before_month y 0 = 0"
| "days_before_month y (Suc m) = (if m = 0 then 0 else days_before_month y m + month_days y m)"

text \<open>The year and the month of a day, by running through them.\<close>

function year_from :: "nat \<Rightarrow> nat \<Rightarrow> nat \<times> nat" where
  "year_from y d = (if d < year_days y then (y, d) else year_from (Suc y) (d - year_days y))"
  by auto
termination by (relation "measure snd") (auto simp: year_days_def)

declare year_from.simps [simp del]

function month_from :: "nat \<Rightarrow> nat \<Rightarrow> nat \<Rightarrow> nat \<times> nat" where
  "month_from y m d = (if 12 \<le> m \<or> d < month_days y m then (m, d) else month_from y (Suc m) (d - month_days y m))"
  by auto
termination by (relation "measure (\<lambda>(y, m, d). 12 - m)") auto

declare month_from.simps [simp del]

text \<open>\<open>(year, month, day)\<close> of a day number, and the day number of a date.\<close>

definition civil :: "nat \<Rightarrow> nat \<times> nat \<times> nat" where
  "civil n = (let (y, r) = year_from 0 n; (m, d) = month_from y 1 r in (y, m, Suc d))"

definition valid_date :: "nat \<Rightarrow> nat \<Rightarrow> nat \<Rightarrow> bool" where
  "valid_date y m d \<longleftrightarrow> 1 \<le> m \<and> m \<le> 12 \<and> 1 \<le> d \<and> d \<le> month_days y m"

definition day_number :: "nat \<Rightarrow> nat \<Rightarrow> nat \<Rightarrow> nat" where
  "day_number y m d = days_before_year y + days_before_month y m + (d - 1)"

section \<open>Text\<close>

definition digit :: "nat \<Rightarrow> char" where
  "digit n = char_of (48 + n mod 10)"

definition two_digits :: "nat \<Rightarrow> string" where
  "two_digits n = [digit (n div 10), digit n]"

definition four_digits :: "nat \<Rightarrow> string" where
  "four_digits n = (if n < 10000 then two_digits (n div 100) @ two_digits (n mod 100) else dec n)"

definition format_day :: "nat \<Rightarrow> string" where
  "format_day n = (case civil n of (y, m, d) \<Rightarrow>
     four_digits y @ ''-'' @ two_digits m @ ''-'' @ two_digits d)"

definition parse_day :: "string \<Rightarrow> nat option" where
  "parse_day s =
     (if length s \<noteq> 10 \<or> s ! 4 \<noteq> CHR ''-'' \<or> s ! 7 \<noteq> CHR ''-'' then None
      else let ys = take 4 s; ms = take 2 (drop 5 s); ds = drop 8 s;
               y = digits_val ys; m = digits_val ms; d = digits_val ds
           in if all_digits ys \<and> all_digits ms \<and> all_digits ds \<and> valid_date y m d
              then Some (day_number y m d) else None)"

section \<open>Dates and day numbers\<close>

lemma year_from_correct:
  "year_from y d = (y', r) \<Longrightarrow> days_before_year y' + r = days_before_year y + d \<and> r < year_days y'"
proof (induction y d rule: year_from.induct)
  case (1 y d)
  then show ?case
    by (cases "d < year_days y") (force simp: year_from.simps[of y d])+
qed

lemma year_from_unique: "r < year_days (y + k) \<Longrightarrow>
   year_from y (days_before_year (y + k) - days_before_year y + r) = (y + k, r)"
proof (induction k arbitrary: y)
  case 0
  then show ?case by (simp add: year_from.simps)
next
  case (Suc k)
  have mono: "days_before_year a \<le> days_before_year (a + b)" for a b
    by (induction b) auto
  have le: "days_before_year (Suc y) \<le> days_before_year (Suc y + k)" by (rule mono)
  have "year_from y (days_before_year (y + Suc k) - days_before_year y + r) =
      year_from (Suc y) (days_before_year (Suc y + k) - days_before_year (Suc y) + r)"
    using le by (subst year_from.simps) (auto simp: algebra_simps)
  also have "\<dots> = (Suc y + k, r)" using Suc.IH[of "Suc y"] Suc.prems by simp
  finally show ?case by simp
qed

lemma months_year: "days_before_month y 12 + month_days y 12 = year_days y"
  by (simp add: eval_nat_numeral month_days_def year_days_def)

lemma months_all: "days_before_month y 13 = year_days y"
  by (simp add: eval_nat_numeral month_days_def year_days_def)

lemma month_from_correct:
  "month_from y m d = (m', r) \<Longrightarrow> 1 \<le> m \<Longrightarrow> m \<le> 12 \<Longrightarrow> days_before_month y m + d < year_days y \<Longrightarrow>
   days_before_month y m' + r = days_before_month y m + d \<and> r < month_days y m' \<and> 1 \<le> m' \<and> m' \<le> 12"
proof (induction y m d rule: month_from.induct)
  case (1 y m d)
  show ?case
  proof (cases "12 \<le> m \<or> d < month_days y m")
    case True
    then have "m' = m" "r = d" using 1(2) by (simp_all add: month_from.simps[of y m d])
    then show ?thesis using 1(3-5) True months_year[of y] by (cases "m = 12") auto
  next
    case False
    then have e: "month_from y (Suc m) (d - month_days y m) = (m', r)"
      using 1(2) by (simp add: month_from.simps[of y m d])
    have s: "days_before_month y (Suc m) = days_before_month y m + month_days y m"
      using 1(3) by simp
    show ?thesis
      using 1(1)[OF False e] 1(3-5) False s by simp
  qed
qed

lemma days_before_month_mono: "1 \<le> m \<Longrightarrow> days_before_month y m \<le> days_before_month y (m + k)"
  by (induction k) auto

lemma month_from_unique: "1 \<le> m \<Longrightarrow> m + k \<le> 12 \<Longrightarrow> r < month_days y (m + k) \<Longrightarrow>
   month_from y m (days_before_month y (m + k) - days_before_month y m + r) = (m + k, r)"
proof (induction k arbitrary: m)
  case 0
  then show ?case by (simp add: month_from.simps)
next
  case (Suc k)
  have le: "days_before_month y (Suc m) \<le> days_before_month y (Suc m + k)"
    by (rule days_before_month_mono) simp
  have s: "days_before_month y (Suc m) = days_before_month y m + month_days y m"
    using Suc.prems by simp
  have "month_from y m (days_before_month y (m + Suc k) - days_before_month y m + r) =
      month_from y (Suc m) (days_before_month y (Suc m + k) - days_before_month y (Suc m) + r)"
    using le s Suc.prems by (subst month_from.simps) (auto simp: algebra_simps)
  also have "\<dots> = (Suc m + k, r)" using Suc by (intro Suc.IH) auto
  finally show ?case by simp
qed

lemma civil_correct:
  assumes "civil n = (y, m, d)"
  shows "valid_date y m d \<and> day_number y m d = n"
proof -
  obtain y' r where y: "year_from 0 n = (y', r)" by fastforce
  obtain m' q where m: "month_from y' 1 r = (m', q)" by fastforce
  have "y' = y" "m' = m" "d = Suc q" using assms by (simp_all add: civil_def y m[simplified])
  then show ?thesis
    using year_from_correct[OF y] month_from_correct[OF m]
    by (auto simp: valid_date_def day_number_def)
qed

lemma month_fits:
  assumes "valid_date y m d"
  shows "days_before_month y m + (d - 1) < year_days y"
proof -
  have "days_before_month y (Suc m) \<le> days_before_month y (Suc m + (12 - m))"
    by (rule days_before_month_mono) simp
  moreover have "Suc m + (12 - m) = 13" using assms by (simp add: valid_date_def)
  ultimately have "days_before_month y (Suc m) \<le> year_days y" by (simp only: months_all)
  then show ?thesis using assms by (auto simp: valid_date_def)
qed

lemma civil_day_number:
  assumes "valid_date y m d"
  shows "civil (day_number y m d) = (y, m, d)"
proof -
  have "year_from 0 (day_number y m d) = (y, days_before_month y m + (d - 1))"
    using year_from_unique[of "days_before_month y m + (d - 1)" 0 y] month_fits[OF assms]
    by (simp add: day_number_def add.assoc)
  moreover have "month_from y 1 (days_before_month y m + (d - 1)) = (m, d - 1)"
  proof -
    have "1 + (m - 1) = m" "d - 1 < month_days y m" using assms by (auto simp: valid_date_def)
    then show ?thesis
      using month_from_unique[of 1 "m - 1" "d - 1" y] assms
      by (simp only: valid_date_def) (simp add: days_before_month.simps(2)[of y 0, simplified])
  qed
  ultimately show ?thesis using assms by (simp add: civil_def valid_date_def)
qed

section \<open>Text and day numbers\<close>

lemma digit_facts [simp]:
  "is_digit (digit n)" "digit_val (digit n) = n mod 10"
  by (simp_all add: digit_def is_digit_def digit_val_def of_char_digit)

lemma digit_of_val: "is_digit c \<Longrightarrow> digit (digit_val c) = c"
  by (auto simp: digit_def digit_val_def is_digit_def)

lemma digit_val_less: "is_digit c \<Longrightarrow> digit_val c < 10"
  by (auto simp: digit_val_def is_digit_def)

lemma two_digits_facts [simp]:
  "all_digits (two_digits n)" "length (two_digits n) = 2"
  by (simp_all add: two_digits_def all_digits_def)

lemma digits_val_two [simp]: "n < 100 \<Longrightarrow> digits_val (two_digits n) = n"
  by (simp add: two_digits_def digits_val_def)

lemma two_digits_val:
  "length s = 2 \<Longrightarrow> all_digits s \<Longrightarrow> two_digits (digits_val s) = s \<and> digits_val s < 100"
proof -
  assume "length s = 2" "all_digits s"
  then obtain a b where s: "s = [a, b]" and d: "is_digit a" "is_digit b"
    by (auto simp: length_Suc_conv eval_nat_numeral all_digits_def)
  have lt: "digit_val a < 10" "digit_val b < 10" using d by (auto dest: digit_val_less)
  have "(digit_val a * 10 + digit_val b) div 10 = digit_val a"
    "digit (digit_val a * 10 + digit_val b) = digit (digit_val b)"
    using lt by (simp_all add: digit_def)
  then show ?thesis using lt d by (simp add: s two_digits_def digits_val_def digit_of_val)
qed

lemma digits_val_append2:
  "length t = 2 \<Longrightarrow> digits_val (s @ t) = digits_val s * 100 + digits_val t"
  by (cases t; cases "tl t") (auto simp: digits_val_def)

lemma four_digits_facts:
  "n < 10000 \<Longrightarrow> all_digits (four_digits n) \<and> length (four_digits n) = 4 \<and> digits_val (four_digits n) = n"
proof -
  assume n: "n < 10000"
  have "n div 100 < 100" using n by simp
  then have "digits_val (two_digits (n div 100) @ two_digits (n mod 100)) = n"
    by (simp add: digits_val_append2)
  moreover have "all_digits (two_digits (n div 100) @ two_digits (n mod 100))"
    by (simp add: two_digits_def all_digits_def)
  ultimately show ?thesis using n by (simp add: four_digits_def)
qed

lemma four_digits_val:
  assumes "length s = 4" "all_digits s"
  shows "four_digits (digits_val s) = s \<and> digits_val s < 10000"
proof -
  have s: "s = take 2 s @ drop 2 s" by simp
  have "all_digits (take 2 s)" "all_digits (drop 2 s)"
    using assms by (auto simp: all_digits_def dest: in_set_takeD in_set_dropD)
  then have v: "two_digits (digits_val (take 2 s)) = take 2 s" "digits_val (take 2 s) < 100"
    "two_digits (digits_val (drop 2 s)) = drop 2 s" "digits_val (drop 2 s) < 100"
    using two_digits_val[of "take 2 s"] two_digits_val[of "drop 2 s"] assms(1) by auto
  have "digits_val s = digits_val (take 2 s) * 100 + digits_val (drop 2 s)"
    using assms(1) by (subst s, subst digits_val_append2) auto
  then show ?thesis using v by (simp add: four_digits_def)
qed

lemma month_days_bound: "month_days y m \<le> 31"
  by (simp add: month_days_def)

lemma list_ten: "length s = 10 \<Longrightarrow> s ! 4 = c \<Longrightarrow> s ! 7 = d \<Longrightarrow>
    s = take 4 s @ [c] @ take 2 (drop 5 s) @ [d] @ drop 8 s"
  by (auto simp: eval_nat_numeral length_Suc_conv)

text \<open>A string parses exactly when it is the text of a date with a year of at most four digits.\<close>

lemma parse_day_iff:
  "parse_day s = Some n \<longleftrightarrow> s = format_day n \<and> fst (civil n) < 10000"
proof
  assume a: "parse_day s = Some n"
  let ?y = "take 4 s" and ?m = "take 2 (drop 5 s)" and ?d = "drop 8 s"
  have len: "length s = 10" "s ! 4 = CHR ''-''" "s ! 7 = CHR ''-''"
    and digs: "all_digits ?y" "all_digits ?m" "all_digits ?d"
    and v: "valid_date (digits_val ?y) (digits_val ?m) (digits_val ?d)"
    and n: "n = day_number (digits_val ?y) (digits_val ?m) (digits_val ?d)"
    using a by (auto simp: parse_day_def Let_def split: if_splits)
  have "civil n = (digits_val ?y, digits_val ?m, digits_val ?d)"
    using civil_day_number[OF v] n by simp
  then show "s = format_day n \<and> fst (civil n) < 10000"
    using four_digits_val[of ?y] two_digits_val[of ?m] two_digits_val[of ?d] len digs list_ten[OF len]
    by (simp add: format_day_def)
next
  assume a: "s = format_day n \<and> fst (civil n) < 10000"
  obtain y m d where c: "civil n = (y, m, d)" by (cases "civil n") auto
  have v: "valid_date y m d" "day_number y m d = n" using civil_correct[OF c] by auto
  have f: "all_digits (four_digits y)" "length (four_digits y) = 4" "digits_val (four_digits y) = y"
    using four_digits_facts[of y] a c by auto
  have md: "m < 100" "d < 100" using v(1) month_days_bound[of y m] by (auto simp: valid_date_def)
  have s: "s = four_digits y @ ''-'' @ two_digits m @ ''-'' @ two_digits d"
    using a c by (simp add: format_day_def)
  show "parse_day s = Some n"
    using f md v by (simp add: s parse_day_def nth_append)
qed

lemma format_day_inj:
  "fst (civil m) < 10000 \<Longrightarrow> fst (civil n) < 10000 \<Longrightarrow> format_day m = format_day n \<Longrightarrow> m = n"
  using parse_day_iff[of "format_day m" m] parse_day_iff[of "format_day m" n] by simp

lemma days_before_year_mono: "a \<le> b \<Longrightarrow> days_before_year a \<le> days_before_year b"
  by (induction b) (auto simp: le_Suc_eq)

lemma year_of_mono: "m \<le> n \<Longrightarrow> fst (civil m) \<le> fst (civil n)"
proof (rule ccontr)
  assume le: "m \<le> n" and "\<not> fst (civil m) \<le> fst (civil n)"
  then have "Suc (fst (year_from 0 n)) \<le> fst (year_from 0 m)"
    by (simp add: civil_def case_prod_beta Let_def)
  then have "days_before_year (fst (year_from 0 n)) + year_days (fst (year_from 0 n))
      \<le> days_before_year (fst (year_from 0 m))"
    using days_before_year_mono by fastforce
  then show False
    using year_from_correct[of 0 n "fst (year_from 0 n)" "snd (year_from 0 n)"]
      year_from_correct[of 0 m "fst (year_from 0 m)" "snd (year_from 0 m)"] le by auto
qed

end
