(* ===== verification/Logging.thy ===== *)
theory Logging
  imports Dates RenderProps
begin

text \<open>
  The daily log files of \<open>internal/logging/logging.go\<close>: \<open>dailyw\<close> is the writer's struct with the
  file system it works on and the offset of the local zone; \<open>newDailyWriter\<close>, \<open>daily_Write\<close>,
  \<open>roll\<close> and \<open>log_prune\<close> are its methods.  A slice out of range is the error \<open>Panicked\<close>: the process
  would die.
\<close>

section \<open>The writer\<close>

datatype log_err = OsErr string | Panicked string

record dailyw =
  d_dir :: string
  d_retention :: duration
  d_zone :: duration
  d_day :: string
  d_file :: "string option"
  d_closed :: bool
  d_fs :: fsys

type_synonym 'a log_act = "dailyw \<Rightarrow> (log_err + 'a) \<times> dailyw"

definition Day :: duration where "Day = 24 * Hour"
definition DefaultRetention :: duration where "DefaultRetention = 30 * 24 * Hour"
definition filePrefix :: string where "filePrefix = ''tsv-vpn''"
definition fileSuffix :: string where "fileSuffix = ''.log''"

text \<open>Day numbers start with the year 0, the zero time is the first day of the year 1.\<close>

definition day_index :: "time \<Rightarrow> nat" where
  "day_index t = nat (t div Day + 366)"

definition local_day :: "duration \<Rightarrow> time \<Rightarrow> string" where
  "local_day zone t = format_day (day_index (t + zone))"

definition log_name :: "string \<Rightarrow> string" where
  "log_name day = filePrefix @ ''-'' @ day @ fileSuffix"

definition fs_lift :: "'a fs_act \<Rightarrow> 'a log_act" where
  "fs_lift act w = (case act (d_fs w) of
     (Inl e, fs) \<Rightarrow> (Inl (OsErr e), w\<lparr>d_fs := fs\<rparr>) | (Inr x, fs) \<Rightarrow> (Inr x, w\<lparr>d_fs := fs\<rparr>))"

text \<open>\<open>s[lo:hi]\<close>.\<close>

definition go_slice :: "nat \<Rightarrow> nat \<Rightarrow> string \<Rightarrow> log_err + string" where
  "go_slice lo hi s =
     (if lo \<le> hi \<and> hi \<le> length s then Inr (take (hi - lo) (drop lo s))
      else Inl (Panicked (''slice bounds out of range ['' @ dec lo @ '':'' @ dec hi @ '']'')))"

section \<open>Pruning\<close>

text \<open>Whether the loop body removes the entry: \<open>Inr True\<close> when it calls \<open>os.Remove\<close>.\<close>

definition prune_entry :: "time \<Rightarrow> string \<Rightarrow> log_err + bool" where
  "prune_entry cutoff name =
     (if length name < length filePrefix + length fileSuffix
         \<or> \<not> HasPrefix name filePrefix \<or> \<not> HasSuffix name fileSuffix then Inr False
      else bindr (go_slice (length filePrefix + 1) (length name - length fileSuffix) name) (\<lambda>stamp.
        case parse_day stamp of None \<Rightarrow> Inr False
        | Some day \<Rightarrow> Inr ((int day - 366) * Day < cutoff - cutoff mod Day)))"

fun prune_entries :: "time \<Rightarrow> string list \<Rightarrow> unit log_act" where
  "prune_entries cutoff [] w = (Inr (), w)"
| "prune_entries cutoff (name # names) w =
     (case prune_entry cutoff name of
        Inl e \<Rightarrow> (Inl e, w)
      | Inr False \<Rightarrow> prune_entries cutoff names w
      | Inr True \<Rightarrow> prune_entries cutoff names (snd (fs_lift (os_Remove (path_join (d_dir w) name)) w)))"

definition log_prune :: "time \<Rightarrow> unit log_act" where
  "log_prune at w = (case fs_lift (os_ReadDir (d_dir w)) w of
     (Inl _, w') \<Rightarrow> (Inr (), w')
   | (Inr entries, w') \<Rightarrow> prune_entries (at - d_retention w) entries w')"

section \<open>Rolling and writing\<close>

text \<open>Opening with \<open>O_CREATE|O_APPEND\<close> keeps what the file holds.\<close>

definition os_OpenFile :: "string \<Rightarrow> unit fs_act" where
  "os_OpenFile path = fs_do (OpenFile path) ()
     (\<lambda>files. if path \<in> fst ` set files then files else row_upsert fst (path, []) files)"

definition file_Write :: "string \<Rightarrow> string \<Rightarrow> unit fs_act" where
  "file_Write path bytes = fs_do (AppendFile path) ()
     (map (\<lambda>(p, c). (p, if p = path then c @ bytes else c)))"

definition roll :: "time \<Rightarrow> unit log_act" where
  "roll at w =
     (let day = local_day (d_zone w) at; path = path_join (d_dir w) (log_name day) in
      sbind (fs_lift (os_OpenFile path)) (\<lambda>_ w.
        log_prune at (w\<lparr>d_file := Some path, d_closed := False, d_day := day\<rparr>))
        (w\<lparr>d_closed := d_file w \<noteq> None\<rparr>))"

text \<open>\<open>now1\<close> and \<open>now2\<close> are the two readings of the clock in \<open>Write\<close>; the panic of a nil file
  cannot happen after \<open>newDailyWriter\<close> succeeded.\<close>

definition daily_Write :: "time \<Rightarrow> time \<Rightarrow> string \<Rightarrow> nat log_act" where
  "daily_Write now1 now2 bytes =
     sbind (\<lambda>w. if local_day (d_zone w) now1 \<noteq> d_day w then roll now2 w else (Inr (), w)) (\<lambda>_ w.
       case d_file w of
         None \<Rightarrow> (Inl (Panicked ''invalid memory address''), w)
       | Some path \<Rightarrow> if d_closed w then (Inl (OsErr ''file already closed''), w)
           else sbind (fs_lift (file_Write path bytes)) (\<lambda>_. slift (Inr (length bytes))) w)"

definition daily_Close :: "unit log_act" where
  "daily_Close w = (case d_file w of
     None \<Rightarrow> (Inr (), w)
   | Some _ \<Rightarrow> (if d_closed w then Inl (OsErr ''file already closed'') else Inr (), w\<lparr>d_closed := True\<rparr>))"

definition newDailyWriter :: "string \<Rightarrow> duration \<Rightarrow> duration \<Rightarrow> time \<Rightarrow> fsys \<Rightarrow> (log_err + unit) \<times> dailyw" where
  "newDailyWriter dir retention zone now1 fs =
     sbind (fs_lift (fs_do (MkdirAll dir) () (\<lambda>f. f))) (\<lambda>_. roll now1)
       \<lparr>d_dir = dir, d_retention = retention, d_zone = zone, d_day = [], d_file = None, d_closed = False, d_fs = fs\<rparr>"

text \<open>\<open>Setup\<close> up to the handlers: no writer without a directory, the default for no retention.\<close>

definition logging_Setup ::
  "string \<Rightarrow> duration \<Rightarrow> duration \<Rightarrow> time \<Rightarrow> fsys \<Rightarrow> log_err + dailyw option" where
  "logging_Setup dir retention zone now1 fs =
     (let retention = (if retention \<le> 0 then DefaultRetention else retention) in
      if dir = [] then Inr None
      else (case newDailyWriter dir retention zone now1 fs of
         (Inl e, _) \<Rightarrow> Inl e | (Inr _, w) \<Rightarrow> Inr (Some w)))"

section \<open>What is removed\<close>

text \<open>
  The prefix, one byte, a day that ended before the day of the cutoff, and the suffix.  The source
  does not look at the byte.
\<close>

definition expired_name :: "time \<Rightarrow> string \<Rightarrow> bool" where
  "expired_name cutoff name \<longleftrightarrow>
     (\<exists>sep n. name = filePrefix @ sep # format_day n @ fileSuffix
        \<and> fst (civil n) < 10000 \<and> int n - 366 < cutoff div Day)"

lemma Day_pos: "0 < Day"
  by (simp add: Day_def time_units)

lemma before_cutoff: "n * Day < cutoff - cutoff mod Day \<longleftrightarrow> n < cutoff div Day"
  using Day_pos by (simp add: minus_mod_eq_mult_div mult.commute[of n])

lemma affixes:
  assumes "length p + length q \<le> length s" "HasPrefix s p" "HasSuffix s q"
  shows "\<exists>m. s = p @ m @ q"
proof -
  obtain t where t: "s = p @ t" using assms(2) by (auto simp: HasPrefix_iff)
  have "drop (length t - length q) t = q" using assms(1,3) t by (simp add: HasSuffix_def)
  then show ?thesis using t append_take_drop_id[of "length t - length q" t] by metis
qed

lemma prune_entry_shape:
  "prune_entry cutoff (filePrefix @ sep # stamp @ fileSuffix) =
     Inr (case parse_day stamp of None \<Rightarrow> False | Some day \<Rightarrow> int day - 366 < cutoff div Day)"
  by (simp add: prune_entry_def go_slice_def filePrefix_def fileSuffix_def HasPrefix_def HasSuffix_def
      before_cutoff split: option.split)

lemma prune_entry_other:
  assumes "\<nexists>m. name = filePrefix @ m @ fileSuffix"
  shows "prune_entry cutoff name = Inr False"
  using assms affixes[of filePrefix fileSuffix name] by (auto simp: prune_entry_def)

lemma prune_entry_iff:
  assumes "name \<noteq> filePrefix @ fileSuffix"
  shows "prune_entry cutoff name = Inr (expired_name cutoff name)"
proof (cases "\<exists>m. name = filePrefix @ m @ fileSuffix")
  case True
  then obtain sep stamp where n: "name = filePrefix @ sep # stamp @ fileSuffix"
    using assms by (metis append_Cons append_Nil list.exhaust)
  have "expired_name cutoff name \<longleftrightarrow> (\<exists>m. parse_day stamp = Some m \<and> int m - 366 < cutoff div Day)"
    by (auto simp: expired_name_def n parse_day_iff)
  then show ?thesis by (auto simp: n prune_entry_shape split: option.split)
next
  case False
  then have "\<not> expired_name cutoff name"
    by (auto simp: expired_name_def)
  then show ?thesis using prune_entry_other[OF False] by simp
qed

lemma prune_entries_files:
  "\<forall>n \<in> set ns. n \<noteq> filePrefix @ fileSuffix \<Longrightarrow>
   \<forall>n \<in> set ns. fs_fault (d_fs w) (Remove (path_join (d_dir w) n)) = None \<Longrightarrow>
   prune_entries cutoff ns w = (Inr (), w\<lparr>d_fs := (d_fs w)\<lparr>fs_files :=
     filter (\<lambda>e. \<forall>n \<in> set ns. expired_name cutoff n \<longrightarrow> fst e \<noteq> path_join (d_dir w) n)
       (fs_files (d_fs w))\<rparr>\<rparr>)"
proof (induction ns arbitrary: w)
  case Nil
  then show ?case by simp
next
  case (Cons n ns)
  show ?case
  proof (cases "expired_name cutoff n")
    case True
    let ?w = "snd (fs_lift (os_Remove (path_join (d_dir w) n)) w)"
    have w: "?w = w\<lparr>d_fs := (d_fs w)\<lparr>fs_files := row_del fst (path_join (d_dir w) n) (fs_files (d_fs w))\<rparr>\<rparr>"
      using Cons.prems(2) by (simp add: fs_lift_def os_Remove_def fs_do_def)
    have eq: "prune_entries cutoff (n # ns) w = prune_entries cutoff ns ?w"
      using True Cons.prems(1) by (simp add: prune_entry_iff)
    show ?thesis
      using Cons.IH[of ?w] Cons.prems True unfolding eq by (simp add: w row_del_def)
  next
    case False
    then show ?thesis using Cons by (simp add: prune_entry_iff)
  qed
qed

text \<open>Pruning a directory that holds no file named exactly \<open>tsv-vpn.log\<close> removes the logs of the
  days before the retention and nothing else, inside or outside the directory.\<close>

lemma prune_removes_expired:
  assumes "fs_fault (d_fs w) (ReadDir (d_dir w)) = None"
    and "\<forall>n. fs_fault (d_fs w) (Remove (path_join (d_dir w) n)) = None"
    and "path_join (d_dir w) (filePrefix @ fileSuffix) \<notin> fst ` set (fs_files (d_fs w))"
  shows "log_prune at w = (Inr (), w\<lparr>d_fs := (d_fs w)\<lparr>fs_files :=
    filter (\<lambda>(p, _). \<not> (\<exists>name. p = path_join (d_dir w) name \<and> CHR ''/'' \<notin> set name
               \<and> expired_name (at - d_retention w) name)) (fs_files (d_fs w))\<rparr>\<rparr>)"
proof -
  let ?fs = "fs_files (d_fs w)" and ?c = "at - d_retention w"
  let ?ns = "dir_entries (d_dir w) ?fs"
  have read: "fs_lift (os_ReadDir (d_dir w)) w = (Inr ?ns, w)"
    using assms(1) by (simp add: fs_lift_def os_ReadDir_def fs_do_def)
  have "\<forall>n \<in> set ?ns. n \<noteq> filePrefix @ fileSuffix" using assms(3) by (auto simp: dir_entries_mem)
  from prune_entries_files[OF this] assms(2)
  have "log_prune at w = (Inr (), w\<lparr>d_fs := (d_fs w)\<lparr>fs_files :=
      filter (\<lambda>e. \<forall>n \<in> set ?ns. expired_name ?c n \<longrightarrow> fst e \<noteq> path_join (d_dir w) n) ?fs\<rparr>\<rparr>)"
    by (simp add: log_prune_def read)
  moreover have "filter (\<lambda>e. \<forall>n \<in> set ?ns. expired_name ?c n \<longrightarrow> fst e \<noteq> path_join (d_dir w) n) ?fs =
      filter (\<lambda>(p, _). \<not> (\<exists>name. p = path_join (d_dir w) name \<and> CHR ''/'' \<notin> set name
         \<and> expired_name ?c name)) ?fs"
    by (rule filter_cong[OF refl]) (force simp: dir_entries_mem)
  ultimately show ?thesis by simp
qed

definition demo_writer :: dailyw where
  "demo_writer =
     \<lparr>d_dir = ''/l'', d_retention = Day, d_zone = 0, d_day = ''0001-02-10'', d_file = None, d_closed = False,
      d_fs = \<lparr>fs_files = [(''/l/notes'', []), (''/l/tsv-vpn-0001-02-08.log'', ''a''),
        (''/l/tsv-vpn-0001-02-09.log'', ''b'')], fs_fault = (\<lambda>_. None)\<rparr>\<rparr>"

lemma prune_removes_expired_witness:
  "fst (log_prune (40 * Day) demo_writer) = Inr () \<and>
   map fst (fs_files (d_fs (snd (log_prune (40 * Day) demo_writer)))) =
     [''/l/notes'', ''/l/tsv-vpn-0001-02-09.log'']"
proof
  show "fst (log_prune (40 * Day) demo_writer) = Inr ()"
    by (subst prune_removes_expired) (auto simp: demo_writer_def path_join_def filePrefix_def fileSuffix_def)
  show "map fst (fs_files (d_fs (snd (log_prune (40 * Day) demo_writer)))) =
     [''/l/notes'', ''/l/tsv-vpn-0001-02-09.log'']" by code_simp
qed

text \<open>A file of exactly that name in the log directory makes the writer panic when it rolls.\<close>

lemma bare_log_name_panics:
  assumes "fs_fault (d_fs w) (ReadDir (d_dir w)) = None"
    and "dir_entries (d_dir w) (fs_files (d_fs w)) = [''tsv-vpn.log'']"
  shows "log_prune at w = (Inl (Panicked ''slice bounds out of range [8:7]''), w)"
proof -
  have "prune_entry cutoff ''tsv-vpn.log'' = Inl (Panicked ''slice bounds out of range [8:7]'')" for cutoff
  proof -
    have "dec 8 = ''8''" "dec 7 = ''7''" by code_simp+
    then show ?thesis
      by (simp add: prune_entry_def go_slice_def filePrefix_def fileSuffix_def HasPrefix_def HasSuffix_def
          numeral_eq_Suc)
  qed
  then show ?thesis
    using assms by (simp add: log_prune_def fs_lift_def os_ReadDir_def fs_do_def)
qed

text \<open>The file being written survives its own pruning when the retention is at least a day and the
  zone less than a day from UTC.\<close>

lemma current_log_kept:
  assumes "Day \<le> d_retention w" "- Day \<le> d_zone w" "0 \<le> t + d_zone w" "fst (civil (day_index (t + d_zone w))) < 10000"
  shows "\<not> expired_name (t - d_retention w) (log_name (local_day (d_zone w) t))"
proof
  let ?n = "day_index (t + d_zone w)"
  assume "expired_name (t - d_retention w) (log_name (local_day (d_zone w) t))"
  then obtain n where "format_day ?n = format_day n" "fst (civil n) < 10000"
    "int n - 366 < (t - d_retention w) div Day"
    by (auto simp: expired_name_def log_name_def local_day_def)
  then have "int ?n - 366 < (t - d_retention w) div Day" using format_day_inj[OF assms(4)] by metis
  also have "\<dots> \<le> (t + d_zone w) div Day"
    using assms Day_pos by (intro zdiv_mono1) auto
  finally show False
    using assms(3) Day_pos by (simp add: day_index_def pos_imp_zdiv_nonneg_iff)
qed

text \<open>With a shorter retention it need not: five hours west of UTC and with a retention of an hour, the file
  that was opened for an evening is removed by the pruning that follows.\<close>

lemma fresh_log_pruned:
  "let t = 40 * Day + 2 * Hour in prune_entry (t - Hour) (log_name (local_day (- 5 * Hour) t)) = Inr True"
  by code_simp

end
