(* ===== verification/Sessions.thy ===== *)
theory Sessions
  imports Store
begin

text \<open>
  Signing in: the login throttle and the session tokens of \<open>internal/web/auth.go\<close> and the admin
  password of \<open>internal/web/credentials.go\<close>.  Each operation takes the readings of the clock it
  makes; bcrypt is the pair of parameters of the operations that hash and compare.
\<close>

section \<open>The throttle\<close>

definition maxLoginFailures :: int where "maxLoginFailures = 5"
definition loginWindow :: duration where "loginWindow = Minute"
definition loginLockout :: duration where "loginLockout = Minute"

record login_attempts =
  la_failures :: int
  la_windowEnds :: time
  la_lockedUntil :: time

type_synonym throttle = "string \<rightharpoonup> login_attempts"

definition pruneAttempts :: "time \<Rightarrow> throttle \<Rightarrow> throttle" where
  "pruneAttempts now m = (\<lambda>ip. case m ip of
     None \<Rightarrow> None
   | Some rec \<Rightarrow> if la_windowEnds rec < now \<and> la_lockedUntil rec < now then None else Some rec)"

text \<open>The wait when the address is locked out, None when it may try.  The two clock readings are the
  one in \<open>pruneAttempts\<close> and the one of \<open>time.Until\<close>.\<close>

definition loginAllowed :: "time \<Rightarrow> time \<Rightarrow> string \<Rightarrow> throttle \<Rightarrow> duration option \<times> throttle" where
  "loginAllowed now1 now2 ip m =
     (let m = pruneAttempts now1 m in
      case m ip of
        None \<Rightarrow> (None, m)
      | Some rec \<Rightarrow> (let wait = time_Sub (la_lockedUntil rec) now2
                     in (if 0 < wait then Some wait else None, m)))"

definition loginFailed :: "time \<Rightarrow> string \<Rightarrow> throttle \<Rightarrow> throttle" where
  "loginFailed now ip m =
     (let rec = (case m ip of None \<Rightarrow> \<lparr>la_failures = 0, la_windowEnds = 0, la_lockedUntil = 0\<rparr> | Some rec \<Rightarrow> rec);
          rec = (if la_windowEnds rec < now
                 then rec\<lparr>la_failures := 0, la_windowEnds := now + loginWindow\<rparr> else rec);
          rec = rec\<lparr>la_failures := la_failures rec + 1\<rparr>;
          rec = (if maxLoginFailures \<le> la_failures rec
                 then rec\<lparr>la_lockedUntil := now + loginLockout, la_failures := 0\<rparr> else rec)
      in m(ip \<mapsto> rec))"

definition loginSucceeded :: "string \<Rightarrow> throttle \<Rightarrow> throttle" where
  "loginSucceeded ip m = m(ip := None)"

section \<open>Session tokens\<close>

type_synonym tokens = "string \<rightharpoonup> time"

definition defaultSession :: duration where "defaultSession = 12 * Hour"

definition session_ttl :: "duration \<Rightarrow> duration" where
  "session_ttl ttl = (if 0 < ttl then ttl else defaultSession)"

text \<open>\<open>base64.RawURLEncoding\<close>.\<close>

definition b64_char :: "nat \<Rightarrow> char" where
  "b64_char n = (if n < 26 then char_of (65 + n) else if n < 52 then char_of (71 + n)
     else if n < 62 then char_of (n - 4) else if n = 62 then CHR ''-'' else CHR ''_'')"

fun b64_encode :: "string \<Rightarrow> string" where
  "b64_encode [] = []"
| "b64_encode [a] = [b64_char (of_char a div 4), b64_char (of_char a mod 4 * 16)]"
| "b64_encode [a, b] =
     [b64_char (of_char a div 4), b64_char (of_char a mod 4 * 16 + of_char b div 16),
      b64_char (of_char b mod 16 * 4)]"
| "b64_encode (a # b # c # rest) =
     [b64_char (of_char a div 4), b64_char (of_char a mod 4 * 16 + of_char b div 16),
      b64_char (of_char b mod 16 * 4 + of_char c div 64), b64_char (of_char c mod 64)] @ b64_encode rest"

definition expire_tokens :: "time \<Rightarrow> tokens \<Rightarrow> tokens" where
  "expire_tokens now m = (\<lambda>token. case m token of
     None \<Rightarrow> None | Some expiry \<Rightarrow> if expiry < now then None else Some expiry)"

text \<open>\<open>raw\<close> is what the random source gives; \<open>now1\<close> is read by \<open>expire\<close>, \<open>now2\<close> for the expiry.\<close>

definition grant :: "duration \<Rightarrow> string + string \<Rightarrow> time \<Rightarrow> time \<Rightarrow> tokens \<Rightarrow> (string + string) \<times> tokens" where
  "grant ttl raw now1 now2 m =
     (case raw of
        Inl e \<Rightarrow> (Inl e, m)
      | Inr bytes \<Rightarrow> (let token = b64_encode bytes
                       in (Inr token, (expire_tokens now1 m)(token \<mapsto> now2 + session_ttl ttl))))"

definition token_Valid :: "time \<Rightarrow> string \<Rightarrow> tokens \<Rightarrow> bool" where
  "token_Valid now token m = (case m token of None \<Rightarrow> False | Some expiry \<Rightarrow> now < expiry)"

definition token_Logout :: "string \<Rightarrow> tokens \<Rightarrow> tokens" where
  "token_Logout token m = m(token := None)"

definition RevokeAll :: "tokens \<Rightarrow> tokens" where
  "RevokeAll m = Map.empty"

section \<open>The admin password\<close>

definition passwordSetting :: string where "passwordSetting = ''admin_password_hash''"
definition minPassword :: nat where "minPassword = 10"

text \<open>\<open>env_hash\<close> is \<open>EnvHash\<close>; a missing store is None.\<close>

definition cred_Hash :: "string \<Rightarrow> store option \<Rightarrow> string" where
  "cred_Hash env_hash db =
     (if env_hash \<noteq> [] then env_hash
      else case db of
        None \<Rightarrow> []
      | Some st \<Rightarrow> (case Setting passwordSetting st of Inl _ \<Rightarrow> [] | Inr stored \<Rightarrow> stored))"

definition NeedsSetup :: "string \<Rightarrow> store option \<Rightarrow> bool" where
  "NeedsSetup env_hash db \<longleftrightarrow> cred_Hash env_hash db = []"

definition cred_Matches :: "(string \<Rightarrow> string \<Rightarrow> bool) \<Rightarrow> string \<Rightarrow> store option \<Rightarrow> string \<Rightarrow> bool" where
  "cred_Matches compare env_hash db password =
     (let hash = cred_Hash env_hash db in hash \<noteq> [] \<and> compare hash password)"

text \<open>\<open>hashed\<close> is what \<open>bcrypt.GenerateFromPassword\<close> returns for the password; the error of the
  store is put into words by \<open>e_text\<close>.\<close>

definition cred_Set ::
  "(dberr \<Rightarrow> string) \<Rightarrow> string \<Rightarrow> string + string \<Rightarrow> string \<Rightarrow> int \<Rightarrow> store option \<Rightarrow> (string + unit) \<times> store option" where
  "cred_Set e_text env_hash hashed password now db =
     (if env_hash \<noteq> [] then (Inl ''the admin password comes from ADMIN_PASSWORD_HASH and cannot be changed here'', db)
      else case db of
        None \<Rightarrow> (Inl ''no database to store the password in'', db)
      | Some st \<Rightarrow>
          if length (runes password) < minPassword
          then (Inl (''the password must be at least '' @ dec minPassword @ '' characters''), db)
          else (case hashed of
              Inl e \<Rightarrow> (Inl e, db)
            | Inr h \<Rightarrow> (case SetSetting passwordSetting h now st of
                  (Inl e, st') \<Rightarrow> (Inl (e_text e), Some st')
                | (Inr _, st') \<Rightarrow> (Inr (), Some st'))))"

definition cred_Clear :: "(dberr \<Rightarrow> string) \<Rightarrow> store option \<Rightarrow> (string + unit) \<times> store option" where
  "cred_Clear e_text db =
     (case db of
        None \<Rightarrow> (Inl ''no database to clear the password from'', db)
      | Some st \<Rightarrow> (case DeleteSetting passwordSetting st of
            (Inl e, st') \<Rightarrow> (Inl (e_text e), Some st') | (Inr _, st') \<Rightarrow> (Inr (), Some st')))"

text \<open>\<open>Login\<close>.\<close>

definition session_Login ::
  "(string \<Rightarrow> string \<Rightarrow> bool) \<Rightarrow> string \<Rightarrow> store option \<Rightarrow> duration \<Rightarrow> string + string \<Rightarrow> time \<Rightarrow> time \<Rightarrow> string \<Rightarrow>
     tokens \<Rightarrow> (string + string) \<times> tokens" where
  "session_Login compare env_hash db ttl raw now1 now2 password m =
     (if \<not> cred_Matches compare env_hash db password then (Inl ''incorrect password'', m)
      else grant ttl raw now1 now2 m)"

section \<open>How many passwords an address can try\<close>

text \<open>
  Failing attempts one after the other: each is checked against the throttle, and when let through
  counted as a failure later.  \<open>tried\<close> are the times at which one address was let through.
\<close>

record login_try =
  tr_ip :: string
  tr_prune :: time
  tr_check :: time
  tr_fail :: time

fun tries :: "login_try list \<Rightarrow> throttle \<Rightarrow> (string \<times> time) list" where
  "tries [] m = []"
| "tries (t # ts) m =
     (case loginAllowed (tr_prune t) (tr_check t) (tr_ip t) m of
        (Some _, m1) \<Rightarrow> tries ts m1
      | (None, m1) \<Rightarrow> (tr_ip t, tr_check t) # tries ts (loginFailed (tr_fail t) (tr_ip t) m1))"

definition tried :: "string \<Rightarrow> login_try list \<Rightarrow> throttle \<Rightarrow> time list" where
  "tried ip ts m = map snd (filter (\<lambda>x. fst x = ip) (tries ts m))"

text \<open>The clock goes forward from one reading to the next.\<close>

fun in_order :: "time \<Rightarrow> login_try list \<Rightarrow> bool" where
  "in_order now [] \<longleftrightarrow> True"
| "in_order now (t # ts) \<longleftrightarrow>
     now \<le> tr_prune t \<and> tr_prune t \<le> tr_check t \<and> tr_check t \<le> tr_fail t \<and> in_order (tr_fail t) ts"

definition within :: "time \<Rightarrow> time list \<Rightarrow> nat" where
  "within a ts = length (filter (\<lambda>t. a \<le> t \<and> t < a + loginWindow) ts)"

text \<open>
  How many more tries of the window that starts at \<open>a\<close> the record of an address leaves room for,
  at a time \<open>now\<close> in or after the window's start.
\<close>

definition room :: "time \<Rightarrow> time \<Rightarrow> login_attempts option \<Rightarrow> int" where
  "room a now r =
     (if a + loginWindow \<le> now then 0
      else case r of
        None \<Rightarrow> 5
      | Some r \<Rightarrow>
          if a + loginWindow \<le> la_lockedUntil r then 0
          else if a + loginWindow \<le> la_windowEnds r then 5 - la_failures r
          else if la_windowEnds r < now then 5
          else 9 - la_failures r)"

definition rec_ok :: "login_attempts option \<Rightarrow> bool" where
  "rec_ok r = (case r of None \<Rightarrow> True | Some r \<Rightarrow> 0 \<le> la_failures r \<and> la_failures r < maxLoginFailures)"

lemmas throttle_units = loginWindow_def loginLockout_def Minute_def maxLoginFailures_def

definition pruned :: "time \<Rightarrow> login_attempts option \<Rightarrow> login_attempts option" where
  "pruned now r = (case r of None \<Rightarrow> None
     | Some r \<Rightarrow> if la_windowEnds r < now \<and> la_lockedUntil r < now then None else Some r)"

definition bumped :: "time \<Rightarrow> login_attempts option \<Rightarrow> login_attempts" where
  "bumped d r = the (loginFailed d [] (\<lambda>_. r) [])"

lemma pruneAttempts_at: "pruneAttempts now m ip = pruned now (m ip)"
  by (simp add: pruneAttempts_def pruned_def split: option.split)

lemma loginFailed_at: "loginFailed d ip m j = (if j = ip then Some (bumped d (m ip)) else m j)"
  by (simp add: loginFailed_def bumped_def Let_def)

lemma loginAllowed_eq:
  "loginAllowed p c ip m =
     ((case pruned p (m ip) of None \<Rightarrow> None
       | Some r \<Rightarrow> let wait = time_Sub (la_lockedUntil r) c in if 0 < wait then Some wait else None),
      pruneAttempts p m)"
  by (simp add: loginAllowed_def Let_def pruneAttempts_at split: option.split)

lemma bumped_fields:
  "0 < d \<Longrightarrow> rec_ok r \<Longrightarrow> bumped d r =
     (let (f, w, l) = (case r of None \<Rightarrow> (0, 0, 0) | Some r \<Rightarrow> (la_failures r, la_windowEnds r, la_lockedUntil r));
          (f, w) = (if w < d then (1, d + loginWindow) else (f + 1, w))
      in if 5 \<le> f then \<lparr>la_failures = 0, la_windowEnds = w, la_lockedUntil = d + loginLockout\<rparr>
         else \<lparr>la_failures = f, la_windowEnds = w, la_lockedUntil = l\<rparr>)"
  by (cases r; cases "the r") (auto simp: bumped_def loginFailed_def Let_def maxLoginFailures_def rec_ok_def)

lemma rec_ok_pruned: "rec_ok r \<Longrightarrow> rec_ok (pruned p r)"
  by (auto simp: rec_ok_def pruned_def split: option.splits)

lemma rec_ok_bumped: "0 < d \<Longrightarrow> rec_ok r \<Longrightarrow> rec_ok (Some (bumped d r))"
  by (cases r) (auto simp: bumped_fields rec_ok_def Let_def maxLoginFailures_def)

lemma room_nonneg: "rec_ok r \<Longrightarrow> 0 \<le> room a now r"
  by (auto simp: room_def rec_ok_def maxLoginFailures_def split: option.split)

lemma room_pruned:
  "a \<le> now \<Longrightarrow> now \<le> p \<Longrightarrow> p \<le> d \<Longrightarrow> rec_ok r \<Longrightarrow> room a d (pruned p r) \<le> room a now r"
  by (cases r) (auto simp: room_def pruned_def rec_ok_def throttle_units)

lemma room_bumped:
  assumes "a \<le> now" "0 < now" "now \<le> p" "p \<le> c" "c \<le> d" "c < a + loginWindow" "rec_ok r"
    and "case pruned p r of None \<Rightarrow> True | Some r \<Rightarrow> la_lockedUntil r \<le> c"
  shows "1 + room a d (Some (bumped d (pruned p r))) \<le> room a now r"
proof (cases "pruned p r")
  case None
  then show ?thesis
    using assms by (cases r) (auto simp: bumped_fields rec_ok_def room_def pruned_def throttle_units Let_def split: if_splits)
next
  case (Some r')
  then have "r = Some r'" by (auto simp: pruned_def split: option.splits if_splits)
  moreover have "0 < d" using assms by simp
  ultimately show ?thesis
    using assms Some by (auto simp: bumped_fields rec_ok_def room_def throttle_units Let_def split: if_splits)
qed

lemma tried_Cons:
  "tried ip (t # ts) m =
     (let m1 = pruneAttempts (tr_prune t) m;
          free = (case pruned (tr_prune t) (m (tr_ip t)) of None \<Rightarrow> True
                  | Some r \<Rightarrow> time_Sub (la_lockedUntil r) (tr_check t) \<le> 0)
      in if free then (if tr_ip t = ip then [tr_check t] else []) @ tried ip ts (loginFailed (tr_fail t) (tr_ip t) m1)
         else tried ip ts m1)"
  by (auto simp: tried_def loginAllowed_eq Let_def split: option.split)

lemma time_Sub_pos: "time_Sub t u \<le> 0 \<longleftrightarrow> t \<le> u"
  by (auto simp: time_Sub_def)

lemma within_Cons: "within a (t # ts) = (if a \<le> t \<and> t < a + loginWindow then 1 else 0) + within a ts"
  by (simp add: within_def)

lemma within_later:
  "in_order now ts \<Longrightarrow> a + loginWindow \<le> now \<Longrightarrow> within a (tried ip ts m) = 0"
proof (induction ts arbitrary: now m)
  case Nil
  then show ?case by (simp add: tried_def within_def)
next
  case (Cons t ts)
  then show ?case by (fastforce simp: tried_Cons Let_def within_Cons)
qed

lemma within_room:
  assumes "a \<le> now" "0 < now" "in_order now ts" "rec_ok (m ip)"
  shows "int (within a (tried ip ts m)) \<le> room a now (m ip)"
  using assms
proof (induction ts arbitrary: now m)
  case Nil
  then show ?case using room_nonneg by (simp add: tried_def within_def)
next
  case (Cons t ts)
  let ?p = "tr_prune t" and ?c = "tr_check t" and ?d = "tr_fail t"
  let ?m1 = "pruneAttempts ?p m"
  have ord: "now \<le> ?p" "?p \<le> ?c" "?c \<le> ?d" "in_order ?d ts" "a \<le> ?d" "0 < ?d"
    using Cons.prems by auto
  have ok1: "rec_ok (?m1 ip)" using Cons.prems(4) by (simp add: pruneAttempts_at rec_ok_pruned)
  have r1: "room a ?d (?m1 ip) \<le> room a now (m ip)"
    using room_pruned[OF Cons.prems(1) ord(1)] ord Cons.prems(4) by (simp add: pruneAttempts_at)
  have same: "int (within a (tried ip ts m')) \<le> room a now (m ip)" if "m' ip = ?m1 ip" for m'
    using Cons.IH[OF ord(5,6,4), of m'] r1 ok1 that by simp
  show ?case
  proof (cases "case pruned ?p (m (tr_ip t)) of None \<Rightarrow> True | Some r \<Rightarrow> la_lockedUntil r \<le> ?c")
    case False
    then have "tried ip (t # ts) m = tried ip ts ?m1"
      by (cases "pruned ?p (m (tr_ip t))") (auto simp: tried_Cons Let_def time_Sub_pos)
    then show ?thesis using same by simp
  next
    case True
    let ?m2 = "loginFailed ?d (tr_ip t) ?m1"
    have eq: "tried ip (t # ts) m = (if tr_ip t = ip then [?c] else []) @ tried ip ts ?m2"
      using True by (cases "pruned ?p (m (tr_ip t))") (auto simp: tried_Cons Let_def time_Sub_pos)
    show ?thesis
    proof (cases "tr_ip t = ip")
      case False
      then show ?thesis using same[of ?m2] eq by (simp add: loginFailed_at)
    next
      case ip: True
      have m2: "?m2 ip = Some (bumped ?d (?m1 ip))" using ip by (simp add: loginFailed_at)
      have ih: "int (within a (tried ip ts ?m2)) \<le> room a ?d (Some (bumped ?d (?m1 ip)))"
        using Cons.IH[OF ord(5,6,4), of ?m2] rec_ok_bumped[OF ord(6) ok1] m2 by simp
      show ?thesis
      proof (cases "?c < a + loginWindow")
        case True
        have "1 + room a ?d (Some (bumped ?d (pruned ?p (m ip)))) \<le> room a now (m ip)"
          using room_bumped[OF Cons.prems(1,2) ord(1-3) True Cons.prems(4)] ip
            \<open>case pruned ?p (m (tr_ip t)) of None \<Rightarrow> True | Some r \<Rightarrow> la_lockedUntil r \<le> ?c\<close> by simp
        then show ?thesis using ih eq ip ord(1,2) Cons.prems(1) by (simp add: within_Cons pruneAttempts_at)
      next
        case False
        then have "within a (tried ip ts ?m2) = 0" using within_later[OF ord(4)] ord(3) by simp
        then show ?thesis using False eq ip room_nonneg[OF Cons.prems(4)] by (simp add: within_Cons)
      qed
    qed
  qed
qed

lemma room_after_bump: "a \<le> d \<Longrightarrow> 0 < d \<Longrightarrow> rec_ok r \<Longrightarrow> room a d (Some (bumped d r)) \<le> 8"
  by (cases r) (auto simp: bumped_fields rec_ok_def room_def throttle_units Let_def split: if_splits)

text \<open>The bound from any record, whether the window has started or not.\<close>

lemma within_nine: "in_order now ts \<Longrightarrow> 0 < now \<Longrightarrow> rec_ok (m ip) \<Longrightarrow> within a (tried ip ts m) \<le> 9"
proof (induction ts arbitrary: now m)
  case Nil
  then show ?case by (simp add: tried_def within_def)
next
  case (Cons t ts)
  let ?p = "tr_prune t" and ?d = "tr_fail t"
  let ?m1 = "pruneAttempts ?p m"
  let ?m2 = "loginFailed ?d (tr_ip t) ?m1"
  have ord: "in_order ?d ts" "0 < ?d" "tr_check t \<le> ?d" using Cons.prems by auto
  have ok1: "rec_ok (?m1 ip)" using Cons.prems(3) by (simp add: pruneAttempts_at rec_ok_pruned)
  have ok2: "rec_ok (?m2 ip)"
    using ok1 rec_ok_bumped[OF ord(2) ok1] by (cases "tr_ip t = ip") (auto simp: loginFailed_at)
  have "tried ip (t # ts) m = tried ip ts ?m1 \<or>
      tried ip (t # ts) m = (if tr_ip t = ip then [tr_check t] else []) @ tried ip ts ?m2"
    by (auto simp: tried_Cons Let_def)
  then show ?case
  proof
    assume "tried ip (t # ts) m = tried ip ts ?m1"
    then show ?thesis using Cons.IH[of _ ?m1, OF ord(1,2) ok1] by simp
  next
    assume eq: "tried ip (t # ts) m = (if tr_ip t = ip then [tr_check t] else []) @ tried ip ts ?m2"
    show ?thesis
    proof (cases "tr_ip t = ip \<and> a \<le> tr_check t")
      case True
      have "int (within a (tried ip ts ?m2)) \<le> room a ?d (?m2 ip)"
        using within_room[of a ?d ts ?m2 ip, OF _ ord(2,1) ok2] True ord(3) by simp
      also have "\<dots> \<le> 8"
        using room_after_bump[OF _ ord(2) ok1, of a] True ord(3) by (simp add: loginFailed_at)
      finally show ?thesis using eq True by (simp add: within_Cons)
    next
      case False
      then show ?thesis using Cons.IH[of _ ?m2, OF ord(1,2) ok2] eq by (auto simp: within_Cons)
    qed
  qed
qed


definition demo_try :: "time \<Rightarrow> login_try" where
  "demo_try t = \<lparr>tr_ip = ''198.51.100.7'', tr_prune = t * Second, tr_check = t * Second, tr_fail = t * Second\<rparr>"


end
