(* ===== verification/Health.thy ===== *)
theory Health
  imports ManagerInv
begin

text \<open>
  \<open>internal/health\<close>: the checker that pings through the tunnels and hands the manager those that
  stop answering (\<open>check.go\<close>), and the report behind \<open>/healthz\<close> (\<open>report.go\<close>).  The checker's record
  holds the manager's system, since both work on one store and one world; the pinger, the clock
  and the text of an address error are in its environment.
\<close>

section \<open>The checker\<close>

record 'w checks =
  h_mgr :: "'w env"
  h_ping :: "addr \<Rightarrow> string \<Rightarrow> duration \<Rightarrow> 'w \<Rightarrow> (string + duration) \<times> 'w"
  h_now :: "'w \<Rightarrow> time \<times> 'w"
  h_addrErr :: "string \<Rightarrow> string"
  h_interval :: duration
  h_timeout :: duration

text \<open>A name that is not in the map of failures reads as zero, as in Go.\<close>

record 'w checker =
  kc_sys :: "'w sys"
  kc_fails :: "string \<Rightarrow> int"
  kc_lines :: "string list"

definition failureLimit :: int where "failureLimit = 3"

definition chk_timeout :: "'w checks \<Rightarrow> duration" where
  "chk_timeout e = (if 0 < h_timeout e then h_timeout e else 2 * Second)"

definition chk_interval :: "'w checks \<Rightarrow> duration" where
  "chk_interval e = (if 0 < h_interval e then h_interval e else 30 * Second)"

definition chk_logf :: "string \<Rightarrow> 'w checker \<Rightarrow> 'w checker" where
  "chk_logf msg c = c\<lparr>kc_lines := kc_lines c @ [msg]\<rparr>"

definition chk_world :: "('w \<Rightarrow> 'a \<times> 'w) \<Rightarrow> 'w checker \<Rightarrow> 'a \<times> 'w checker" where
  "chk_world f c = (case f (y_world (kc_sys c)) of (r, w) \<Rightarrow> (r, c\<lparr>kc_sys := (kc_sys c)\<lparr>y_world := w\<rparr>\<rparr>))"

definition chk_db :: "'a db_op \<Rightarrow> 'w checker \<Rightarrow> 'a db_res \<times> 'w checker" where
  "chk_db f c = (case f (y_store (kc_sys c)) of (r, st) \<Rightarrow> (r, c\<lparr>kc_sys := (kc_sys c)\<lparr>y_store := st\<rparr>\<rparr>))"

definition chk_reset :: "string \<Rightarrow> 'w checker \<Rightarrow> 'w checker" where
  "chk_reset name c = c\<lparr>kc_fails := (kc_fails c)(name := 0)\<rparr>"

definition chk_count :: "string \<Rightarrow> 'w checker \<Rightarrow> int \<times> 'w checker" where
  "chk_count name c =
     (let n = kc_fails c name + 1 in (n, c\<lparr>kc_fails := (kc_fails c)(name := n)\<rparr>))"

definition chk_prune :: "connection list \<Rightarrow> 'w checker \<Rightarrow> 'w checker" where
  "chk_prune conns c =
     c\<lparr>kc_fails := (\<lambda>name. if name \<in> c_name ` set conns then kc_fails c name else 0)\<rparr>"

definition chk_record :: "'w checks \<Rightarrow> connection \<Rightarrow> duration \<Rightarrow> string \<Rightarrow> 'w checker \<Rightarrow> 'w checker" where
  "chk_record e conn rtt failure c =
     (let (now, c1) = chk_world (h_now e) c in
      case chk_db (RecordCheck (c_id conn) now rtt failure) c1 of
        (Inl err, c2) \<Rightarrow> chk_logf (c_name conn @ '': record check: '' @ e_text (h_mgr e) err) c2
      | (Inr _, c2) \<Rightarrow> c2)"

definition bad_ip_line :: "'w checks \<Rightarrow> string \<Rightarrow> string \<Rightarrow> string" where
  "bad_ip_line e subject ip =
     subject @ '': health check ip '' @ go_quote (e_print (h_mgr e)) ip @ '': '' @ h_addrErr e ip"

definition ping_failure :: "addr \<Rightarrow> string \<Rightarrow> string" where
  "ping_failure a err = ''health check '' @ show_addr a @ '': '' @ err"

definition unreachable :: "addr \<Rightarrow> string" where
  "unreachable a = show_addr a @ '' unreachable after '' @ dec_int failureLimit @ '' checks''"

text \<open>
  \<open>Check\<close> in its two halves: up to the end of the ping, and what is done with the answer.  The
  manager's other goroutines run between them.
\<close>

datatype probe = Probe_skip | Probe_bad | Probe_down addr string | Probe_up duration

definition Check_probe :: "'w checks \<Rightarrow> connection \<Rightarrow> 'w checker \<Rightarrow> probe \<times> 'w checker" where
  "Check_probe e conn c =
     (case mgr_Status (c_name conn) (kc_sys c) of (state, iface) \<Rightarrow>
       if state \<noteq> StateUp \<or> iface = [] then (Probe_skip, c)
       else (case ParseAddr (c_hcip conn) of
           None \<Rightarrow> (Probe_bad, c)
         | Some a \<Rightarrow> (case chk_world (h_ping e a iface (chk_timeout e)) c of
               (Inl err, c1) \<Rightarrow> (Probe_down a err, c1)
             | (Inr rtt, c1) \<Rightarrow> (Probe_up rtt, c1))))"

definition Check_verdict :: "'w checks \<Rightarrow> connection \<Rightarrow> probe \<Rightarrow> 'w checker \<Rightarrow> 'w checker" where
  "Check_verdict e conn p c =
     (case p of
        Probe_skip \<Rightarrow> chk_reset (c_name conn) c
      | Probe_bad \<Rightarrow> chk_logf (bad_ip_line e (c_name conn) (c_hcip conn)) c
      | Probe_down a err \<Rightarrow>
          (let c1 = chk_record e conn 0 (ping_failure a err) c;
               (n, c2) = chk_count (c_name conn) c1
           in if failureLimit \<le> n
              then (let c3 = chk_reset (c_name conn) c2
                    in c3\<lparr>kc_sys := Unhealthy (h_mgr e) (c_name conn) (unreachable a) (kc_sys c3)\<rparr>)
              else c2)
      | Probe_up rtt \<Rightarrow> chk_record e conn rtt [] (chk_reset (c_name conn) c))"

definition Check :: "'w checks \<Rightarrow> connection \<Rightarrow> 'w checker \<Rightarrow> 'w checker" where
  "Check e conn c = (case Check_probe e conn c of (p, c1) \<Rightarrow> Check_verdict e conn p c1)"

definition CheckSubnet :: "'w checks \<Rightarrow> local_subnet \<Rightarrow> 'w checker \<Rightarrow> 'w checker" where
  "CheckSubnet e subnet c =
     (case ParseAddr (l_hcip subnet) of
        None \<Rightarrow> chk_logf (bad_ip_line e (l_cidr subnet) (l_hcip subnet)) c
      | Some a \<Rightarrow>
          (let (r, c1) = chk_world (h_ping e a [] (chk_timeout e)) c;
               (rtt, failure) = (case r of Inl err \<Rightarrow> (0, ping_failure a err) | Inr rtt \<Rightarrow> (rtt, []));
               (now, c2) = chk_world (h_now e) c1
           in case chk_db (RecordSubnetCheck (l_id subnet) now rtt failure) c2 of
                (Inl err, c3) \<Rightarrow> chk_logf (l_cidr subnet @ '': record check: '' @ e_text (h_mgr e) err) c3
              | (Inr _, c3) \<Rightarrow> c3))"

fun check_conns :: "'w checks \<Rightarrow> connection list \<Rightarrow> 'w checker \<Rightarrow> 'w checker" where
  "check_conns e [] c = c"
| "check_conns e (conn # conns) c =
     check_conns e conns (if \<not> c_enabled conn \<or> c_hcip conn = [] then c else Check e conn c)"

fun check_subnets :: "'w checks \<Rightarrow> local_subnet list \<Rightarrow> 'w checker \<Rightarrow> 'w checker" where
  "check_subnets e [] c = c"
| "check_subnets e (subnet # subnets) c =
     check_subnets e subnets (if \<not> l_enabled subnet \<or> l_hcip subnet = [] then c else CheckSubnet e subnet c)"

definition CheckAll :: "'w checks \<Rightarrow> 'w checker \<Rightarrow> 'w checker" where
  "CheckAll e c =
     (case ListConnections (y_store (kc_sys c)) of
        Inl err \<Rightarrow> chk_logf (''list connections: '' @ e_text (h_mgr e) err) c
      | Inr conns \<Rightarrow>
          (let c1 = check_conns e conns (chk_prune conns c) in
           case ListLocalSubnets (y_store (kc_sys c1)) of
             Inl err \<Rightarrow> chk_logf (''list local subnets: '' @ e_text (h_mgr e) err) c1
           | Inr subnets \<Rightarrow> check_subnets e subnets c1))"

text \<open>\<open>Run\<close>, over the ticks that have fired.\<close>

definition check_ticks :: "'w checks \<Rightarrow> nat \<Rightarrow> 'w checker \<Rightarrow> 'w checker" where
  "check_ticks e n c = (CheckAll e ^^ n) c"

section \<open>The report\<close>

record report_conn =
  rc_name :: string
  rc_state :: db_state
  rc_iface :: string
  rc_checked :: time
  rc_rtt :: int
  rc_error :: string

record report =
  rp_status :: string
  rp_tailnet :: string
  rp_conns :: "report_conn list"

definition report_entry :: "'w sys \<Rightarrow> connection \<Rightarrow> report_conn" where
  "report_entry s conn =
     (case mgr_Status (c_name conn) s of (state, iface) \<Rightarrow>
      case Status (c_id conn) (y_store s) of
        Inl _ \<Rightarrow> \<lparr>rc_name = c_name conn, rc_state = state, rc_iface = iface, rc_checked = 0,
                  rc_rtt = 0, rc_error = []\<rparr>
      | Inr st \<Rightarrow> \<lparr>rc_name = c_name conn, rc_state = state, rc_iface = iface,
                  rc_checked = t_checked st, rc_rtt = t_rtt st, rc_error = t_err st\<rparr>)"

fun report_conns :: "'w sys \<Rightarrow> connection list \<Rightarrow> report \<Rightarrow> report" where
  "report_conns s [] r = r"
| "report_conns s (conn # conns) r =
     (if \<not> c_enabled conn then report_conns s conns r
      else (let entry = report_entry s conn;
                r1 = r\<lparr>rp_conns := rp_conns r @ [entry]\<rparr>
            in report_conns s conns
                 (if rc_state entry \<noteq> StateUp \<and> rp_status r1 = ''ok''
                  then r1\<lparr>rp_status := ''degraded''\<rparr> else r1)))"

text \<open>\<open>backend\<close> is what the callback returned, when there is one.\<close>

definition Report :: "(string + string) option \<Rightarrow> 'w sys \<Rightarrow> report" where
  "Report backend s =
     (let tailnet = (case backend of None \<Rightarrow> [] | Some (Inl _) \<Rightarrow> ''unreachable'' | Some (Inr st) \<Rightarrow> st);
          r = \<lparr>rp_status = (if tailnet \<noteq> StateRunning then ''down'' else ''ok''),
               rp_tailnet = tailnet, rp_conns = []\<rparr>
      in case ListConnections (y_store s) of
           Inl _ \<Rightarrow> (if rp_status r = ''ok'' then r\<lparr>rp_status := ''degraded''\<rparr> else r)
         | Inr conns \<Rightarrow> report_conns s conns r)"

text \<open>The handler's status code.\<close>

definition healthz_code :: "report \<Rightarrow> nat" where
  "healthz_code r = (if rp_status r = ''down'' then 503 else 200)"

end
