(* ===== verification/Discover.thy ===== *)
theory Discover
  imports Supervise NetipText Crypto
begin

text \<open>
  \<open>internal/discover\<close>: what the program finds out about the network around it.  The candidates for
  local subnets from interfaces, routes and probed hops (\<open>interfaces.go\<close>, \<open>probe.go\<close>), the hosts of
  a sweep (\<open>sweep.go\<close>) and the gateway test (\<open>preflight.go\<close>).  The kernel's interfaces, the pinger and
  the resolver are arguments; theory \<open>Icmp\<close> has the pinger.
\<close>

section \<open>Interfaces and routes\<close>

record iface =
  i_name :: string
  i_addrs :: "prefix list"

record route =
  ro_iface :: string
  ro_dest :: prefix
  ro_gateway :: addr

datatype source = SourceInterface | SourceGateway | SourceProbe

record candidate =
  cd_iface :: string
  cd_cidr :: string
  cd_source :: source

definition cand_Description :: "candidate \<Rightarrow> string" where
  "cand_Description c = (case cd_source c of
     SourceGateway \<Rightarrow> ''guessed from the default gateway''
   | SourceProbe \<Rightarrow> ''found on the path to the internet''
   | SourceInterface \<Rightarrow> ''detected on '' @ cd_iface c)"

definition skippedPrefixes :: "string list" where
  "skippedPrefixes = [''lo'', ''ppp'', ''tailscale'', ''docker'', ''veth'']"

definition skipped :: "string \<Rightarrow> bool" where
  "skipped name \<longleftrightarrow> (\<exists>prefix \<in> set skippedPrefixes. HasPrefix name prefix)"

text \<open>\<open>IsLoopback\<close>, \<open>IsLinkLocalUnicast\<close>, \<open>IsUnspecified\<close> and \<open>IsPrivate\<close> on IPv4 addresses.\<close>

definition in_net :: "32 word \<Rightarrow> 32 word \<Rightarrow> nat \<Rightarrow> bool" where
  "in_net w base bits \<longleftrightarrow> net_agree w base bits"

fun routable :: "addr \<Rightarrow> bool" where
  "routable (Addr4 w) \<longleftrightarrow> \<not> in_net w 0x7F000000 8 \<and> \<not> in_net w 0xA9FE0000 16 \<and> w \<noteq> 0"
| "routable _ \<longleftrightarrow> False"

fun IsPrivate4 :: "addr \<Rightarrow> bool" where
  "IsPrivate4 (Addr4 w) \<longleftrightarrow> in_net w 0x0A000000 8 \<or> in_net w 0xAC100000 12 \<or> in_net w 0xC0A80000 16"
| "IsPrivate4 _ \<longleftrightarrow> False"

definition onInterface :: "addr \<Rightarrow> iface list \<Rightarrow> bool" where
  "onInterface a ifaces \<longleftrightarrow> (\<exists>i \<in> set ifaces. \<exists>p \<in> set (i_addrs i). pfx_contains p a)"

text \<open>The two loops of \<open>Candidates\<close>; the accumulator holds the candidates and what has been seen.\<close>

fun iface_candidates :: "string \<Rightarrow> prefix list \<Rightarrow> candidate list \<times> string list \<Rightarrow> candidate list \<times> string list" where
  "iface_candidates name [] acc = acc"
| "iface_candidates name (p # ps) (cs, seen) =
     iface_candidates name ps
       (if \<not> routable (pfx_addr p) \<or> 31 \<le> pfx_bits p then (cs, seen)
        else (let cidr = show_prefix (Masked p) in
          if cidr \<in> set seen then (cs, seen)
          else (cs @ [\<lparr>cd_iface = name, cd_cidr = cidr, cd_source = SourceInterface\<rparr>], cidr # seen)))"

fun ifaces_candidates :: "iface list \<Rightarrow> candidate list \<times> string list \<Rightarrow> candidate list \<times> string list" where
  "ifaces_candidates [] acc = acc"
| "ifaces_candidates (i # is) acc =
     ifaces_candidates is (if skipped (i_name i) then acc else iface_candidates (i_name i) (i_addrs i) acc)"

fun route_candidates :: "iface list \<Rightarrow> route list \<Rightarrow> candidate list \<times> string list \<Rightarrow> candidate list \<times> string list" where
  "route_candidates ifaces [] acc = acc"
| "route_candidates ifaces (r # rs) (cs, seen) =
     route_candidates ifaces rs
       (if pfx_bits (ro_dest r) \<noteq> 0 \<or> \<not> addr_valid (ro_gateway r) \<or> \<not> routable (ro_gateway r) then (cs, seen)
        else if onInterface (ro_gateway r) ifaces then (cs, seen)
        else (let guess = show_prefix (Masked (PrefixFrom (ro_gateway r) 24)) in
          if guess \<in> set seen then (cs, seen)
          else (cs @ [\<lparr>cd_iface = ro_iface r, cd_cidr = guess, cd_source = SourceGateway\<rparr>], guess # seen)))"

definition Candidates :: "iface list \<Rightarrow> route list \<Rightarrow> candidate list" where
  "Candidates ifaces routes = fst (route_candidates ifaces routes (ifaces_candidates ifaces ([], [])))"

fun hop_candidates :: "iface list \<Rightarrow> addr list \<Rightarrow> candidate list \<times> string list \<Rightarrow> candidate list \<times> string list" where
  "hop_candidates ifaces [] acc = acc"
| "hop_candidates ifaces (h # hs) (cs, seen) =
     hop_candidates ifaces hs
       (if \<not> routable h \<or> \<not> IsPrivate4 h \<or> onInterface h ifaces then (cs, seen)
        else (let guess = show_prefix (Masked (PrefixFrom h 24)) in
          if guess \<in> set seen then (cs, seen)
          else (cs @ [\<lparr>cd_iface = [], cd_cidr = guess, cd_source = SourceProbe\<rparr>], guess # seen)))"

definition HopCandidates :: "addr list \<Rightarrow> iface list \<Rightarrow> candidate list" where
  "HopCandidates hops ifaces = fst (hop_candidates ifaces hops ([], []))"

section \<open>Reading the kernel's tables\<close>

text \<open>\<open>Addr.Unmap\<close>.\<close>

fun Unmap :: "addr \<Rightarrow> addr" where
  "Unmap (Addr6 w z) = (if unat w div 2 ^ 32 = 0xFFFF then Addr4 (ucast w) else Addr6 w z)"
| "Unmap a = a"

text \<open>An address of a system interface: None when it is no network or its bytes are no address,
  otherwise the address and the length of its mask.\<close>

record sys_iface =
  si_name :: string
  si_up :: bool
  si_addrs :: "string + (addr \<times> int) option list"

fun Interfaces :: "sys_iface list \<Rightarrow> string + iface list" where
  "Interfaces [] = Inr []"
| "Interfaces (s # ss) =
     (if \<not> si_up s then Interfaces ss
      else bindr (si_addrs s) (\<lambda>addrs. bindr (Interfaces ss) (\<lambda>rest.
        Inr (\<lparr>i_name = si_name s,
              i_addrs = map (\<lambda>(a, ones). PrefixFrom (Unmap a) ones) (List.map_filter id addrs)\<rparr> # rest))))"

definition InterfaceAddr :: "string \<Rightarrow> string + (addr \<times> int) option list \<Rightarrow> string + addr" where
  "InterfaceAddr name addrs = bindr addrs (\<lambda>addrs.
     case List.find Is4 (map (Unmap \<circ> fst) (List.map_filter id addrs)) of
       Some a \<Rightarrow> Inr a
     | None \<Rightarrow> Inl (name @ '' has no IPv4 address''))"

text \<open>A little-endian word in hexadecimal; the quoting of the field in the error is \<open>quote\<close>.\<close>

definition le_word :: "string \<Rightarrow> 32 word" where
  "le_word raw = foldr (\<lambda>c w. word_of_int (uint w * 256 + int (of_char c))) raw 0"

definition parseHexAddr :: "(string \<Rightarrow> string) \<Rightarrow> string \<Rightarrow> string + addr" where
  "parseHexAddr quote field =
     (case hex_decode field of
        Some raw \<Rightarrow> if length raw = 4 then Inr (Addr4 (le_word raw))
          else Inl (''route field '' @ quote field @ '' is not a hex address'')
      | None \<Rightarrow> Inl (''route field '' @ quote field @ '' is not a hex address''))"

text \<open>\<open>IPMask.Size\<close>: the number of leading ones, zero when the mask has ones after a zero.\<close>

definition mask_size :: "32 word \<Rightarrow> nat" where
  "mask_size w = (case List.find (\<lambda>n. net_masked (- 1) n = w) [0..<33] of Some n \<Rightarrow> n | None \<Rightarrow> 0)"

fun word4 :: "addr \<Rightarrow> 32 word" where
  "word4 (Addr4 w) = w"
| "word4 _ = 0"

fun parse_route_lines :: "(string \<Rightarrow> string) \<Rightarrow> string list \<Rightarrow> string + route list" where
  "parse_route_lines quote [] = Inr []"
| "parse_route_lines quote (l # ls) =
     (let fields = Fields l in
      if length fields < 8 then parse_route_lines quote ls
      else bindr (parseHexAddr quote (fields ! 1)) (\<lambda>dest.
           bindr (parseHexAddr quote (fields ! 2)) (\<lambda>gateway.
           bindr (parseHexAddr quote (fields ! 7)) (\<lambda>mask.
           bindr (parse_route_lines quote ls) (\<lambda>rest.
           Inr (\<lparr>ro_iface = fields ! 0, ro_dest = PrefixFrom dest (int (mask_size (word4 mask))),
                 ro_gateway = gateway\<rparr> # rest))))))"

text \<open>The scanner's lines up to one that is too long, and its error.\<close>

definition ParseRoutes :: "(string \<Rightarrow> string) \<Rightarrow> string \<Rightarrow> string option \<Rightarrow> string + route list" where
  "ParseRoutes quote content rerr =
     (let ls = stream_lines content;
          fit = map drop_cr (takeWhile (\<lambda>l. length l < scanner_max) ls);
          err = (if length fit \<noteq> length ls then Some ''bufio.Scanner: token too long'' else rerr)
      in case fit of
           [] \<Rightarrow> (case err of Some e \<Rightarrow> Inl e | None \<Rightarrow> Inr [])
         | header # rest \<Rightarrow> bindr (parse_route_lines quote rest) (\<lambda>routes.
             case err of Some e \<Rightarrow> Inl e | None \<Rightarrow> Inr routes))"

section \<open>The hosts of a subnet\<close>

definition MaxSweepBits :: int where "MaxSweepBits = 22"

function hosts_from :: "prefix \<Rightarrow> addr \<Rightarrow> addr list" where
  "hosts_from p a = (if pfx_contains p a then a # hosts_from p (Next a) else [])"
  by auto
termination
proof (relation "measure (\<lambda>(p, a). case a of AddrZero \<Rightarrow> 0 | Addr4 w \<Rightarrow> 2 ^ 32 - unat w | Addr6 w z \<Rightarrow> 2 ^ 128 - unat w)", goal_cases)
  case 1
  then show ?case by simp
next
  case (2 p a)
  have top: "unat (v + 1) = unat v + 1" if "v \<noteq> - 1" for v :: "'a::len word"
    using that unatSuc[of v] by (simp add: add.commute eq_neg_iff_add_eq_0)
  show ?case
  proof (cases a)
    case AddrZero
    then have "\<not> pfx_contains p a" by (cases p; cases "pfx_addr p") (auto simp: pfx_contains_def pfx_valid_def)
    then show ?thesis using 2 by blast
  next
    case (Addr4 w)
    have "unat w < 2 ^ 32" using unsigned_less[of w, where ?'a = nat] by simp
    then show ?thesis using Addr4 top[of w] by auto
  next
    case (Addr6 w z)
    have "unat w < 2 ^ 128" using unsigned_less[of w, where ?'a = nat] by simp
    then show ?thesis using Addr6 top[of w] by auto
  qed
qed

declare hosts_from.simps [simp del]

definition Hosts :: "prefix \<Rightarrow> string + addr list" where
  "Hosts prefix =
     (let p = Masked prefix in
      if \<not> Is4 (pfx_addr p) then Inl (''subnet '' @ show_prefix p @ '' is not IPv4'')
      else if pfx_bits p < MaxSweepBits
      then Inl (''subnet '' @ show_prefix p @ '' is larger than /'' @ dec_int MaxSweepBits)
      else (let hosts = hosts_from p (pfx_addr p)
            in Inr (if pfx_bits p \<le> 30 then butlast (tl hosts) else hosts)))"

section \<open>The gateway test\<close>

record preflight_result =
  pf_addr :: addr
  pf_rtt :: duration
  pf_ping :: "string option"

definition preflight_timeout :: "duration \<Rightarrow> duration" where
  "preflight_timeout t = (if t \<le> 0 then 3 * Second else t)"

definition Preflight_Test ::
  "duration \<Rightarrow> (duration \<Rightarrow> string \<Rightarrow> 'w \<Rightarrow> (string + addr list) \<times> 'w) \<Rightarrow>
   (duration \<Rightarrow> addr \<Rightarrow> 'w \<Rightarrow> (string + duration) \<times> 'w) option \<Rightarrow> string \<Rightarrow> 'w \<Rightarrow> (string + preflight_result) \<times> 'w" where
  "Preflight_Test timeout resolve pinger host w =
     (case resolve (preflight_timeout timeout) host w of
        (Inl _, w1) \<Rightarrow> (Inl (host @ '' does not resolve to an IPv4 address''), w1)
      | (Inr [], w1) \<Rightarrow> (Inl (host @ '' does not resolve to an IPv4 address''), w1)
      | (Inr (a # _), w1) \<Rightarrow>
          (case pinger of
             None \<Rightarrow> (Inr \<lparr>pf_addr = Unmap a, pf_rtt = 0, pf_ping = None\<rparr>, w1)
           | Some ping \<Rightarrow> (case ping (preflight_timeout timeout) (Unmap a) w1 of
               (Inl e, w2) \<Rightarrow> (Inr \<lparr>pf_addr = Unmap a, pf_rtt = 0, pf_ping = Some e\<rparr>, w2)
             | (Inr rtt, w2) \<Rightarrow> (Inr \<lparr>pf_addr = Unmap a, pf_rtt = rtt, pf_ping = None\<rparr>, w2))))"

end
