(* ===== verification/Web.thy ===== *)
theory Web
  imports Health Sessions Ring Changelog Dates Discover Logging
begin

text \<open>
  The web server of \<open>internal/web\<close>: what a request and a reply are, the state of \<open>Server\<close>
  (\<open>web.go\<close>), and the helpers that every handler uses.  The state holds the health checker, whose
  record holds the manager's system and the store, since all of them work on the same ones; the
  session tokens and login attempts of \<open>auth.go\<close>; the scans of \<open>scan.go\<close>; the cache of probed hops; the
  log buffer; and the lines the server logs.

  A page or fragment is the name of its template and the data it is given: the templates are not
  modelled.  A handler runs as one step.  The rest of the world (tailscaled, the resolver, the
  kernel's tables, the clock) is reached through the environment \<open>web\<close>, and so are bcrypt, the random
  source and the formatting of a float.
\<close>

section \<open>Requests\<close>

text \<open>The path is the list of the decoded segments of the cleaned path; a form value that is not
  given reads as the empty string.\<close>

record request =
  rq_method :: string
  rq_path :: "string list"
  rq_form :: "string \<Rightarrow> string"
  rq_cookie :: "string option"
  rq_hx :: string
  rq_target :: string
  rq_remote :: string
  rq_tls :: bool

section \<open>What the pages show\<close>

record card =
  ca_conn :: connection
  ca_state :: db_state
  ca_iface :: string
  ca_local :: string
  ca_peer :: string
  ca_since :: string
  ca_rtt :: string
  ca_check :: string
  ca_err :: string
  ca_uptime :: string

record log_entry =
  lv_at :: string
  lv_source :: string
  lv_text :: string

record subnet_health =
  sh_subnet :: local_subnet
  sh_state :: string
  sh_rtt :: string
  sh_check :: string

record form_data =
  fd_conn :: connection
  fd_subnets :: string
  fd_action :: string
  fd_new :: bool
  fd_error :: string

record preflight_data =
  pd_addr :: string
  pd_rtt :: string
  pd_error :: string

record local_row =
  lr_subnet :: local_subnet
  lr_pending :: bool

record vpn_route =
  vr_cidr :: string
  vr_conn :: string
  vr_id :: int
  vr_enabled :: bool
  vr_pending :: bool

record subnets_data =
  sd_local :: "local_row list"
  sd_candidates :: "candidate list"
  sd_vpn :: "vpn_route list"
  sd_error :: string

record tailnet_view =
  tv_state :: string
  tv_running :: bool
  tv_authurl :: string
  tv_host :: string
  tv_dns :: string
  tv_addrs :: "string list"
  tv_routes :: "(string \<times> bool) list"
  tv_exit :: bool
  tv_approved :: bool
  tv_command :: string
  tv_acl :: string
  tv_error :: string
  tv_unreachable :: bool

record scan_host =
  sx_addr :: string
  sx_rtt :: string
  sx_name :: string

record scan_view =
  sw_id :: string
  sw_prefix :: string
  sw_iface :: string
  sw_conn :: int
  sw_subnet :: int
  sw_running :: bool
  sw_error :: string
  sw_hosts :: "scan_host list"

datatype view_data =
    SetupData string
  | LoginData string
  | PasswordData bool string bool
  | DashboardData "card list" "subnet_health list" bool
  | FormData form_data
  | SubnetsData subnets_data
  | TailnetData tailnet_view
  | ReleasesData "release list"
  | StatusData card
  | LogData int "log_entry list"
  | LocalHealthData "subnet_health list"
  | PreflightData preflight_data
  | ScanData scan_view
  | HealthSetData string

section \<open>Replies\<close>

record set_cookie =
  ck_value :: string
  ck_secure :: bool
  ck_maxAge :: int

text \<open>\<open>StaticFile\<close> is a file under \<open>static/\<close>, \<open>HealthJSON\<close> the report of \<open>/healthz\<close>, and \<open>Aborted\<close> a
  handler that panicked.\<close>

datatype body =
    NoBody
  | ErrorText string
  | Page string string bool view_data
  | Fragment string view_data
  | StaticFile "string list"
  | HealthJSON report
  | Aborted

record reply =
  an_code :: nat
  an_headers :: "(string \<times> string) list"
  an_cookie :: "set_cookie option"
  an_body :: body

definition plain_reply :: "nat \<Rightarrow> body \<Rightarrow> reply" where
  "plain_reply code b = \<lparr>an_code = code, an_headers = [], an_cookie = None, an_body = b\<rparr>"

section \<open>The server\<close>

record scan =
  sc_id :: string
  sc_prefix :: prefix
  sc_iface :: string
  sc_conn :: int
  sc_subnet :: int
  sc_started :: time
  sc_results :: "(addr \<times> duration \<times> string) list"
  sc_done :: bool
  sc_err :: "string option"

record 'w tailnet_api =
  ta_status :: "'w \<Rightarrow> (string + tail_status) \<times> 'w"
  ta_up :: "string \<Rightarrow> string \<Rightarrow> string list \<Rightarrow> bool \<Rightarrow> 'w \<Rightarrow> (string + unit) \<times> 'w"
  ta_exit :: "bool \<Rightarrow> 'w \<Rightarrow> (string + unit) \<times> 'w"

text \<open>
  \<open>w_rand k n w\<close> is what the \<open>k\<close>-th read of \<open>n\<close> random bytes gives to a request that finds the world
  \<open>w\<close>; \<open>w_ms\<close> prints microseconds as milliseconds; \<open>w_routes\<close> is the content of the kernel's route
  table and the error of reading it.
\<close>

record 'w web =
  w_mgr :: "'w env"
  w_checks :: "'w checks option"
  w_gateway :: "(string \<Rightarrow> 'w \<Rightarrow> (string + preflight_result) \<times> 'w) option"
  w_tailnet :: "'w tailnet_api option"
  w_scanner :: bool
  w_prober :: "('w \<Rightarrow> (addr list \<times> string option) \<times> 'w) option"
  w_ifaces :: "'w \<Rightarrow> (string + sys_iface list) \<times> 'w"
  w_routes :: "'w \<Rightarrow> (string + string \<times> string option) \<times> 'w"
  w_rand :: "nat \<Rightarrow> nat \<Rightarrow> 'w \<Rightarrow> string + string"
  w_compare :: "string \<Rightarrow> string \<Rightarrow> bool"
  w_bcrypt :: "string \<Rightarrow> 'w \<Rightarrow> string + string"
  w_envHash :: string
  w_ttl :: duration
  w_hostname :: string
  w_changelog :: string
  w_zone :: duration
  w_ms :: "int \<Rightarrow> string"

record 'w server =
  v_chk :: "'w checker"
  v_tokens :: tokens
  v_attempts :: throttle
  v_jobs :: "string \<rightharpoonup> scan"
  v_probedAt :: time
  v_probeHops :: "addr list"
  v_ring :: "ring option"
  v_log :: "string list"

type_synonym ('w, 'a) web_act = "'w server \<Rightarrow> 'a \<times> 'w server"
type_synonym 'w handler = "request \<Rightarrow> ('w, reply) web_act"

text \<open>The parts of the state that handlers reach.\<close>

definition v_store :: "'w server \<Rightarrow> store" where
  "v_store s = y_store (kc_sys (v_chk s))"

definition v_world :: "('w \<Rightarrow> 'a \<times> 'w) \<Rightarrow> ('w, 'a) web_act" where
  "v_world f s = (case chk_world f (v_chk s) of (r, c) \<Rightarrow> (r, s\<lparr>v_chk := c\<rparr>))"

definition v_db :: "'a db_op \<Rightarrow> ('w, 'a db_res) web_act" where
  "v_db f s = (case chk_db f (v_chk s) of (r, c) \<Rightarrow> (r, s\<lparr>v_chk := c\<rparr>))"

definition v_nudge :: "'w server \<Rightarrow> 'w server" where
  "v_nudge s = s\<lparr>v_chk := (v_chk s)\<lparr>kc_sys := Nudge (kc_sys (v_chk s))\<rparr>\<rparr>"

definition clock :: "'w web \<Rightarrow> ('w, time) web_act" where
  "clock e = v_world (e_now (w_mgr e))"

definition slog :: "string \<Rightarrow> 'w server \<Rightarrow> 'w server" where
  "slog msg s = s\<lparr>v_log := v_log s @ [msg]\<rparr>"

definition rand_bytes :: "'w web \<Rightarrow> nat \<Rightarrow> nat \<Rightarrow> 'w server \<Rightarrow> string + string" where
  "rand_bytes e k n s = w_rand e k n (y_world (kc_sys (v_chk s)))"

text \<open>The nonce of an encryption, which the store draws.\<close>

definition nonce :: "'w web \<Rightarrow> nat \<Rightarrow> 'w server \<Rightarrow> string option" where
  "nonce e k s = (case rand_bytes e k (NonceSize (cipher (v_store s))) s of Inl _ \<Rightarrow> None | Inr b \<Rightarrow> Some b)"

text \<open>\<open>db.now\<close>: the clock in whole seconds.\<close>

definition db_now :: "'w web \<Rightarrow> ('w, int) web_act" where
  "db_now e s = (case clock e s of (t, s) \<Rightarrow> (t div Second, s))"

section \<open>Answering\<close>

definition pages :: "string list" where
  "pages = [''login'', ''setup'', ''password'', ''dashboard'', ''connection'', ''subnets'', ''tailnet'', ''releases'']"

definition http_error :: "string \<Rightarrow> nat \<Rightarrow> reply" where
  "http_error msg code = plain_reply code (ErrorText msg)"

text \<open>\<open>http.Redirect\<close> with 303, and the redirect that htmx follows.\<close>

definition see_other :: "string \<Rightarrow> reply" where
  "see_other to = (plain_reply 303 NoBody)\<lparr>an_headers := [(''Location'', to)]\<rparr>"

definition hx_redirect :: "string \<Rightarrow> reply" where
  "hx_redirect to = (plain_reply 204 NoBody)\<lparr>an_headers := [(''HX-Redirect'', to)]\<rparr>"

definition redirectTo :: "request \<Rightarrow> string \<Rightarrow> reply" where
  "redirectTo q to =
     (if rq_hx q = ''true'' then (plain_reply 401 NoBody)\<lparr>an_headers := [(''HX-Redirect'', to)]\<rparr>
      else see_other to)"

definition token_live :: "'w web \<Rightarrow> string \<Rightarrow> ('w, bool) web_act" where
  "token_live e token s =
     (case v_tokens s token of
        None \<Rightarrow> (False, s)
      | Some expiry \<Rightarrow> (case clock e s of (now, s) \<Rightarrow> (now < expiry, s)))"

definition authenticated :: "'w web \<Rightarrow> request \<Rightarrow> ('w, bool) web_act" where
  "authenticated e q s = (case rq_cookie q of None \<Rightarrow> (False, s) | Some token \<Rightarrow> token_live e token s)"

text \<open>\<open>render\<close> after a \<open>WriteHeader\<close> of \<open>wrote\<close>, if there was one; the first status written counts.\<close>

definition page_code :: "nat option \<Rightarrow> nat \<Rightarrow> nat" where
  "page_code wrote code = (case wrote of Some c \<Rightarrow> c | None \<Rightarrow> code)"

definition render :: "'w web \<Rightarrow> request \<Rightarrow> nat option \<Rightarrow> string \<Rightarrow> string \<Rightarrow> view_data \<Rightarrow> ('w, reply) web_act" where
  "render e q wrote page title data s =
     (if page \<notin> set pages then (plain_reply (page_code wrote 500) (ErrorText (''unknown page '' @ page)), s)
      else (case authenticated e q s of
        (auth, s) \<Rightarrow> (plain_reply (page_code wrote 200) (Page page title auth data), s)))"

definition fragment :: "nat option \<Rightarrow> string \<Rightarrow> view_data \<Rightarrow> reply" where
  "fragment wrote name data = plain_reply (page_code wrote 200) (Fragment name data)"

definition web_fail :: "string \<Rightarrow> ('w, reply) web_act" where
  "web_fail err s = (http_error err 500, slog err s)"

definition notFound :: "'w web \<Rightarrow> dberr \<Rightarrow> ('w, reply) web_act" where
  "notFound e err s =
     (if is_not_found err then (http_error (e_text (w_mgr e) err) 404, s)
      else web_fail (e_text (w_mgr e) err) s)"

section \<open>Texts\<close>

text \<open>\<open>since\<close>; the conversion to a float and back keeps the whole seconds, minutes and hours.\<close>

definition since_text :: "duration \<Rightarrow> string" where
  "since_text elapsed =
     (if elapsed < Minute then dec_int (quot elapsed Second) @ ''s''
      else if elapsed < Hour then dec_int (quot elapsed Minute) @ ''m''
      else if elapsed < 24 * Hour
      then dec_int (quot elapsed Hour) @ ''h '' @ dec_int (quot elapsed Minute mod 60) @ ''m''
      else dec_int (quot elapsed Hour div 24) @ ''d '' @ dec_int (quot elapsed Hour mod 24) @ ''h'')"

definition since :: "'w web \<Rightarrow> time \<Rightarrow> ('w, string) web_act" where
  "since e at s = (case clock e s of (now, s) \<Rightarrow> (since_text (time_Sub now at), s))"

definition month_name :: "nat \<Rightarrow> string" where
  "month_name m = [''Jan'', ''Feb'', ''Mar'', ''Apr'', ''May'', ''Jun'', ''Jul'', ''Aug'', ''Sep'', ''Oct'',
     ''Nov'', ''Dec''] ! (m - 1)"

text \<open>The time of day of a local time as \<open>15:04\<close> and \<open>15:04:05\<close>, and the layout \<open>Jan 2 15:04\<close>.\<close>

definition clock_hm :: "time \<Rightarrow> string" where
  "clock_hm t = two_digits (nat (t div Hour mod 24)) @ '':'' @ two_digits (nat (t div Minute mod 60))"

definition clock_hms :: "time \<Rightarrow> string" where
  "clock_hms t = clock_hm t @ '':'' @ two_digits (nat (t div Second mod 60))"

definition day_and_time :: "time \<Rightarrow> string" where
  "day_and_time t = (case civil (day_index t) of (y, m, d) \<Rightarrow> month_name m @ '' '' @ dec d @ '' '' @ clock_hm t)"

definition ms_text :: "'w web \<Rightarrow> int \<Rightarrow> string" where
  "ms_text e us = w_ms e us @ '' ms''"

definition TrimSuffix :: "string \<Rightarrow> string \<Rightarrow> string" where
  "TrimSuffix s suffix = (if HasSuffix s suffix then take (length s - length suffix) s else s)"

end
