(* ===== verification/WebAuth.thy ===== *)
theory WebAuth
  imports Web
begin

text \<open>
  Who may use the web server: the handlers of \<open>internal/web/auth.go\<close>, \<open>setup.go\<close> and \<open>password.go\<close> on
  the sessions, the throttle and the stored password of theory \<open>Sessions\<close>.
\<close>

section \<open>The address of the client\<close>

text \<open>\<open>net.SplitHostPort\<close>: the host, None for an error.\<close>

definition last_colon :: "string \<Rightarrow> nat option" where
  "last_colon s = (case filter (\<lambda>i. s ! i = CHR '':'') [0..<length s] of [] \<Rightarrow> None | is \<Rightarrow> Some (last is))"

definition first_of :: "char \<Rightarrow> string \<Rightarrow> nat option" where
  "first_of c s = List.find (\<lambda>i. s ! i = c) [0..<length s]"

definition SplitHost :: "string \<Rightarrow> string option" where
  "SplitHost hostport =
     (case last_colon hostport of
        None \<Rightarrow> None
      | Some i \<Rightarrow>
          if hd hostport = CHR ''['' then
            (case first_of (CHR '']'') hostport of
               None \<Rightarrow> None
             | Some j \<Rightarrow>
                 if j + 1 = length hostport \<or> j + 1 \<noteq> i then None
                 else if CHR ''['' \<in> set (drop 1 hostport) \<or> CHR '']'' \<in> set (drop (j + 1) hostport) then None
                 else Some (take (j - 1) (drop 1 hostport)))
          else (let host = take i hostport in
            if CHR '':'' \<in> set host then None
            else if CHR ''['' \<in> set hostport \<or> CHR '']'' \<in> set hostport then None
            else Some host))"

definition clientIP :: "request \<Rightarrow> string" where
  "clientIP q = (case SplitHost (rq_remote q) of Some host \<Rightarrow> host | None \<Rightarrow> rq_remote q)"

section \<open>Sessions in the server\<close>

definition needs_setup :: "'w web \<Rightarrow> 'w server \<Rightarrow> bool" where
  "needs_setup e s = NeedsSetup (w_envHash e) (Some (v_store s))"

definition pinned :: "'w web \<Rightarrow> bool" where
  "pinned e \<longleftrightarrow> w_envHash e \<noteq> []"

text \<open>\<open>grant\<close> with the random source and the clock of the server.\<close>

definition srv_grant :: "'w web \<Rightarrow> ('w, string + string) web_act" where
  "srv_grant e s =
     (case rand_bytes e 0 32 s of
        Inl err \<Rightarrow> (Inl err, s)
      | Inr raw \<Rightarrow>
          (let (now1, s1) = clock e s;
               (now2, s2) = clock e s1
           in case grant (w_ttl e) (Inr raw) now1 now2 (v_tokens s2) of
                (r, m) \<Rightarrow> (r, s2\<lparr>v_tokens := m\<rparr>)))"

definition setSession :: "'w web \<Rightarrow> request \<Rightarrow> string \<Rightarrow> reply \<Rightarrow> reply" where
  "setSession e q token r = r\<lparr>an_cookie := Some \<lparr>ck_value = token, ck_secure = rq_tls q,
     ck_maxAge = quot (session_ttl (w_ttl e)) Second\<rparr>\<rparr>"

text \<open>\<open>loginAllowed\<close>, \<open>loginFailed\<close> and \<open>loginSucceeded\<close> on the server's throttle.\<close>

definition throttle_check :: "'w web \<Rightarrow> string \<Rightarrow> ('w, duration option) web_act" where
  "throttle_check e ip s =
     (let (now1, s1) = clock e s;
          s2 = s1\<lparr>v_attempts := pruneAttempts now1 (v_attempts s1)\<rparr>
      in if v_attempts s2 ip = None then (None, s2)
         else (let (now2, s3) = clock e s2;
                   (wait, m) = loginAllowed now1 now2 ip (v_attempts s3)
               in (wait, s3\<lparr>v_attempts := m\<rparr>)))"

definition throttle_failed :: "'w web \<Rightarrow> string \<Rightarrow> 'w server \<Rightarrow> 'w server" where
  "throttle_failed e ip s = (case clock e s of (now, s) \<Rightarrow> s\<lparr>v_attempts := loginFailed now ip (v_attempts s)\<rparr>)"

definition throttle_cleared :: "string \<Rightarrow> 'w server \<Rightarrow> 'w server" where
  "throttle_cleared ip s = s\<lparr>v_attempts := loginSucceeded ip (v_attempts s)\<rparr>"

definition password_matches :: "'w web \<Rightarrow> string \<Rightarrow> 'w server \<Rightarrow> bool" where
  "password_matches e password s = cred_Matches (w_compare e) (w_envHash e) (Some (v_store s)) password"

definition set_password :: "'w web \<Rightarrow> string \<Rightarrow> ('w, string + unit) web_act" where
  "set_password e password s =
     (let (now, s1) = db_now e s;
          hashed = w_bcrypt e password (y_world (kc_sys (v_chk s1)));
          (r, db) = cred_Set (e_text (w_mgr e)) (w_envHash e) hashed password now (Some (v_store s1))
      in (r, s1\<lparr>v_chk := (v_chk s1)\<lparr>kc_sys := (kc_sys (v_chk s1))\<lparr>y_store := the db\<rparr>\<rparr>\<rparr>))"

section \<open>Signing in and out\<close>

definition showLogin :: "'w web \<Rightarrow> 'w handler" where
  "showLogin e q s =
     (if needs_setup e s then (see_other ''/setup'', s)
      else (case authenticated e q s of (auth, s1) \<Rightarrow>
        if auth then (see_other ''/'', s1)
        else render e q None ''login'' ''Sign in'' (LoginData []) s1))"

definition login :: "'w web \<Rightarrow> 'w handler" where
  "login e q s =
     (let ip = clientIP q; (wait, s1) = throttle_check e ip s in
      case wait of
        Some wait \<Rightarrow>
          (case render e q (Some 429) ''login'' ''Sign in''
               (LoginData ''Too many attempts. Wait a minute and try again.'') s1 of
             (r, s2) \<Rightarrow> (r\<lparr>an_headers := [(''Retry-After'', dec_int (quot wait Second + 1))]\<rparr>, s2))
      | None \<Rightarrow>
          (let (r, s2) = (if password_matches e (rq_form q ''password'') s1 then srv_grant e s1
                          else (Inl ''incorrect password'', s1))
           in case r of
                Inl err \<Rightarrow> render e q (Some 401) ''login'' ''Sign in'' (LoginData ''Incorrect password.'')
                             (throttle_failed e ip s2)
              | Inr token \<Rightarrow> (setSession e q token (see_other ''/''), throttle_cleared ip s2)))"

definition logout :: "'w handler" where
  "logout q s =
     (let s1 = (case rq_cookie q of None \<Rightarrow> s | Some token \<Rightarrow> s\<lparr>v_tokens := token_Logout token (v_tokens s)\<rparr>)
      in ((see_other ''/login'')\<lparr>an_cookie := Some \<lparr>ck_value = [], ck_secure = False, ck_maxAge = -1\<rparr>\<rparr>, s1))"

section \<open>Setting up\<close>

definition showSetup :: "'w web \<Rightarrow> 'w handler" where
  "showSetup e q s =
     (if \<not> needs_setup e s then (see_other ''/login'', s)
      else render e q None ''setup'' ''Choose a password'' (SetupData []) s)"

definition setupError :: "'w web \<Rightarrow> request \<Rightarrow> string \<Rightarrow> ('w, reply) web_act" where
  "setupError e q message s = render e q (Some 422) ''setup'' ''Choose a password'' (SetupData message) s"

text \<open>\<open>setup\<close> (here \<open>do_setup\<close>) after its test, so that two requests can both have passed it.\<close>

definition setup_rest :: "'w web \<Rightarrow> 'w handler" where
  "setup_rest e q s =
     (let password = rq_form q ''password'' in
      if password \<noteq> rq_form q ''confirm'' then setupError e q ''Those passwords do not match.'' s
      else (case set_password e password s of
          (Inl err, s1) \<Rightarrow> setupError e q err s1
        | (Inr _, s1) \<Rightarrow> (case srv_grant e s1 of
            (Inl err, s2) \<Rightarrow> web_fail err s2
          | (Inr token, s2) \<Rightarrow> (setSession e q token (see_other ''/''), s2))))"

definition do_setup :: "'w web \<Rightarrow> 'w handler" where
  "do_setup e q s = (if \<not> needs_setup e s then (see_other ''/login'', s) else setup_rest e q s)"

section \<open>Changing the password\<close>

definition showPassword :: "'w web \<Rightarrow> 'w handler" where
  "showPassword e q s = render e q None ''password'' ''Password'' (PasswordData (pinned e) [] False) s"

definition passwordError :: "'w web \<Rightarrow> request \<Rightarrow> string \<Rightarrow> ('w, reply) web_act" where
  "passwordError e q message s =
     render e q (Some 422) ''password'' ''Password'' (PasswordData (pinned e) message False) s"

definition change_rest :: "'w web \<Rightarrow> 'w handler" where
  "change_rest e q s =
     (let password = rq_form q ''password'' in
      if password \<noteq> rq_form q ''confirm'' then passwordError e q ''Those passwords do not match.'' s
      else (case set_password e password s of
          (Inl err, s1) \<Rightarrow> passwordError e q err s1
        | (Inr _, s1) \<Rightarrow> (case srv_grant e (s1\<lparr>v_tokens := RevokeAll (v_tokens s1)\<rparr>) of
            (Inl err, s2) \<Rightarrow> web_fail err s2
          | (Inr token, s2) \<Rightarrow>
              (case render e q None ''password'' ''Password'' (PasswordData False [] True) s2 of
                 (r, s3) \<Rightarrow> (setSession e q token r, s3)))))"

definition changePassword :: "'w web \<Rightarrow> 'w handler" where
  "changePassword e q s =
     (if pinned e
      then passwordError e q ''The admin password comes from ADMIN_PASSWORD_HASH. Change it there.'' s
      else (let ip = clientIP q; (wait, s1) = throttle_check e ip s in
        if wait \<noteq> None then passwordError e q ''Too many attempts. Wait a minute and try again.'' s1
        else if \<not> password_matches e (rq_form q ''current'') s1
        then passwordError e q ''That is not the current password.'' (throttle_failed e ip s1)
        else change_rest e q (throttle_cleared ip s1)))"

section \<open>The gate\<close>

text \<open>\<open>Require\<close>: the handler behind it runs for a live session only.\<close>

definition Require :: "'w web \<Rightarrow> 'w handler \<Rightarrow> 'w handler" where
  "Require e next_handler q s =
     (if needs_setup e s then (redirectTo q ''/setup'', s)
      else (case authenticated e q s of (auth, s1) \<Rightarrow>
        if \<not> auth then (redirectTo q ''/login'', s1) else next_handler q s1))"

end
