(* ===== verification/WebPages.thy ===== *)
theory WebPages
  imports WebAuth
begin

text \<open>
  The pages behind the gate: connections and their form (\<open>internal/web/connections.go\<close>, \<open>form.go\<close>),
  local subnets (\<open>subnets.go\<close>), the tailnet (\<open>tailnet.go\<close>) and the release notes (\<open>releases.go\<close>).
\<close>

section \<open>Showing connections\<close>

definition path_id :: "request \<Rightarrow> int option" where
  "path_id q = (case rq_path q of _ # i # _ \<Rightarrow> ParseInt i | _ \<Rightarrow> None)"

text \<open>\<open>connection\<close>: the connection of the path, or the reply that says why not.\<close>

definition conn_of :: "'w web \<Rightarrow> request \<Rightarrow> ('w, reply + connection) web_act" where
  "conn_of e q s =
     (case path_id q of
        None \<Rightarrow> (Inl (http_error ''bad connection id'' 400), s)
      | Some i \<Rightarrow> (case Connection i (v_store s) of
          Inl err \<Rightarrow> (case notFound e err s of (r, s1) \<Rightarrow> (Inl r, s1))
        | Inr conn \<Rightarrow> (Inr conn, s)))"

definition with_conn :: "'w web \<Rightarrow> (connection \<Rightarrow> ('w, reply) web_act) \<Rightarrow> 'w handler" where
  "with_conn e f q s = (case conn_of e q s of (Inl r, s1) \<Rightarrow> (r, s1) | (Inr conn, s1) \<Rightarrow> f conn s1)"

definition live_state :: "connection \<Rightarrow> 'w server \<Rightarrow> db_state \<times> string" where
  "live_state conn s =
     (if \<not> c_enabled conn then (StateDisabled, []) else mgr_Status (c_name conn) (kc_sys (v_chk s)))"

definition card_of :: "'w web \<Rightarrow> connection \<Rightarrow> ('w, card) web_act" where
  "card_of e conn s =
     (case live_state conn s of (state, iface) \<Rightarrow>
      let view = \<lparr>ca_conn = conn, ca_state = state, ca_iface = iface, ca_local = [], ca_peer = [],
                  ca_since = [], ca_rtt = [], ca_check = [], ca_err = [], ca_uptime = []\<rparr> in
      case Status (c_id conn) (v_store s) of
        Inl err \<Rightarrow> (view, slog (''connection '' @ dec_int (c_id conn) @ '' status: '' @ e_text (w_mgr e) err) s)
      | Inr st \<Rightarrow>
          (let up = (state = StateUp); connected = (t_connected st \<noteq> 0);
               (check, s1) = (if t_checked st \<noteq> 0
                 then (case since e (t_checked st) s of (t, s) \<Rightarrow> (t @ '' ago'', s)) else ([], s));
               (uptime, s2) = (if up \<and> connected then since e (t_connected st) s1 else ([], s1))
           in (view\<lparr>ca_err := t_err st,
                    ca_local := (if up then t_local st else []),
                    ca_peer := (if up then t_peer st else []),
                    ca_since := (if up \<and> connected then day_and_time (t_connected st + w_zone e) else []),
                    ca_rtt := (if 0 < t_rtt st then ms_text e (t_rtt st) else []),
                    ca_check := check, ca_uptime := uptime\<rparr>, s2)))"

fun cards_of :: "'w web \<Rightarrow> connection list \<Rightarrow> ('w, card list) web_act" where
  "cards_of e [] s = ([], s)"
| "cards_of e (conn # conns) s =
     (let (c, s1) = card_of e conn s; (cs, s2) = cards_of e conns s1 in (c # cs, s2))"

definition cards :: "'w web \<Rightarrow> ('w, card list db_res) web_act" where
  "cards e s = (case ListConnections (v_store s) of
     Inl err \<Rightarrow> (Inl err, s) | Inr conns \<Rightarrow> (case cards_of e conns s of (cs, s1) \<Rightarrow> (Inr cs, s1)))"

definition health_state :: "local_subnet \<Rightarrow> string" where
  "health_state subnet =
     (if \<not> l_enabled subnet then ''disabled''
      else if l_hcip subnet = [] then ''unchecked''
      else if l_err subnet \<noteq> [] then ''failed''
      else if l_checked subnet = 0 then ''connecting'' else ''up'')"

fun health_of :: "'w web \<Rightarrow> local_subnet list \<Rightarrow> ('w, subnet_health list) web_act" where
  "health_of e [] s = ([], s)"
| "health_of e (subnet # subnets) s =
     (let (check, s1) = (if l_checked subnet \<noteq> 0
            then (case since e (l_checked subnet) s of (t, s) \<Rightarrow> (t @ '' ago'', s)) else ([], s));
          (rest, s2) = health_of e subnets s1
      in (\<lparr>sh_subnet = subnet, sh_state = health_state subnet,
           sh_rtt = (if 0 < l_rtt subnet \<and> l_err subnet = [] then ms_text e (l_rtt subnet) else []),
           sh_check = check\<rparr> # rest, s2))"

definition subnetHealth :: "'w web \<Rightarrow> ('w, subnet_health list db_res) web_act" where
  "subnetHealth e s = (case ListLocalSubnets (v_store s) of
     Inl err \<Rightarrow> (Inl err, s) | Inr subnets \<Rightarrow> (case health_of e subnets s of (hs, s1) \<Rightarrow> (Inr hs, s1)))"

definition tailnetReady :: "'w web \<Rightarrow> ('w, bool) web_act" where
  "tailnetReady e s =
     (case w_tailnet e of
        None \<Rightarrow> (True, s)
      | Some api \<Rightarrow> (case v_world (ta_status api) s of
          (Inl _, s1) \<Rightarrow> (False, s1) | (Inr st, s1) \<Rightarrow> (Running st, s1)))"

definition dashboard :: "'w web \<Rightarrow> 'w handler" where
  "dashboard e q s =
     (case cards e s of
        (Inl err, s1) \<Rightarrow> web_fail (e_text (w_mgr e) err) s1
      | (Inr cs, s1) \<Rightarrow> (case subnetHealth e s1 of
          (Inl err, s2) \<Rightarrow> web_fail (e_text (w_mgr e) err) s2
        | (Inr hs, s2) \<Rightarrow> (case tailnetReady e s2 of (ready, s3) \<Rightarrow>
            render e q None ''dashboard'' ''Connections'' (DashboardData cs hs (\<not> ready)) s3)))"

definition status_fragment :: "'w web \<Rightarrow> connection \<Rightarrow> ('w, reply) web_act" where
  "status_fragment e conn s = (case card_of e conn s of (c, s1) \<Rightarrow> (fragment None ''connection-status'' (StatusData c), s1))"

definition connectionStatus :: "'w web \<Rightarrow> 'w handler" where
  "connectionStatus e = with_conn e (status_fragment e)"

definition setEnabled :: "'w web \<Rightarrow> bool \<Rightarrow> 'w handler" where
  "setEnabled e enabled = with_conn e (\<lambda>conn s.
     let (now, s1) = db_now e s in
     case v_db (SetConnectionEnabled (c_id conn) enabled now) s1 of
       (Inl err, s2) \<Rightarrow> web_fail (e_text (w_mgr e) err) s2
     | (Inr _, s2) \<Rightarrow> status_fragment e (conn\<lparr>c_enabled := enabled\<rparr>) (v_nudge s2))"

text \<open>\<open>Checks.Check\<close> on the checker of the state.\<close>

definition run_check :: "('w checks \<Rightarrow> 'w checker \<Rightarrow> 'w checker) \<Rightarrow> 'w web \<Rightarrow> 'w server \<Rightarrow> 'w server" where
  "run_check f e s = (case w_checks e of None \<Rightarrow> s | Some h \<Rightarrow> s\<lparr>v_chk := f h (v_chk s)\<rparr>)"

definition checkConnection :: "'w web \<Rightarrow> 'w handler" where
  "checkConnection e = with_conn e (\<lambda>conn s.
     status_fragment e conn (if c_hcip conn \<noteq> [] then run_check (\<lambda>h. Check h conn) e s else s))"

definition deleteConnection :: "'w web \<Rightarrow> 'w handler" where
  "deleteConnection e = with_conn e (\<lambda>conn s.
     case v_db (DeleteConnection (c_id conn)) s of
       (Inl err, s1) \<Rightarrow> web_fail (e_text (w_mgr e) err) s1
     | (Inr _, s1) \<Rightarrow> (plain_reply 200 NoBody, v_nudge s1))"

definition formatLines :: "'w web \<Rightarrow> line list \<Rightarrow> log_entry list" where
  "formatLines e ls = map (\<lambda>l. \<lparr>lv_at = clock_hms (l_at l + w_zone e), lv_source = l_source l, lv_text = l_text l\<rparr>) ls"

definition connectionLogs :: "'w web \<Rightarrow> 'w handler" where
  "connectionLogs e = with_conn e (\<lambda>conn s.
     (fragment None ''connection-logs'' (LogData (c_id conn)
        (case v_ring s of None \<Rightarrow> [] | Some ring \<Rightarrow> formatLines e (Lines (c_name conn) ring))), s))"

definition closeConnectionLogs :: "'w handler" where
  "closeConnectionLogs q s = (plain_reply 200 NoBody, s)"

definition localHealth :: "'w web \<Rightarrow> 'w handler" where
  "localHealth e q s =
     (case subnetHealth e s of
        (Inl err, s1) \<Rightarrow> web_fail (e_text (w_mgr e) err) s1
      | (Inr hs, s1) \<Rightarrow> (fragment None ''local-health'' (LocalHealthData hs), s1))"

definition checkSubnet :: "'w web \<Rightarrow> 'w handler" where
  "checkSubnet e q s =
     (case path_id q of
        None \<Rightarrow> (http_error ''bad subnet id'' 400, s)
      | Some i \<Rightarrow> (case LocalSubnet i (v_store s) of
          Inl err \<Rightarrow> notFound e err s
        | Inr subnet \<Rightarrow> localHealth e q
            (if l_hcip subnet \<noteq> [] then run_check (\<lambda>h. CheckSubnet h subnet) e s else s)))"

section \<open>The form of a connection\<close>

definition splitFields :: "string \<Rightarrow> string list" where
  "splitFields v = FieldsFunc (\<lambda>c. c \<in> {CHR '','', CHR 0x0A, CHR 0x0D, CHR '' '', CHR 0x09}) v"

definition zero_conn :: connection where
  "zero_conn = \<lparr>c_id = 0, c_name = [], c_gateway = [], c_user = [], c_subnets = [], c_hcip = [],
     c_enabled = False, c_created = 0, c_updated = 0\<rparr>"

definition parseConnectionForm :: "request \<Rightarrow> form_data" where
  "parseConnectionForm q =
     \<lparr>fd_conn = zero_conn\<lparr>c_name := TrimSpace (rq_form q ''name''), c_gateway := TrimSpace (rq_form q ''gateway_host''),
        c_user := TrimSpace (rq_form q ''ppp_username''), c_subnets := splitFields (rq_form q ''remote_subnets''),
        c_hcip := TrimSpace (rq_form q ''health_check_ip''), c_enabled := rq_form q ''enabled'' \<noteq> []\<rparr>,
      fd_subnets = rq_form q ''remote_subnets'', fd_action = [], fd_new = False, fd_error = []\<rparr>"

definition form_secrets :: "request \<Rightarrow> secrets" where
  "form_secrets q = \<lparr>s_psk = rq_form q ''psk'', s_pass = rq_form q ''ppp_password''\<rparr>"

definition formError :: "'w web \<Rightarrow> form_data \<Rightarrow> dberr \<Rightarrow> reply" where
  "formError e form err =
     fragment (Some 422) ''connection-form'' (FormData (form\<lparr>fd_error := e_text (w_mgr e) err\<rparr>))"

definition newConnection :: "'w web \<Rightarrow> 'w handler" where
  "newConnection e q s = render e q None ''connection'' ''Add connection''
     (FormData \<lparr>fd_conn = zero_conn\<lparr>c_enabled := True\<rparr>, fd_subnets = [], fd_action = ''/connections'',
                fd_new = True, fd_error = []\<rparr>) s"

definition editConnection :: "'w web \<Rightarrow> 'w handler" where
  "editConnection e q = with_conn e (\<lambda>conn s.
     render e q None ''connection'' (''Edit '' @ c_name conn)
       (FormData \<lparr>fd_conn = conn, fd_subnets = join [CHR 0x0A] (c_subnets conn),
                  fd_action = ''/connections/'' @ dec_int (c_id conn), fd_new = False, fd_error = []\<rparr>) s) q"

definition createConnection :: "'w web \<Rightarrow> 'w handler" where
  "createConnection e q s =
     (let form = (parseConnectionForm q)\<lparr>fd_action := ''/connections'', fd_new := True\<rparr>;
          (now, s1) = db_now e s
      in case v_db (CreateConnection (fd_conn form) (form_secrets q) (nonce e 0 s1) (nonce e 1 s1) now) s1 of
           (Inl err, s2) \<Rightarrow> (formError e form err, s2)
         | (Inr _, s2) \<Rightarrow> (hx_redirect ''/'', v_nudge s2))"

definition updateConnection :: "'w web \<Rightarrow> 'w handler" where
  "updateConnection e q = with_conn e (\<lambda>conn s.
     let form = parseConnectionForm q;
         form = form\<lparr>fd_conn := (fd_conn form)\<lparr>c_id := c_id conn\<rparr>,
                     fd_action := ''/connections/'' @ dec_int (c_id conn)\<rparr>;
         (now, s1) = db_now e s
     in case v_db (UpdateConnection (fd_conn form) (form_secrets q) (nonce e 0 s1) (nonce e 1 s1) now) s1 of
          (Inl err, s2) \<Rightarrow> (formError e form err, s2)
        | (Inr _, s2) \<Rightarrow> (hx_redirect ''/'', v_nudge s2)) q"

definition web_preflight :: "'w web \<Rightarrow> 'w handler" where
  "web_preflight e q s =
     (let host = TrimSpace (rq_form q ''gateway_host'');
          show = (\<lambda>a t err. fragment None ''preflight'' (PreflightData \<lparr>pd_addr = a, pd_rtt = t, pd_error = err\<rparr>))
      in if host = [] \<or> w_gateway e = None then (show [] [] ''Enter a gateway host first.'', s)
         else (case v_world (the (w_gateway e) host) s of
             (Inl err, s1) \<Rightarrow> (show [] [] err, s1)
           | (Inr res, s1) \<Rightarrow>
               (show (show_addr (pf_addr res))
                 (if pf_ping res = None \<and> 0 < pf_rtt res then ms_text e (Microseconds (pf_rtt res)) else []) [], s1)))"

end
