(* ===== verification/WebNet.thy ===== *)
theory WebNet
  imports WebPages
begin

text \<open>
  The pages about the network: local subnets and what is routed (\<open>internal/web/subnets.go\<close>), the tailnet
  with its exit node and the access-control snippet (\<open>tailnet.go\<close>), the scans (\<open>scan.go\<close>) and the release
  notes (\<open>releases.go\<close>).
\<close>

section \<open>Local subnets\<close>

definition routeSet :: "string list \<Rightarrow> string set" where
  "routeSet routes = set routes"

definition approvedRoutes :: "'w web \<Rightarrow> ('w, string set) web_act" where
  "approvedRoutes e s =
     (case w_tailnet e of
        None \<Rightarrow> ({}, s)
      | Some api \<Rightarrow> (case v_world (ta_status api) s of
          (Inl _, s1) \<Rightarrow> ({}, s1) | (Inr st, s1) \<Rightarrow> (routeSet (ts_routes st), s1)))"

definition probeCacheFor :: duration where "probeCacheFor = 10 * Minute"

definition probedHops :: "'w web \<Rightarrow> ('w, addr list) web_act" where
  "probedHops e s =
     (case w_prober e of
        None \<Rightarrow> ([], s)
      | Some hops \<Rightarrow>
          (let (fresh, s1) = (if v_probedAt s = 0 then (False, s)
                 else (case clock e s of (now, s) \<Rightarrow> (time_Sub now (v_probedAt s) < probeCacheFor, s)))
           in if fresh then (v_probeHops s1, s1)
              else (let ((hs, err), s2) = v_world hops s1;
                        s3 = s2\<lparr>v_probeHops := hs\<rparr>;
                        (now, s4) = clock e s3
                    in (hs, s4\<lparr>v_probedAt := now\<rparr>))))"

fun add_candidates :: "candidate list \<Rightarrow> string list \<Rightarrow> candidate list" where
  "add_candidates [] added = []"
| "add_candidates (c # cs) added =
     (if cd_cidr c \<in> set added then add_candidates cs added
      else c # add_candidates cs (cd_cidr c # added))"

definition system_routes :: "'w web \<Rightarrow> ('w, route list) web_act" where
  "system_routes e s =
     (case v_world (w_routes e) s of
        (Inl _, s1) \<Rightarrow> ([], s1)
      | (Inr (content, rerr), s1) \<Rightarrow>
          ((case ParseRoutes (go_quote (e_print (w_mgr e))) content rerr of Inl _ \<Rightarrow> [] | Inr rs \<Rightarrow> rs), s1))"

definition web_candidates :: "'w web \<Rightarrow> local_subnet list \<Rightarrow> ('w, candidate list) web_act" where
  "web_candidates e locals s =
     (case v_world (w_ifaces e) s of
        (Inl _, s1) \<Rightarrow> ([], s1)
      | (Inr sys, s1) \<Rightarrow> (case Interfaces sys of
          Inl _ \<Rightarrow> ([], s1)
        | Inr ifaces \<Rightarrow>
            (let (routes, s2) = system_routes e s1;
                 (hops, s3) = probedHops e s2
             in (add_candidates (Candidates ifaces routes @ HopCandidates hops ifaces) (map l_cidr locals), s3))))"

definition vpn_routes :: "string set \<Rightarrow> connection \<Rightarrow> vpn_route list" where
  "vpn_routes approved conn = map (\<lambda>subnet. \<lparr>vr_cidr = subnet, vr_conn = c_name conn, vr_id = c_id conn,
     vr_enabled = c_enabled conn, vr_pending = (c_enabled conn \<and> subnet \<notin> approved)\<rparr>) (c_subnets conn)"

definition subnetsData :: "'w web \<Rightarrow> string \<Rightarrow> ('w, subnets_data db_res) web_act" where
  "subnetsData e message s =
     (case ListLocalSubnets (v_store s) of
        Inl err \<Rightarrow> (Inl err, s)
      | Inr locals \<Rightarrow> (case ListConnections (v_store s) of
          Inl err \<Rightarrow> (Inl err, s)
        | Inr conns \<Rightarrow>
            (let (approved, s1) = approvedRoutes e s;
                 (cands, s2) = web_candidates e locals s1
             in (Inr \<lparr>sd_local = map (\<lambda>l. \<lparr>lr_subnet = l, lr_pending = (l_enabled l \<and> l_cidr l \<notin> approved)\<rparr>) locals,
                      sd_candidates = cands, sd_vpn = concat (map (vpn_routes approved) conns),
                      sd_error = message\<rparr>, s2))))"

definition web_subnets :: "'w web \<Rightarrow> 'w handler" where
  "web_subnets e q s =
     (case subnetsData e [] s of
        (Inl err, s1) \<Rightarrow> web_fail (e_text (w_mgr e) err) s1
      | (Inr d, s1) \<Rightarrow> render e q None ''subnets'' ''Subnets'' (SubnetsData d) s1)"

definition renderSubnets :: "'w web \<Rightarrow> dberr option \<Rightarrow> 'w handler" where
  "renderSubnets e failure q s =
     (case subnetsData e (case failure of None \<Rightarrow> [] | Some err \<Rightarrow> e_text (w_mgr e) err) s of
        (Inl err, s1) \<Rightarrow> web_fail (e_text (w_mgr e) err) s1
      | (Inr d, s1) \<Rightarrow> (fragment (if failure = None then None else Some 422) ''subnet-panel'' (SubnetsData d), s1))"

definition addSubnet :: "'w web \<Rightarrow> 'w handler" where
  "addSubnet e q s =
     (let (now, s1) = db_now e s in
      case v_db (CreateLocalSubnet \<lparr>l_id = 0, l_cidr = rq_form q ''cidr'', l_desc = rq_form q ''description'',
             l_hcip = [], l_enabled = True, l_created = 0, l_checked = 0, l_rtt = 0, l_err = []\<rparr> now) s1 of
        (Inl err, s2) \<Rightarrow> renderSubnets e (Some err) q s2
      | (Inr _, s2) \<Rightarrow> renderSubnets e None q (v_nudge s2))"

definition setSubnetEnabled :: "'w web \<Rightarrow> bool \<Rightarrow> 'w handler" where
  "setSubnetEnabled e enabled q s =
     (case path_id q of
        None \<Rightarrow> (http_error ''bad subnet id'' 400, s)
      | Some i \<Rightarrow> (case v_db (SetLocalSubnetEnabled i enabled) s of
          (Inl err, s1) \<Rightarrow> web_fail (e_text (w_mgr e) err) s1
        | (Inr _, s1) \<Rightarrow> renderSubnets e None q (v_nudge s1)))"

definition deleteSubnet :: "'w web \<Rightarrow> 'w handler" where
  "deleteSubnet e q s =
     (case path_id q of
        None \<Rightarrow> (http_error ''bad subnet id'' 400, s)
      | Some i \<Rightarrow> (case v_db (DeleteLocalSubnet i) s of
          (Inl err, s1) \<Rightarrow> web_fail (e_text (w_mgr e) err) s1
        | (Inr _, s1) \<Rightarrow> renderSubnets e None q (v_nudge s1)))"

section \<open>Health check targets\<close>

definition useAsHealthCheck :: "'w web \<Rightarrow> 'w handler" where
  "useAsHealthCheck e q = with_conn e (\<lambda>conn s.
     let (now, s1) = db_now e s in
     case v_db (SetHealthCheckIP (c_id conn) (rq_form q ''ip'') now) s1 of
       (Inl err, s2) \<Rightarrow> web_fail (e_text (w_mgr e) err) s2
     | (Inr _, s2) \<Rightarrow> (fragment None ''health-check-set'' (HealthSetData (rq_form q ''ip'')), s2)) q"

definition useAsSubnetHealthCheck :: "'w web \<Rightarrow> 'w handler" where
  "useAsSubnetHealthCheck e q s =
     (case path_id q of
        None \<Rightarrow> (http_error ''bad subnet id'' 400, s)
      | Some i \<Rightarrow>
          (let fromPanel = (rq_target q = ''subnet-panel'') in
           case v_db (SetLocalSubnetHealthCheckIP i (rq_form q ''ip'')) s of
             (Inl err, s1) \<Rightarrow>
               if fromPanel \<and> \<not> is_not_found err then renderSubnets e (Some err) q s1 else notFound e err s1
           | (Inr _, s1) \<Rightarrow>
               if fromPanel then renderSubnets e None q s1
               else (fragment None ''health-check-set'' (HealthSetData (rq_form q ''ip'')), s1)))"

section \<open>The tailnet\<close>

definition privateRanges :: "string list" where
  "privateRanges = [''10.0.0.0/8'', ''172.16.0.0/12'', ''192.168.0.0/16'']"

text \<open>The first private range that overlaps a prefix.\<close>

definition private_of :: "prefix \<Rightarrow> string option" where
  "private_of p = List.find (\<lambda>rng. case ParseSubnet rng of Inl _ \<Rightarrow> False | Inr block \<Rightarrow> Overlaps block p) privateRanges"

fun covering_loop :: "string list \<Rightarrow> string list \<times> string list \<Rightarrow> string list \<times> string list" where
  "covering_loop [] acc = acc"
| "covering_loop (route # routes) (covered, extra) =
     covering_loop routes
       (case ParseSubnet route of
          Inl _ \<Rightarrow> (covered, extra)
        | Inr p \<Rightarrow> (case private_of p of
            Some rng \<Rightarrow> (rng # covered, extra)
          | None \<Rightarrow> (covered, if show_prefix p \<in> set extra then extra else extra @ [show_prefix p])))"

definition coveringPrefixes :: "string list \<Rightarrow> string list" where
  "coveringPrefixes routes =
     (case covering_loop routes ([], []) of (covered, extra) \<Rightarrow>
      let prefixes = filter (\<lambda>rng. rng \<in> set covered) privateRanges @ sort extra
      in if prefixes = [] then privateRanges else prefixes)"

definition quoted :: "string \<Rightarrow> string" where
  "quoted s = [dquote] @ s @ [dquote]"

definition newline :: string where "newline = [CHR 0x0A]"

definition autoApproverACL :: "string list \<Rightarrow> string" where
  "autoApproverACL routes =
     ''{'' @ newline @ ''  '' @ quoted ''tagOwners'' @ '': {'' @ newline @
     ''    '' @ quoted ''tag:subnet-router'' @ '': ['' @ quoted ''autogroup:admin'' @ '']'' @ newline @
     ''  },'' @ newline @ ''  '' @ quoted ''autoApprovers'' @ '': {'' @ newline @ ''    '' @ quoted ''routes'' @ '': {'' @ newline @
     join ('','' @ newline) (map (\<lambda>p. ''        '' @ quoted p @ '': ['' @ quoted ''tag:subnet-router'' @ '']'') (coveringPrefixes routes)) @ newline @
     ''    }'' @ newline @ ''  }'' @ newline @ ''}''"

definition unreachable_view :: "string \<Rightarrow> tailnet_view" where
  "unreachable_view message = \<lparr>tv_state = ''unreachable'', tv_running = False, tv_authurl = [], tv_host = [],
     tv_dns = [], tv_addrs = [], tv_routes = [], tv_exit = False, tv_approved = False, tv_command = [],
     tv_acl = [], tv_error = message, tv_unreachable = True\<rparr>"

definition tailnetView :: "'w web \<Rightarrow> string \<Rightarrow> ('w, tailnet_view) web_act" where
  "tailnetView e message s =
     (case w_tailnet e of
        None \<Rightarrow> (unreachable_view message, s)
      | Some api \<Rightarrow> (case v_world (ta_status api) s of
          (Inl err, s1) \<Rightarrow> (unreachable_view (if message = [] then err else message), s1)
        | (Inr st, s1) \<Rightarrow>
            (let exit = (case ExitNode (v_store s1) of Inr b \<Rightarrow> b | Inl _ \<Rightarrow> False);
                 view = \<lparr>tv_state = ts_backend st, tv_running = Running st, tv_authurl = ts_authurl st,
                   tv_host = ts_host st, tv_dns = TrimSuffix (ts_dns st) ''.'', tv_addrs = ts_ips st,
                   tv_routes = [], tv_exit = exit, tv_approved = ts_exit st, tv_command = [], tv_acl = [],
                   tv_error = message, tv_unreachable = False\<rparr>
             in (case AdvertisedRoutes (v_store s1) of
                   Inl _ \<Rightarrow> (view, s1)
                 | Inr routes \<Rightarrow>
                     (view\<lparr>tv_routes := map (\<lambda>r. (r, r \<in> routeSet (ts_routes st))) routes,
                           tv_acl := autoApproverACL routes,
                           tv_command := UpCommand (w_hostname e) routes exit\<rparr>, s1)))))"

definition tailnetPage :: "'w web \<Rightarrow> 'w handler" where
  "tailnetPage e q s =
     (case tailnetView e [] s of (v, s1) \<Rightarrow> render e q None ''tailnet'' ''Tailnet'' (TailnetData v) s1)"

definition tailnet_fragment :: "'w web \<Rightarrow> string \<Rightarrow> ('w, reply) web_act" where
  "tailnet_fragment e message s =
     (case tailnetView e message s of (v, s1) \<Rightarrow> (fragment None ''tailnet-status'' (TailnetData v), s1))"

definition tailnetStatus :: "'w web \<Rightarrow> 'w handler" where
  "tailnetStatus e q s = tailnet_fragment e [] s"

definition failure_text :: "string + unit \<Rightarrow> string" where
  "failure_text r = (case r of Inl err \<Rightarrow> err | Inr _ \<Rightarrow> [])"

text \<open>A call on the missing client is a call on a nil interface, which panics.\<close>

definition tailnetLogin :: "'w web \<Rightarrow> 'w handler" where
  "tailnetLogin e q s =
     (let key = TrimSpace (rq_form q ''authkey'') in
      if key = [] then tailnet_fragment e ''Paste an auth key first.'' s
      else (case AdvertisedRoutes (v_store s) of
          Inl err \<Rightarrow> web_fail (e_text (w_mgr e) err) s
        | Inr routes \<Rightarrow> (case ExitNode (v_store s) of
            Inl err \<Rightarrow> web_fail (e_text (w_mgr e) err) s
          | Inr exitNode \<Rightarrow> (case w_tailnet e of
              None \<Rightarrow> (plain_reply 0 Aborted, s)
            | Some api \<Rightarrow> (case v_world (ta_up api (w_hostname e) key routes exitNode) s of
                (r, s1) \<Rightarrow> tailnet_fragment e (failure_text r) s1)))))"

definition tailnetExitNode :: "'w web \<Rightarrow> 'w handler" where
  "tailnetExitNode e q s =
     (let enabled = (rq_form q ''enabled'' = ''1''); (now, s1) = db_now e s in
      case v_db (SetExitNode enabled now) s1 of
        (Inl err, s2) \<Rightarrow> web_fail (e_text (w_mgr e) err) s2
      | (Inr _, s2) \<Rightarrow> (case w_tailnet e of
          None \<Rightarrow> (plain_reply 0 Aborted, s2)
        | Some api \<Rightarrow> (case v_world (ta_exit api enabled) s2 of
            (r, s3) \<Rightarrow> tailnet_fragment e (failure_text r) s3)))"

section \<open>Scans\<close>

definition scanRetention :: duration where "scanRetention = 15 * Minute"

definition expired :: "time \<Rightarrow> scan \<Rightarrow> bool" where
  "expired now job \<longleftrightarrow> scanRetention < time_Sub now (sc_started job)"

text \<open>The clock is read for every job of the map; \<open>now\<close> stands for these readings.\<close>

definition scans_add :: "time \<Rightarrow> scan \<Rightarrow> (string \<rightharpoonup> scan) \<Rightarrow> (string \<rightharpoonup> scan)" where
  "scans_add now job m =
     (\<lambda>i. case m i of None \<Rightarrow> None | Some j \<Rightarrow> if expired now j then None else Some j)(sc_id job \<mapsto> job)"

definition scans_get :: "time \<Rightarrow> string \<Rightarrow> (string \<rightharpoonup> scan) \<Rightarrow> scan option \<times> (string \<rightharpoonup> scan)" where
  "scans_get now i m =
     (case m i of
        None \<Rightarrow> (None, m)
      | Some job \<Rightarrow> if expired now job then (None, m(i := None)) else (Some job, m))"

text \<open>\<open>sort.Slice\<close> by address.\<close>

fun insert_result :: "addr \<times> duration \<times> string \<Rightarrow> (addr \<times> duration \<times> string) list \<Rightarrow> (addr \<times> duration \<times> string) list" where
  "insert_result x [] = [x]"
| "insert_result x (y # ys) = (if addr_less (fst y) (fst x) then y # insert_result x ys else x # y # ys)"

definition empty_view :: "string \<Rightarrow> scan_view" where
  "empty_view err = \<lparr>sw_id = [], sw_prefix = [], sw_iface = [], sw_conn = 0, sw_subnet = 0, sw_running = False,
     sw_error = err, sw_hosts = []\<rparr>"

definition job_view :: "'w web \<Rightarrow> scan \<Rightarrow> scan_view" where
  "job_view e job =
     \<lparr>sw_id = sc_id job, sw_prefix = show_prefix (sc_prefix job), sw_iface = sc_iface job,
      sw_conn = sc_conn job, sw_subnet = sc_subnet job, sw_running = (\<not> sc_done job),
      sw_error = (case sc_err job of None \<Rightarrow> [] | Some err \<Rightarrow> err),
      sw_hosts = map (\<lambda>(a, rtt, name). \<lparr>sx_addr = show_addr a, sx_rtt = ms_text e (Microseconds rtt), sx_name = name\<rparr>)
        (foldr insert_result (sc_results job) [])\<rparr>"

definition scan_fragment :: "scan_view \<Rightarrow> reply" where
  "scan_fragment v = fragment None ''scan'' (ScanData v)"

text \<open>\<open>randomID\<close>; eight zero bytes when the random source fails.\<close>

definition randomID :: "'w web \<Rightarrow> 'w server \<Rightarrow> string" where
  "randomID e s = hex_encode (case rand_bytes e 0 8 s of Inr raw \<Rightarrow> raw | Inl _ \<Rightarrow> replicate 8 (CHR 0x00))"

text \<open>What \<open>startScan\<close> refuses before there is a job.\<close>

definition scan_refused :: "'w web \<Rightarrow> request \<Rightarrow> string + prefix" where
  "scan_refused e q =
     (case ParseSubnet (rq_form q ''cidr'') of
        Inl err \<Rightarrow> Inl (e_text (w_mgr e) err)
      | Inr p \<Rightarrow> (case Hosts p of
          Inl err \<Rightarrow> Inl err
        | Inr _ \<Rightarrow> if w_scanner e then Inr p else Inl ''scanning is not available''))"

text \<open>The connection to scan through.\<close>

definition scan_through :: "'w web \<Rightarrow> request \<Rightarrow> 'w server \<Rightarrow> string + (int \<times> string) option" where
  "scan_through e q s =
     (case ParseInt (rq_form q ''connection_id'') of
        None \<Rightarrow> Inr None
      | Some i \<Rightarrow> (case Connection i (v_store s) of
          Inl err \<Rightarrow> Inl (e_text (w_mgr e) err)
        | Inr conn \<Rightarrow> (case mgr_Status (c_name conn) (kc_sys (v_chk s)) of (state, iface) \<Rightarrow>
            if state \<noteq> StateUp \<or> iface = []
            then Inl (c_name conn @ '' is not up, so its subnet cannot be scanned'')
            else Inr (Some (c_id conn, iface)))))"

definition startScan :: "'w web \<Rightarrow> 'w handler" where
  "startScan e q s =
     (case scan_refused e q of
        Inl err \<Rightarrow> (scan_fragment (empty_view err), s)
      | Inr p \<Rightarrow>
          (let (started, s1) = clock e s;
               subnet = (case ParseInt (rq_form q ''subnet_id'') of None \<Rightarrow> 0 | Some i \<Rightarrow> i)
           in case scan_through e q s1 of
                Inl err \<Rightarrow> (scan_fragment (empty_view err), s1)
              | Inr via \<Rightarrow>
                  (let job = \<lparr>sc_id = randomID e s, sc_prefix = p,
                         sc_iface = (case via of None \<Rightarrow> [] | Some (_, iface) \<Rightarrow> iface),
                         sc_conn = (case via of None \<Rightarrow> 0 | Some (i, _) \<Rightarrow> i), sc_subnet = subnet,
                         sc_started = started, sc_results = [], sc_done = False, sc_err = None\<rparr>;
                       (now, s2) = clock e s1;
                       s3 = s2\<lparr>v_jobs := scans_add now job (v_jobs s2)\<rparr>
                   in (scan_fragment (job_view e job), s3))))"

definition scanStatus :: "'w web \<Rightarrow> 'w handler" where
  "scanStatus e q s =
     (let (now, s1) = clock e s;
          (job, m) = scans_get now (case rq_path q of _ # i # _ \<Rightarrow> i | _ \<Rightarrow> []) (v_jobs s1);
          s2 = s1\<lparr>v_jobs := m\<rparr>
      in case job of
           None \<Rightarrow> (scan_fragment (empty_view ''this scan has expired''), s2)
         | Some job \<Rightarrow> (scan_fragment (job_view e job), s2))"

text \<open>
  \<open>runScan\<close>: the goroutine that reads the results of the sweep, and the end of the sweep, which comes
  after the last of them.  A job that is no longer in the map is only written to by its goroutine.
\<close>

definition scan_result :: "string \<Rightarrow> addr \<times> duration \<times> string \<Rightarrow> 'w server \<Rightarrow> 'w server" where
  "scan_result i r s = s\<lparr>v_jobs := (case v_jobs s i of None \<Rightarrow> v_jobs s
     | Some job \<Rightarrow> (v_jobs s)(i \<mapsto> job\<lparr>sc_results := sc_results job @ [r]\<rparr>))\<rparr>"

definition scan_finished :: "string \<Rightarrow> string option \<Rightarrow> 'w server \<Rightarrow> 'w server" where
  "scan_finished i err s = s\<lparr>v_jobs := (case v_jobs s i of None \<Rightarrow> v_jobs s
     | Some job \<Rightarrow> (v_jobs s)(i \<mapsto> job\<lparr>sc_err := err, sc_done := True\<rparr>))\<rparr>"

section \<open>Release notes\<close>

definition releases :: "'w web \<Rightarrow> 'w handler" where
  "releases e q s = render e q None ''releases'' ''Release notes'' (ReleasesData (changelog_Parse (w_changelog e))) s"

end
