(* ===== verification/WebServer.thy ===== *)
theory WebServer
  imports WebNet
begin

text \<open>
  The routes of \<open>internal/web/web.go\<close> and of the listener of \<open>cmd/tsv-vpn/main.go\<close>.  A pattern is a
  method and segments, a wildcard or a literal each; \<open>GET\<close> also answers \<open>HEAD\<close>, and a literal
  goes before a wildcard.
\<close>

section \<open>Routes\<close>

datatype route_seg = Lit string | Id

text \<open>The handlers behind the gate.\<close>

datatype private_route =
    RDashboard | RNewConnection | RCreateConnection | RPreflight | REditConnection | RUpdateConnection
  | RConnectionStatus | REnable bool | RCheckConnection | RLogs | RCloseLogs | RDeleteConnection
  | RReleases | RShowPassword | RChangePassword | RTailnet | RTailnetStatus | RTailnetLogin | RExitNode
  | RSubnets | RAddSubnet | RSubnetEnable bool | RDeleteSubnet | RLocalHealth | RCheckSubnet
  | RSubnetHealthCheck | RStartScan | RScanStatus | RHealthCheck

definition private_routes :: "(string \<times> route_seg list \<times> private_route) list" where
  "private_routes =
    [(''GET'', [], RDashboard),
     (''GET'', [Lit ''connections'', Lit ''new''], RNewConnection),
     (''POST'', [Lit ''connections''], RCreateConnection),
     (''POST'', [Lit ''connections'', Lit ''preflight''], RPreflight),
     (''GET'', [Lit ''connections'', Id, Lit ''edit''], REditConnection),
     (''POST'', [Lit ''connections'', Id], RUpdateConnection),
     (''GET'', [Lit ''connections'', Id, Lit ''status''], RConnectionStatus),
     (''POST'', [Lit ''connections'', Id, Lit ''enable''], REnable True),
     (''POST'', [Lit ''connections'', Id, Lit ''disable''], REnable False),
     (''POST'', [Lit ''connections'', Id, Lit ''check''], RCheckConnection),
     (''GET'', [Lit ''connections'', Id, Lit ''logs''], RLogs),
     (''GET'', [Lit ''connections'', Id, Lit ''logs'', Lit ''close''], RCloseLogs),
     (''DELETE'', [Lit ''connections'', Id], RDeleteConnection),
     (''GET'', [Lit ''releases''], RReleases),
     (''GET'', [Lit ''password''], RShowPassword),
     (''POST'', [Lit ''password''], RChangePassword),
     (''GET'', [Lit ''tailnet''], RTailnet),
     (''GET'', [Lit ''tailnet'', Lit ''status''], RTailnetStatus),
     (''POST'', [Lit ''tailnet'', Lit ''login''], RTailnetLogin),
     (''POST'', [Lit ''tailnet'', Lit ''exit-node''], RExitNode),
     (''GET'', [Lit ''subnets''], RSubnets),
     (''POST'', [Lit ''subnets''], RAddSubnet),
     (''POST'', [Lit ''subnets'', Id, Lit ''enable''], RSubnetEnable True),
     (''POST'', [Lit ''subnets'', Id, Lit ''disable''], RSubnetEnable False),
     (''DELETE'', [Lit ''subnets'', Id], RDeleteSubnet),
     (''GET'', [Lit ''subnets'', Lit ''health''], RLocalHealth),
     (''POST'', [Lit ''subnets'', Id, Lit ''check''], RCheckSubnet),
     (''POST'', [Lit ''subnets'', Id, Lit ''health-check''], RSubnetHealthCheck),
     (''POST'', [Lit ''scans''], RStartScan),
     (''GET'', [Lit ''scans'', Id], RScanStatus),
     (''POST'', [Lit ''connections'', Id, Lit ''health-check''], RHealthCheck)]"

fun seg_matches :: "route_seg \<Rightarrow> string \<Rightarrow> bool" where
  "seg_matches (Lit l) seg \<longleftrightarrow> l = seg"
| "seg_matches Id seg \<longleftrightarrow> seg \<noteq> []"

definition path_matches :: "route_seg list \<Rightarrow> string list \<Rightarrow> bool" where
  "path_matches pat path \<longleftrightarrow> list_all2 seg_matches pat path"

definition method_matches :: "string \<Rightarrow> string \<Rightarrow> bool" where
  "method_matches m method \<longleftrightarrow> m = method \<or> (m = ''GET'' \<and> method = ''HEAD'')"

text \<open>Whether the first pattern is more specific than the second, segment by segment.\<close>

fun seg_before :: "route_seg list \<Rightarrow> route_seg list \<Rightarrow> bool" where
  "seg_before (Lit l # ps) (Id # qs) = True"
| "seg_before (p # ps) (q # qs) = (p = q \<and> seg_before ps qs)"
| "seg_before _ _ = False"

definition find_route :: "string \<Rightarrow> string list \<Rightarrow> private_route option" where
  "find_route method path =
     (let ms = filter (\<lambda>(m, pat, _). method_matches m method \<and> path_matches pat path) private_routes
      in case List.find (\<lambda>(_, pat, _). \<forall>(_, pat', _) \<in> set ms. \<not> seg_before pat' pat) ms of
           None \<Rightarrow> None | Some (_, _, r) \<Rightarrow> Some r)"

definition path_known :: "string list \<Rightarrow> bool" where
  "path_known path \<longleftrightarrow> (\<exists>(m, pat, _) \<in> set private_routes. path_matches pat path)"

fun handle :: "'w web \<Rightarrow> private_route \<Rightarrow> 'w handler" where
  "handle e RDashboard = dashboard e"
| "handle e RNewConnection = newConnection e"
| "handle e RCreateConnection = createConnection e"
| "handle e RPreflight = web_preflight e"
| "handle e REditConnection = editConnection e"
| "handle e RUpdateConnection = updateConnection e"
| "handle e RConnectionStatus = connectionStatus e"
| "handle e (REnable b) = setEnabled e b"
| "handle e RCheckConnection = checkConnection e"
| "handle e RLogs = connectionLogs e"
| "handle e RCloseLogs = closeConnectionLogs"
| "handle e RDeleteConnection = deleteConnection e"
| "handle e RReleases = releases e"
| "handle e RShowPassword = showPassword e"
| "handle e RChangePassword = changePassword e"
| "handle e RTailnet = tailnetPage e"
| "handle e RTailnetStatus = tailnetStatus e"
| "handle e RTailnetLogin = tailnetLogin e"
| "handle e RExitNode = tailnetExitNode e"
| "handle e RSubnets = web_subnets e"
| "handle e RAddSubnet = addSubnet e"
| "handle e (RSubnetEnable b) = setSubnetEnabled e b"
| "handle e RDeleteSubnet = deleteSubnet e"
| "handle e RLocalHealth = localHealth e"
| "handle e RCheckSubnet = checkSubnet e"
| "handle e RSubnetHealthCheck = useAsSubnetHealthCheck e"
| "handle e RStartScan = startScan e"
| "handle e RScanStatus = scanStatus e"
| "handle e RHealthCheck = useAsHealthCheck e"

text \<open>The private mux: an unknown path, or a known one with another method.\<close>

definition private_mux :: "'w web \<Rightarrow> 'w handler" where
  "private_mux e q s =
     (case find_route (rq_method q) (rq_path q) of
        Some r \<Rightarrow> handle e r q s
      | None \<Rightarrow> if path_known (rq_path q) then (http_error ''Method Not Allowed'' 405, s)
                else (http_error ''404 page not found'' 404, s))"

text \<open>\<open>Handler\<close>: the public routes, and everything else behind the gate.\<close>

definition Handler :: "'w web \<Rightarrow> 'w handler" where
  "Handler e q s =
     (let get = method_matches ''GET'' (rq_method q); post = (rq_method q = ''POST'') in
      if get \<and> rq_path q \<noteq> [] \<and> hd (rq_path q) = ''static'' \<and> tl (rq_path q) \<noteq> []
      then (plain_reply 200 (StaticFile (tl (rq_path q))), s)
      else if get \<and> rq_path q = [''static'']
      then ((plain_reply 301 NoBody)\<lparr>an_headers := [(''Location'', ''/static/'')]\<rparr>, s)
      else if get \<and> rq_path q = [''setup''] then showSetup e q s
      else if post \<and> rq_path q = [''setup''] then do_setup e q s
      else if get \<and> rq_path q = [''login''] then showLogin e q s
      else if post \<and> rq_path q = [''login''] then login e q s
      else if post \<and> rq_path q = [''logout''] then logout q s
      else Require e (private_mux e) q s)"

definition public_route :: "request \<Rightarrow> bool" where
  "public_route q \<longleftrightarrow>
     (method_matches ''GET'' (rq_method q) \<and>
        (rq_path q \<in> {[''setup''], [''login''], [''static'']} \<or> rq_path q \<noteq> [] \<and> hd (rq_path q) = ''static'' \<and> tl (rq_path q) \<noteq> [])) \<or>
     (rq_method q = ''POST'' \<and> rq_path q \<in> {[''setup''], [''login''], [''logout'']})"

text \<open>The listener: \<open>/healthz\<close> with the state of tailscaled, and the web server.\<close>

definition healthz :: "'w web \<Rightarrow> ('w, reply) web_act" where
  "healthz e s =
     (let (backend, s1) = (case w_tailnet e of
            None \<Rightarrow> (None, s)
          | Some api \<Rightarrow> (case v_world (ta_status api) s of (r, s1) \<Rightarrow> (Some (map_sum id ts_backend r), s1)));
          rep = Report backend (kc_sys (v_chk s1))
      in (plain_reply (healthz_code rep) (HealthJSON rep), s1))"

definition main_mux :: "'w web \<Rightarrow> 'w handler" where
  "main_mux e q s =
     (if method_matches ''GET'' (rq_method q) \<and> rq_path q = [''healthz''] then healthz e s else Handler e q s)"

text \<open>Every request lands on the route whose pattern it matches.\<close>

lemma routes_reach_handlers:
  "find_route ''POST'' [''connections'', ''preflight''] = Some RPreflight"
  "find_route ''POST'' [''connections'', ''7''] = Some RUpdateConnection"
  "find_route ''GET'' [] = Some RDashboard"
  "find_route ''HEAD'' [''scans'', ''ab''] = Some RScanStatus"
  "find_route ''DELETE'' [''subnets'', ''3''] = Some RDeleteSubnet"
  "find_route ''GET'' [''login''] = None"
  by code_simp+

end
