(* ===== verification/HealthProps.thy ===== *)
theory HealthProps
  imports Health ManagerProps
begin

text \<open>
  The checker hands a tunnel to the manager on the third failed ping in a row, whatever the other
  goroutines do meanwhile; together with the manager this takes an unreachable tunnel down in
  three rounds.  The report's status is a function of the backend and the tunnels' states.
\<close>

section \<open>Counting\<close>

lemma chk_world_frame [simp]:
  "kc_fails (snd (chk_world f c)) = kc_fails c" "y_tunnels (kc_sys (snd (chk_world f c))) = y_tunnels (kc_sys c)"
  "y_store (kc_sys (snd (chk_world f c))) = y_store (kc_sys c)" "y_nudge (kc_sys (snd (chk_world f c))) = y_nudge (kc_sys c)"
  by (simp_all add: chk_world_def case_prod_beta)

lemma chk_db_frame [simp]:
  "kc_fails (snd (chk_db f c)) = kc_fails c" "y_tunnels (kc_sys (snd (chk_db f c))) = y_tunnels (kc_sys c)"
  "y_store (kc_sys (snd (chk_db f c))) = snd (f (y_store (kc_sys c)))" "y_nudge (kc_sys (snd (chk_db f c))) = y_nudge (kc_sys c)"
  by (simp_all add: chk_db_def case_prod_beta)

lemma chk_record_frame [simp]:
  "kc_fails (chk_record e conn rtt failure c) = kc_fails c"
  "y_tunnels (kc_sys (chk_record e conn rtt failure c)) = y_tunnels (kc_sys c)"
  "y_nudge (kc_sys (chk_record e conn rtt failure c)) = y_nudge (kc_sys c)"
  by (simp_all add: chk_record_def case_prod_beta Let_def chk_logf_def split: sum.split)

lemma Check_probe_frame [simp]:
  "kc_fails (snd (Check_probe e conn c)) = kc_fails c"
  "y_tunnels (kc_sys (snd (Check_probe e conn c))) = y_tunnels (kc_sys c)"
  "y_store (kc_sys (snd (Check_probe e conn c))) = y_store (kc_sys c)"
  "y_nudge (kc_sys (snd (Check_probe e conn c))) = y_nudge (kc_sys c)"
  by (simp_all add: Check_probe_def case_prod_beta split: sum.split option.split)

text \<open>The reference: how many failed pings in a row, starting again after a report.\<close>

fun streak :: "int \<Rightarrow> probe list \<Rightarrow> int" where
  "streak n [] = n"
| "streak n (Probe_skip # ps) = streak 0 ps"
| "streak n (Probe_bad # ps) = streak n ps"
| "streak n (Probe_up rtt # ps) = streak 0 ps"
| "streak n (Probe_down a err # ps) = streak (if failureLimit \<le> n + 1 then 0 else n + 1) ps"

lemma streak_append: "streak n (ps @ qs) = streak (streak n ps) qs"
  by (induction n ps rule: streak.induct) auto

lemma verdict_fails:
  "kc_fails (Check_verdict e conn p c) (c_name conn) = streak (kc_fails c (c_name conn)) [p]"
  "n \<noteq> c_name conn \<Longrightarrow> kc_fails (Check_verdict e conn p c) n = kc_fails c n"
  by (cases p; simp add: Check_verdict_def chk_reset_def chk_count_def chk_logf_def Let_def)+

text \<open>
  Rounds of checks of one connection, with whatever the rest of the program does to the system
  before the ping and before the verdict.
\<close>

fun check_run ::
  "'w checks \<Rightarrow> connection \<Rightarrow> (('w sys \<Rightarrow> 'w sys) \<times> ('w sys \<Rightarrow> 'w sys)) list \<Rightarrow> 'w checker \<Rightarrow> probe list \<times> 'w checker" where
  "check_run e conn [] c = ([], c)"
| "check_run e conn ((f, g) # rounds) c =
     (let (p, c1) = Check_probe e conn (c\<lparr>kc_sys := f (kc_sys c)\<rparr>);
          (ps, c2) = check_run e conn rounds (Check_verdict e conn p (c1\<lparr>kc_sys := g (kc_sys c1)\<rparr>))
      in (p # ps, c2))"

lemma check_run_Cons:
  assumes "Check_probe e conn (c\<lparr>kc_sys := f (kc_sys c)\<rparr>) = (p, c1)"
  shows "check_run e conn ((f, g) # rounds) c =
    (p # fst (check_run e conn rounds (Check_verdict e conn p (c1\<lparr>kc_sys := g (kc_sys c1)\<rparr>))),
     snd (check_run e conn rounds (Check_verdict e conn p (c1\<lparr>kc_sys := g (kc_sys c1)\<rparr>))))"
  by (simp add: assms case_prod_beta)

lemma check_run_streak:
  "kc_fails (snd (check_run e conn rounds c)) (c_name conn) =
     streak (kc_fails c (c_name conn)) (fst (check_run e conn rounds c))"
proof (induction rounds arbitrary: c)
  case Nil
  then show ?case by simp
next
  case (Cons fg rounds)
  obtain f g where fg: "fg = (f, g)" by fastforce
  obtain p c1 where q: "Check_probe e conn (c\<lparr>kc_sys := f (kc_sys c)\<rparr>) = (p, c1)" by fastforce
  have "kc_fails c1 = kc_fails c"
    using Check_probe_frame(1)[of e conn "c\<lparr>kc_sys := f (kc_sys c)\<rparr>"] unfolding q by simp
  then have "kc_fails (Check_verdict e conn p (c1\<lparr>kc_sys := g (kc_sys c1)\<rparr>)) (c_name conn) =
      streak (kc_fails c (c_name conn)) [p]"
    by (simp add: verdict_fails)
  then show ?case
    unfolding fg check_run_Cons[where f = f and c = c, OF q] fst_conv snd_conv
    using Cons.IH streak_append[of _ "[p]"] by (metis append_Cons append_Nil)
qed

definition third_failure :: "probe list \<Rightarrow> probe \<Rightarrow> bool" where
  "third_failure ps p \<longleftrightarrow> (\<exists>a err. p = Probe_down a err) \<and> streak 0 ps = failureLimit - 1"

lemma streak_range: "0 \<le> n \<Longrightarrow> n < failureLimit \<Longrightarrow> 0 \<le> streak n ps \<and> streak n ps < failureLimit"
  by (induction n ps rule: streak.induct) (auto simp: failureLimit_def)


section \<open>The counters stay below the limit\<close>

datatype 'w chk_cmd = Chk_tick | Chk_other "'w sys \<Rightarrow> 'w sys"

fun chk_step :: "'w checks \<Rightarrow> 'w chk_cmd \<Rightarrow> 'w checker \<Rightarrow> 'w checker" where
  "chk_step e Chk_tick c = CheckAll e c"
| "chk_step e (Chk_other f) c = c\<lparr>kc_sys := f (kc_sys c)\<rparr>"

definition counts_ok :: "'w checker \<Rightarrow> bool" where
  "counts_ok c \<longleftrightarrow> (\<forall>n. 0 \<le> kc_fails c n \<and> kc_fails c n < failureLimit)"

lemma Check_fails:
  "kc_fails (Check e conn c) n =
     (if n = c_name conn then streak (kc_fails c n) [fst (Check_probe e conn c)] else kc_fails c n)"
  by (simp add: Check_def case_prod_beta verdict_fails)

lemma Check_counts: "counts_ok c \<Longrightarrow> counts_ok (Check e conn c)"
  using streak_range unfolding counts_ok_def Check_fails by simp

lemma check_conns_counts: "counts_ok c \<Longrightarrow> counts_ok (check_conns e conns c)"
  by (induction e conns c rule: check_conns.induct) (simp add: Check_counts)+

lemma CheckSubnet_frame [simp]:
  "kc_fails (CheckSubnet e s c) = kc_fails c" "y_tunnels (kc_sys (CheckSubnet e s c)) = y_tunnels (kc_sys c)"
  "y_nudge (kc_sys (CheckSubnet e s c)) = y_nudge (kc_sys c)"
  by (simp_all add: CheckSubnet_def case_prod_beta Let_def chk_logf_def split: sum.split option.split)

lemma check_subnets_frame [simp]:
  "kc_fails (check_subnets e ss c) = kc_fails c" "y_tunnels (kc_sys (check_subnets e ss c)) = y_tunnels (kc_sys c)"
  "y_nudge (kc_sys (check_subnets e ss c)) = y_nudge (kc_sys c)"
  by (induction e ss c rule: check_subnets.induct) simp_all

lemma CheckAll_counts: "counts_ok c \<Longrightarrow> counts_ok (CheckAll e c)"
proof -
  assume c: "counts_ok c"
  then have "counts_ok (chk_prune conns c)" for conns
    by (simp add: counts_ok_def chk_prune_def failureLimit_def)
  then have "counts_ok (check_conns e conns (chk_prune conns c))" for conns by (rule check_conns_counts)
  then show ?thesis using c
    by (simp add: CheckAll_def counts_ok_def chk_logf_def Let_def split: sum.split)
qed

interpretation checker: machine "chk_step e" "\<lambda>_. True" counts_ok for e :: "'w checks"
proof
  fix c :: "'w checker" and cmd
  assume "counts_ok c"
  then show "counts_ok (chk_step e cmd c)" by (cases cmd) (simp_all add: CheckAll_counts, simp add: counts_ok_def)
qed

section \<open>An unreachable tunnel\<close>

text \<open>What the checks leave of the store.\<close>

definition same_config :: "store \<Rightarrow> store \<Rightarrow> bool" where
  "same_config st st' \<longleftrightarrow> tconns st' = tconns st \<and> tlocals st' = tlocals st \<and> fault st' = fault st"

lemma same_config_refl [simp]: "same_config st st"
  by (simp add: same_config_def)

lemma same_config_trans: "same_config a b \<Longrightarrow> same_config b c \<Longrightarrow> same_config a c"
  by (simp add: same_config_def)

lemma same_config_ops [simp]:
  "same_config st (snd (RecordCheck i at rtt f st))" "same_config st (snd (RecordSubnetCheck i at rtt f st))"
  "same_config st (snd (SetStatus x st))"
  by (simp_all add: same_config_def RecordCheck_def RecordSubnetCheck_def SetStatus_def exec_def split: option.split)

lemma same_config_lists: "same_config st st' \<Longrightarrow> ListConnections st' = ListConnections st"
  by (simp add: same_config_def ListConnections_def query_def)

lemma setStatus_config [simp]: "same_config st (y_store (setStatus e i p r s)) = same_config st (y_store s)"
  by (simp add: same_config_def SetStatus_def exec_def split: option.split)

lemma SetStatus_config [simp]: "same_config st (snd (SetStatus x st')) = same_config st st'"
  by (simp add: same_config_def SetStatus_def exec_def split: option.split)

lemma Unhealthy_config [simp]: "same_config st (y_store (Unhealthy e name reason s)) = same_config st (y_store s)"
  by (simp add: Unhealthy_def fail_def case_prod_beta Let_def split: option.split)

lemma chk_record_config [simp]:
  "same_config st (y_store (kc_sys (chk_record e conn rtt f c))) = same_config st (y_store (kc_sys c))"
  by (simp add: chk_record_def case_prod_beta Let_def chk_logf_def same_config_def RecordCheck_def exec_def
      split: sum.split option.split)

lemma Check_config [simp]:
  "same_config st (y_store (kc_sys (Check e conn c))) = same_config st (y_store (kc_sys c))"
  by (simp add: Check_def case_prod_beta Check_verdict_def Let_def chk_reset_def chk_count_def chk_logf_def
      split: probe.split)

lemma CheckSubnet_config [simp]:
  "same_config st (y_store (kc_sys (CheckSubnet e s c))) = same_config st (y_store (kc_sys c))"
  by (simp add: CheckSubnet_def case_prod_beta Let_def chk_logf_def same_config_def RecordSubnetCheck_def exec_def
      split: sum.split option.split)

lemma check_subnets_config [simp]:
  "same_config st (y_store (kc_sys (check_subnets e ss c))) = same_config st (y_store (kc_sys c))"
  by (induction e ss c rule: check_subnets.induct) simp_all

interpretation tun_tab: row_table k_name "row_sel k_name" row_ins "row_upd k_name" "row_del k_name" "row_wf k_name"
  by (rule row_table_rows)

text \<open>What the rest of a round sees of one tunnel.\<close>

definition same_view :: "string \<Rightarrow> 'w checker \<Rightarrow> 'w checker \<Rightarrow> bool" where
  "same_view n c c' \<longleftrightarrow> the_tunnel n (kc_sys c') = the_tunnel n (kc_sys c) \<and> kc_fails c' n = kc_fails c n
     \<and> row_wf k_name (y_tunnels (kc_sys c')) \<and> (y_nudge (kc_sys c) \<longrightarrow> y_nudge (kc_sys c'))
     \<and> same_config (y_store (kc_sys c)) (y_store (kc_sys c'))"

lemma same_view_refl: "row_wf k_name (y_tunnels (kc_sys c)) \<Longrightarrow> same_view n c c"
  by (simp add: same_view_def)

lemma same_view_trans: "same_view n a b \<Longrightarrow> same_view n b c \<Longrightarrow> same_view n a c"
  by (auto simp: same_view_def intro: same_config_trans)

lemma Check_tunnels:
  "y_tunnels (kc_sys (Check e conn c)) = y_tunnels (kc_sys c) \<or>
   (\<exists>now. y_tunnels (kc_sys (Check e conn c)) = row_upd k_name (c_name conn) (failed_t now) (y_tunnels (kc_sys c)))"
proof (cases "fst (Check_probe e conn c)")
  case (Probe_down a err)
  then show ?thesis
    using Unhealthy_tunnels[of "h_mgr e" "c_name conn" "unreachable a"
        "kc_sys (chk_record e conn 0 (ping_failure a err) (snd (Check_probe e conn c)))"]
    by (simp add: Check_def case_prod_beta Check_verdict_def Let_def chk_reset_def chk_count_def)
qed (simp_all add: Check_def case_prod_beta Check_verdict_def chk_reset_def chk_logf_def)

lemma failed_t_name [simp]: "k_name (failed_t now t) = k_name t"
  by (simp add: failed_t_def)

lemma Unhealthy_nudge: "y_nudge s \<Longrightarrow> y_nudge (Unhealthy e name reason s)"
  by (simp add: Unhealthy_def Nudge_def split: option.split)

lemma Check_nudge: "y_nudge (kc_sys c) \<Longrightarrow> y_nudge (kc_sys (Check e conn c))"
  by (simp add: Check_def case_prod_beta Check_verdict_def Let_def chk_reset_def chk_count_def chk_logf_def
      Unhealthy_nudge split: probe.split)

lemma Check_wf: "row_wf k_name (y_tunnels (kc_sys c)) \<Longrightarrow> row_wf k_name (y_tunnels (kc_sys (Check e conn c)))"
  using Check_tunnels[of e conn c] by (auto simp: tun_tab.wf_upd)

lemma Check_other:
  assumes "row_wf k_name (y_tunnels (kc_sys c))" "c_name conn \<noteq> n"
  shows "same_view n c (Check e conn c)"
  using Check_tunnels[of e conn c] assms Check_wf[OF assms(1), of e conn] Check_nudge[of c e conn]
  by (auto simp: same_view_def the_tunnel_def Check_fails tun_tab.upd_other)

lemma check_conns_other:
  "row_wf k_name (y_tunnels (kc_sys c)) \<Longrightarrow> n \<notin> c_name ` set conns \<Longrightarrow> same_view n c (check_conns e conns c)"
proof (induction e conns c rule: check_conns.induct)
  case (1 e c)
  then show ?case by (simp add: same_view_refl)
next
  case (2 e conn conns c)
  let ?c = "if \<not> c_enabled conn \<or> c_hcip conn = [] then c else Check e conn c"
  have v: "same_view n c ?c" using "2.prems" by (auto simp: same_view_refl intro: Check_other)
  then have "same_view n ?c (check_conns e conns ?c)"
    using "2.prems"(2) by (intro "2.IH") (auto simp: same_view_def)
  from same_view_trans[OF v this] show ?case by simp
qed

lemma check_conns_append: "check_conns e (xs @ ys) c = check_conns e ys (check_conns e xs c)"
  by (induction e xs c rule: check_conns.induct) simp_all

text \<open>One failed ping of an up tunnel.\<close>

definition ping_fails :: "'w checks \<Rightarrow> addr \<Rightarrow> bool" where
  "ping_fails e a \<longleftrightarrow> (\<forall>iface w. \<exists>err w'. h_ping e a iface (chk_timeout e) w = (Inl err, w'))"

lemma Check_failing:
  assumes "the_tunnel (c_name conn) (kc_sys c) = Some t" "k_phase t = StateUp" "k_iface t \<noteq> []"
    and "ParseAddr (c_hcip conn) = Some a" "ping_fails e a" "row_wf k_name (y_tunnels (kc_sys c))"
  shows "kc_fails c (c_name conn) + 1 < failureLimit \<Longrightarrow>
      the_tunnel (c_name conn) (kc_sys (Check e conn c)) = Some t \<and>
      kc_fails (Check e conn c) (c_name conn) = kc_fails c (c_name conn) + 1"
    and "failureLimit \<le> kc_fails c (c_name conn) + 1 \<Longrightarrow>
      \<exists>now. the_tunnel (c_name conn) (kc_sys (Check e conn c)) = Some (failed_t now t) \<and>
        y_nudge (kc_sys (Check e conn c))"
proof -
  obtain err w where "h_ping e a (k_iface t) (chk_timeout e) (y_world (kc_sys c)) = (Inl err, w)"
    using assms(5) unfolding ping_fails_def by blast
  then have p: "fst (Check_probe e conn c) = Probe_down a err"
    using assms(1-4) by (simp add: Check_probe_def mgr_Status_def chk_world_def)
  let ?c = "chk_record e conn 0 (ping_failure a err) (snd (Check_probe e conn c))"
  have v: "the_tunnel (c_name conn) (kc_sys ?c) = Some t" "row_wf k_name (y_tunnels (kc_sys ?c))"
    using assms(1,6) by (simp_all add: the_tunnel_def)
  show "kc_fails c (c_name conn) + 1 < failureLimit \<Longrightarrow>
      the_tunnel (c_name conn) (kc_sys (Check e conn c)) = Some t \<and>
      kc_fails (Check e conn c) (c_name conn) = kc_fails c (c_name conn) + 1"
    using v(1) by (simp add: Check_def case_prod_beta p Check_verdict_def Let_def chk_count_def the_tunnel_def)
  let ?u = "Unhealthy (h_mgr e) (c_name conn) (unreachable a) (kc_sys ?c)"
  assume lim: "failureLimit \<le> kc_fails c (c_name conn) + 1"
  then have "kc_sys (Check e conn c) = ?u"
    by (simp add: Check_def case_prod_beta p Check_verdict_def Let_def chk_count_def chk_reset_def)
  moreover obtain now where "y_tunnels ?u = row_upd k_name (c_name conn) (failed_t now) (y_tunnels (kc_sys ?c))"
    using Unhealthy_tunnels by blast
  then have "the_tunnel (c_name conn) ?u = Some (failed_t now t)"
    using v by (simp add: the_tunnel_def tun_tab.sel_upd)
  moreover have "y_nudge ?u" using v(1) by (simp add: Unhealthy_def Nudge_def)
  ultimately show "\<exists>now. the_tunnel (c_name conn) (kc_sys (Check e conn c)) = Some (failed_t now t) \<and>
      y_nudge (kc_sys (Check e conn c))" by auto
qed

text \<open>A whole round, for a connection that is listed once.\<close>

definition probed :: "string \<Rightarrow> tstate \<Rightarrow> int \<Rightarrow> store \<Rightarrow> 'w checker \<Rightarrow> bool" where
  "probed n t k st c \<longleftrightarrow> the_tunnel n (kc_sys c) = Some t \<and> kc_fails c n = k
     \<and> row_wf k_name (y_tunnels (kc_sys c)) \<and> same_config st (y_store (kc_sys c))"

lemma probed_view: "probed n t k st c \<Longrightarrow> same_view n c c' \<Longrightarrow> probed n t k st c'"
  by (auto simp: probed_def same_view_def intro: same_config_trans)

lemma CheckAll_split:
  assumes "probed (c_name conn) t k st c" "ListConnections st = Inr (xs @ conn # ys)"
    and "c_name conn \<notin> c_name ` set xs" "c_enabled conn" "c_hcip conn \<noteq> []"
  shows "\<exists>c1 ss. probed (c_name conn) t k st c1 \<and>
    (CheckAll e c = check_subnets e ss (check_conns e ys (Check e conn c1)) \<or>
     (\<exists>msg. CheckAll e c = chk_logf msg (check_conns e ys (Check e conn c1))))"
proof -
  let ?c0 = "chk_prune (xs @ conn # ys) c" and ?n = "c_name conn"
  let ?c1 = "check_conns e xs ?c0"
  have list: "ListConnections (y_store (kc_sys c)) = Inr (xs @ conn # ys)"
    using assms(1,2) same_config_lists[of st "y_store (kc_sys c)"] by (simp add: probed_def)
  have "probed ?n t k st ?c0" using assms(1) by (simp add: probed_def chk_prune_def)
  moreover from this have "same_view ?n ?c0 ?c1" using assms(3) by (intro check_conns_other) (simp_all add: probed_def)
  ultimately have "probed ?n t k st ?c1" by (rule probed_view)
  moreover have "check_conns e (xs @ conn # ys) ?c0 = check_conns e ys (Check e conn ?c1)"
    using assms(4,5) by (simp add: check_conns_append)
  ultimately show ?thesis
    by (intro exI[of _ ?c1]) (auto simp: CheckAll_def list Let_def split: sum.split)
qed

lemma round_end:
  assumes "CheckAll e c = check_subnets e ss c' \<or> (\<exists>msg. CheckAll e c = chk_logf msg c')"
  shows "the_tunnel n (kc_sys (CheckAll e c)) = the_tunnel n (kc_sys c')"
    "kc_fails (CheckAll e c) = kc_fails c'" "y_tunnels (kc_sys (CheckAll e c)) = y_tunnels (kc_sys c')"
    "y_nudge (kc_sys (CheckAll e c)) = y_nudge (kc_sys c')"
    "same_config st (y_store (kc_sys (CheckAll e c))) = same_config st (y_store (kc_sys c'))"
  using assms by (auto simp: chk_logf_def the_tunnel_def)

lemma failing_round:
  assumes p: "probed (c_name conn) t k st c" and l: "ListConnections st = Inr (xs @ conn # ys)"
    and n: "c_name conn \<notin> c_name ` set xs" "c_name conn \<notin> c_name ` set ys" and en: "c_enabled conn" "c_hcip conn \<noteq> []"
    and up: "k_phase t = StateUp" "k_iface t \<noteq> []" and a: "ParseAddr (c_hcip conn) = Some a" "ping_fails e a"
  shows "k + 1 < failureLimit \<Longrightarrow> probed (c_name conn) t (k + 1) st (CheckAll e c)"
    and "failureLimit \<le> k + 1 \<Longrightarrow> \<exists>now. the_tunnel (c_name conn) (kc_sys (CheckAll e c)) = Some (failed_t now t)
           \<and> y_nudge (kc_sys (CheckAll e c))"
proof -
  let ?n = "c_name conn"
  obtain c1 ss where c1: "probed ?n t k st c1"
    and fin: "CheckAll e c = check_subnets e ss (check_conns e ys (Check e conn c1)) \<or>
      (\<exists>msg. CheckAll e c = chk_logf msg (check_conns e ys (Check e conn c1)))"
    using CheckAll_split[OF p l n(1) en, of e] by blast
  note e = round_end[OF fin]
  have t: "the_tunnel ?n (kc_sys c1) = Some t" "row_wf k_name (y_tunnels (kc_sys c1))" "kc_fails c1 ?n = k"
    "same_config st (y_store (kc_sys c1))"
    using c1 by (simp_all add: probed_def)
  note f = Check_failing[OF t(1) up a t(2)]
  have v: "same_view ?n (Check e conn c1) (check_conns e ys (Check e conn c1))"
    using n(2) Check_wf[OF t(2)] by (intro check_conns_other)
  show "k + 1 < failureLimit \<Longrightarrow> probed ?n t (k + 1) st (CheckAll e c)"
  proof -
    assume "k + 1 < failureLimit"
    then have "probed ?n t (k + 1) st (Check e conn c1)"
      using f(1) t Check_wf[OF t(2), of e conn] by (simp add: probed_def)
    then have "probed ?n t (k + 1) st (check_conns e ys (Check e conn c1))" using v by (rule probed_view)
    then show ?thesis by (simp add: probed_def e)
  qed
  show "failureLimit \<le> k + 1 \<Longrightarrow> \<exists>now. the_tunnel ?n (kc_sys (CheckAll e c)) = Some (failed_t now t)
      \<and> y_nudge (kc_sys (CheckAll e c))"
    using f(2) t v by (auto simp: e same_view_def)
qed

lemma split_once: "distinct (map f xs) \<Longrightarrow> x \<in> set xs \<Longrightarrow> \<exists>as bs. xs = as @ x # bs \<and> f x \<notin> f ` set as \<and> f x \<notin> f ` set bs"
  by (auto dest!: split_list) blast

lemma listed_distinct:
  assumes "store_wf st" "ListConnections st = Inr conns"
  shows "distinct (map c_name conns)"
proof -
  have "conns = map scanConnection (sort_key r_name (tconns st))"
    using assms(2) by (simp add: ListConnections_def query_def split: option.splits)
  then have "map c_name conns = map r_name (sort_key r_name (tconns st))"
    by (simp add: comp_def scanConnection_def)
  moreover have "distinct (map r_name (tconns st))" using assms(1) by (simp add: store_wf_def row_wf_def)
  ultimately show ?thesis by (metis distinct_map distinct_sort set_sort)
qed

lemma three_failed_rounds:
  assumes inv: "mgr_inv (kc_sys c)"
    and list: "ListConnections (y_store (kc_sys c)) = Inr conns" and conn: "conn \<in> set conns" "c_enabled conn"
    and addr: "ParseAddr (c_hcip conn) = Some a" "ping_fails e a"
    and up: "the_tunnel (c_name conn) (kc_sys c) = Some t" "k_phase t = StateUp" "k_iface t \<noteq> []"
    and fresh: "kc_fails c (c_name conn) = 0"
  shows "the_tunnel (c_name conn) (kc_sys (check_ticks e 2 c)) = Some t \<and>
    (\<exists>t'. the_tunnel (c_name conn) (kc_sys (check_ticks e 3 c)) = Some t' \<and> k_phase t' = StateFailed
           \<and> k_iface t' = [] \<and> k_failures t' = k_failures t + 1 \<and> y_nudge (kc_sys (check_ticks e 3 c)))"
proof -
  let ?n = "c_name conn" and ?st = "y_store (kc_sys c)"
  have wf: "row_wf k_name (y_tunnels (kc_sys c))" "store_wf ?st" using inv by (simp_all add: mgr_inv_def)
  obtain xs ys where split: "conns = xs @ conn # ys" "?n \<notin> c_name ` set xs" "?n \<notin> c_name ` set ys"
    using split_once[OF listed_distinct[OF wf(2) list] conn(1)] by blast
  have hc: "c_hcip conn \<noteq> []" using addr(1) by (auto simp: ParseAddr_def)
  note round = failing_round[OF _ list[unfolded split(1)] split(2,3) conn(2) hc up(2,3) addr]
  have "probed ?n t 0 ?st c" using up(1) fresh wf(1) by (simp add: probed_def)
  then have p1: "probed ?n t 1 ?st (CheckAll e c)" using round(1)[of 0 c] by (simp add: failureLimit_def)
  then have p2: "probed ?n t 2 ?st (CheckAll e (CheckAll e c))"
    using round(1)[of 1 "CheckAll e c"] by (simp add: failureLimit_def)
  then obtain now where "the_tunnel ?n (kc_sys (CheckAll e (CheckAll e (CheckAll e c)))) = Some (failed_t now t)"
    "y_nudge (kc_sys (CheckAll e (CheckAll e (CheckAll e c))))"
    using round(2)[of 2 "CheckAll e (CheckAll e c)"] by (auto simp: failureLimit_def)
  then have "\<exists>t'. the_tunnel ?n (kc_sys (check_ticks e 3 c)) = Some t' \<and> k_phase t' = StateFailed
      \<and> k_iface t' = [] \<and> k_failures t' = k_failures t + 1 \<and> y_nudge (kc_sys (check_ticks e 3 c))"
    by (simp add: check_ticks_def eval_nat_numeral failed_t_def)
  moreover have "the_tunnel ?n (kc_sys (check_ticks e 2 c)) = Some t"
    using p2 by (simp add: probed_def check_ticks_def eval_nat_numeral)
  ultimately show ?thesis by blast
qed

text \<open>An enabled connection whose tunnel is up and whose check address never answers keeps its tunnel
  for two rounds of checks and has it failed, off its interface and handed to the reconciler, in
  the third.\<close>

lemma unreachable_tunnel_fails:
  assumes inv: "mgr_inv (kc_sys c)"
    and list: "ListConnections (y_store (kc_sys c)) = Inr conns" and conn: "conn \<in> set conns" "c_enabled conn"
    and addr: "ParseAddr (c_hcip conn) = Some a" "ping_fails e a"
    and up: "the_tunnel (c_name conn) (kc_sys c) = Some t" "k_phase t = StateUp" "k_iface t \<noteq> []"
    and fresh: "kc_fails c (c_name conn) = 0"
  shows "the_tunnel (c_name conn) (kc_sys (check_ticks e 2 c)) = Some t \<and>
    (\<exists>t'. the_tunnel (c_name conn) (kc_sys (check_ticks e 3 c)) = Some t' \<and> k_phase t' = StateFailed
           \<and> k_iface t' = [] \<and> k_failures t' = k_failures t + 1 \<and> y_nudge (kc_sys (check_ticks e 3 c)))"
  using three_failed_rounds[OF assms] .

definition demo_checks :: "int checks" where
  "demo_checks = \<lparr>h_mgr = calm_env, h_ping = (\<lambda>a iface d w. (Inl ''timeout'', w + d)),
     h_now = (\<lambda>w. (w, w)), h_addrErr = (\<lambda>_. ''unable to parse IP''), h_interval = 0, h_timeout = 0\<rparr>"

definition demo_up :: tstate where
  "demo_up = \<lparr>k_id = 1, k_name = ''alpha'', k_subnets = [''10.1.0.0/16''], k_iface = ''ppp0'',
     k_phase = StateUp, k_failures = 0, k_dialed = 50 * Second, k_retry = 0\<rparr>"

definition demo_checker :: "int checker" where
  "demo_checker = \<lparr>kc_sys = demo_sys\<lparr>y_tunnels := [demo_up],
      y_store := snd (SetHealthCheckIP 1 ''10.1.0.9'' 9 demo_db)\<rparr>, kc_fails = (\<lambda>_. 0), kc_lines = []\<rparr>"

definition demo_checked :: connection where
  "demo_checked = scanConnection (demo_row\<lparr>r_hcip := Some ''10.1.0.9'', r_updated := 9\<rparr>)"

lemma demo_checker_facts:
  "mgr_inv (kc_sys demo_checker)" "ListConnections (y_store (kc_sys demo_checker)) = Inr [demo_checked]"
  "c_enabled demo_checked" "ParseAddr (c_hcip demo_checked) = Some (Addr4 0x0A010009)"
  "the_tunnel ''alpha'' (kc_sys demo_checker) = Some demo_up" "c_name demo_checked = ''alpha''"
  "ping_fails demo_checks a"
proof -
  show "mgr_inv (kc_sys demo_checker)"
    using SetHealthCheckIP_wf[OF demo_db_wf]
    by (simp add: mgr_inv_def demo_checker_def demo_up_def tun_ok_def row_wf_def)
  show "ListConnections (y_store (kc_sys demo_checker)) = Inr [demo_checked]" by code_simp
  show "c_enabled demo_checked" by code_simp
  show "ParseAddr (c_hcip demo_checked) = Some (Addr4 0x0A010009)" by code_simp
  show "the_tunnel ''alpha'' (kc_sys demo_checker) = Some demo_up"
    by (simp add: the_tunnel_def demo_checker_def row_sel_def demo_up_def)
  show "c_name demo_checked = ''alpha''" by code_simp
  show "ping_fails demo_checks a" by (simp add: ping_fails_def demo_checks_def)
qed


lemma unreachable_tunnel_fails_witness:
  "\<exists>t'. the_tunnel ''alpha'' (kc_sys (check_ticks demo_checks 3 demo_checker)) = Some t' \<and> k_phase t' = StateFailed"
proof -
  have "demo_checked \<in> set [demo_checked]" "the_tunnel (c_name demo_checked) (kc_sys demo_checker) = Some demo_up"
    "k_phase demo_up = StateUp" "k_iface demo_up \<noteq> []" "kc_fails demo_checker (c_name demo_checked) = 0"
    by (simp_all add: demo_checker_facts(5,6)) (simp_all add: demo_up_def demo_checker_def)
  from unreachable_tunnel_fails[OF demo_checker_facts(1,2) this(1) demo_checker_facts(3,4,7) this(2-5)]
  show ?thesis by (auto simp: demo_checker_facts(6))
qed

section \<open>The report\<close>

definition some_down :: "'w sys \<Rightarrow> connection list \<Rightarrow> bool" where
  "some_down s conns \<longleftrightarrow> (\<exists>conn \<in> set conns. c_enabled conn \<and> fst (mgr_Status (c_name conn) s) \<noteq> StateUp)"

lemma entry_fields [simp]:
  "rc_state (report_entry s conn) = fst (mgr_Status (c_name conn) s)"
  "rc_name (report_entry s conn) = c_name conn"
  by (simp_all add: report_entry_def case_prod_beta split: sum.split)

lemma report_conns_fields:
  "rp_tailnet (report_conns s conns r) = rp_tailnet r \<and>
   rp_conns (report_conns s conns r) = rp_conns r @ map (report_entry s) (filter c_enabled conns) \<and>
   rp_status (report_conns s conns r) = (if rp_status r = ''ok'' \<and> some_down s conns then ''degraded'' else rp_status r)"
proof (induction conns arbitrary: r)
  case Nil
  then show ?case by (simp add: some_down_def)
next
  case (Cons conn conns)
  have sd: "some_down s (conn # conns) \<longleftrightarrow>
      c_enabled conn \<and> fst (mgr_Status (c_name conn) s) \<noteq> StateUp \<or> some_down s conns"
    by (simp add: some_down_def)
  show ?case
  proof (cases "c_enabled conn")
    case False
    then show ?thesis using Cons.IH[of r] sd by simp
  next
    case True
    let ?r1 = "r\<lparr>rp_conns := rp_conns r @ [report_entry s conn]\<rparr>"
    let ?b = "fst (mgr_Status (c_name conn) s) \<noteq> StateUp \<and> rp_status r = ''ok''"
    have step: "report_conns s (conn # conns) r =
        report_conns s conns (if ?b then ?r1\<lparr>rp_status := ''degraded''\<rparr> else ?r1)"
      using True by (simp add: Let_def)
    show ?thesis
    proof (cases ?b)
      case b: True
      show ?thesis
        unfolding step if_P[OF b] using Cons.IH[of "?r1\<lparr>rp_status := ''degraded''\<rparr>"] b True sd by simp
    next
      case b: False
      show ?thesis unfolding step if_not_P[OF b] using Cons.IH[of ?r1] b True sd by auto
    qed
  qed
qed

text \<open>The health report is down exactly when the tailnet backend is not running, degraded when the
  connections cannot be read or an enabled one is not up, ok otherwise; it lists the enabled
  connections, and only down is answered with an error status.\<close>

lemma report_verdict:
  "rp_status (Report backend s) =
     (if backend \<noteq> Some (Inr StateRunning) then ''down''
      else case ListConnections (y_store s) of
        Inl _ \<Rightarrow> ''degraded''
      | Inr conns \<Rightarrow> if \<exists>conn \<in> set conns. c_enabled conn \<and> fst (mgr_Status (c_name conn) s) \<noteq> StateUp
                     then ''degraded'' else ''ok'')
   \<and> map rc_name (rp_conns (Report backend s)) =
       (case ListConnections (y_store s) of Inl _ \<Rightarrow> [] | Inr conns \<Rightarrow> map c_name (filter c_enabled conns))
   \<and> (healthz_code (Report backend s) = 200 \<longleftrightarrow> backend = Some (Inr StateRunning))"
proof -
  define tailnet where "tailnet = (case backend of None \<Rightarrow> [] | Some (Inl _) \<Rightarrow> ''unreachable'' | Some (Inr st) \<Rightarrow> st)"
  have t: "tailnet = StateRunning \<longleftrightarrow> backend = Some (Inr StateRunning)"
  proof (cases backend)
    case None
    then show ?thesis by (simp add: tailnet_def StateRunning_def)
  next
    case (Some b)
    then show ?thesis by (cases b) (simp_all add: tailnet_def StateRunning_def)
  qed
  have r: "Report backend s = (let r = \<lparr>rp_status = (if tailnet \<noteq> StateRunning then ''down'' else ''ok''),
      rp_tailnet = tailnet, rp_conns = []\<rparr>
      in case ListConnections (y_store s) of
           Inl _ \<Rightarrow> (if rp_status r = ''ok'' then r\<lparr>rp_status := ''degraded''\<rparr> else r)
         | Inr conns \<Rightarrow> report_conns s conns r)"
    by (simp only: Report_def Let_def tailnet_def)
  show ?thesis
  proof (cases "ListConnections (y_store s)")
    case (Inl err)
    then show ?thesis by (simp add: r t healthz_code_def)
  next
    case (Inr conns)
    then show ?thesis
      by (simp add: r t healthz_code_def Let_def report_conns_fields comp_def some_down_def[symmetric])
  qed
qed

section \<open>An address with blanks\<close>

text \<open>The store accepts an address with blanks around it and keeps the blanks; the checker's parser does
  not, so such a connection is never pinged.\<close>

lemma padded_check_ip_never_pinged:
  "fst (SetHealthCheckIP i '' 10.1.0.9'' now st) = fst (SetHealthCheckIP i ''10.1.0.9'' now st)"
  "c_hcip conn = '' 10.1.0.9'' \<Longrightarrow> fst (Check_probe e conn c) \<in> {Probe_skip, Probe_bad}"
proof -
  have p: "ParseIP '' 10.1.0.9'' = Inr (Addr4 0x0A010009)" "ParseIP ''10.1.0.9'' = Inr (Addr4 0x0A010009)"
    "ParseAddr '' 10.1.0.9'' = None"
    by code_simp+
  show "fst (SetHealthCheckIP i '' 10.1.0.9'' now st) = fst (SetHealthCheckIP i ''10.1.0.9'' now st)"
    by (simp add: SetHealthCheckIP_def p sbind_def exec_def split: option.split)
  show "c_hcip conn = '' 10.1.0.9'' \<Longrightarrow> fst (Check_probe e conn c) \<in> {Probe_skip, Probe_bad}"
    by (simp add: Check_probe_def p case_prod_beta)
qed

end
