(* ===== verification/WebProps.thy ===== *)
theory WebProps
  imports WebInv
begin

text \<open>
  The whole program as one machine, whose events are the requests to the web server, what the manager
  and the checker do on their own, and the progress of scans; and what holds of who may use it.
\<close>

section \<open>The program\<close>

datatype web_cmd =
    EvRequest request
  | EvManager mgr_cmd
  | EvChecks
  | EvLine add_call
  | EvScanResult string "addr \<times> duration \<times> string"
  | EvScanEnd string "string option"

definition on_sys :: "('w sys \<Rightarrow> 'w sys) \<Rightarrow> 'w server \<Rightarrow> 'w server" where
  "on_sys f s = s\<lparr>v_chk := (v_chk s)\<lparr>kc_sys := f (kc_sys (v_chk s))\<rparr>\<rparr>"

text \<open>\<open>OnLine\<close> of \<open>main.go\<close>: a daemon's line goes to the log buffer, and a daemon that has started again has
  lost the configuration.\<close>

definition on_line :: "add_call \<Rightarrow> 'w server \<Rightarrow> 'w server" where
  "on_line call s =
     (let s1 = s\<lparr>v_ring := map_option (ring_Add call) (v_ring s)\<rparr>
      in if a_text call = ''started'' \<and> (a_source call = ''charon'' \<or> a_source call = ''xl2tpd'')
         then on_sys Invalidate s1 else s1)"

fun web_step :: "'w web \<Rightarrow> web_cmd \<Rightarrow> 'w server \<Rightarrow> 'w server" where
  "web_step e (EvRequest q) s = snd (main_mux e q s)"
| "web_step e (EvManager c) s = on_sys (mgr_step (w_mgr e) c) s"
| "web_step e EvChecks s = run_check CheckAll e s"
| "web_step e (EvLine call) s = on_line call s"
| "web_step e (EvScanResult i r) s = scan_result i r s"
| "web_step e (EvScanEnd i err) s = scan_finished i err s"

fun web_allowed :: "web_cmd \<Rightarrow> bool" where
  "web_allowed (EvManager c) = mgr_allowed c"
| "web_allowed _ = True"

lemma CheckAll_inv:
  assumes "mgr_inv (kc_sys c)"
  shows "mgr_inv (kc_sys (CheckAll e c))"
proof -
  have conns: "mgr_inv (kc_sys d) \<Longrightarrow> mgr_inv (kc_sys (check_conns e cs d))" for cs d
    by (induction cs arbitrary: d) (simp_all add: Check_inv)
  have subnets: "mgr_inv (kc_sys d) \<Longrightarrow> mgr_inv (kc_sys (check_subnets e ss d))" for ss d
    by (induction ss arbitrary: d) (simp_all add: CheckSubnet_inv)
  show ?thesis using assms
    by (simp add: CheckAll_def Let_def conns subnets chk_prune_def split: sum.split)
qed

lemma web_step_inv: "web_inv s \<Longrightarrow> web_allowed c \<Longrightarrow> web_inv (web_step e c s)"
proof (cases c)
  case (EvManager mc)
  assume "web_inv s" "web_allowed c"
  then show ?thesis using EvManager mgr_step_inv[of "kc_sys (v_chk s)" mc "w_mgr e"]
    by (simp add: on_sys_def web_inv_def)
next
  case (EvRequest q)
  assume "web_inv s"
  then show ?thesis using EvRequest by (simp add: main_mux_inv)
next
  case (EvLine call)
  assume "web_inv s"
  then show ?thesis using EvLine mgr_step_inv[of "kc_sys (v_chk s)" EvInvalidate "w_mgr e"]
    by (simp add: on_line_def on_sys_def web_inv_def Let_def)
qed (auto simp: run_check_def web_inv_def CheckAll_inv CheckAll_counts scan_result_def
    scan_finished_def split: option.split)

interpretation program: machine "web_step e" web_allowed web_inv for e :: "'w web"
  by unfold_locales (rule web_step_inv)

text \<open>What the invariant says in the terms of the program.\<close>

lemma web_inv_facts:
  fixes s :: "'w server"
  defines "y \<equiv> kc_sys (v_chk s)"
  assumes inv: "web_inv s"
  shows "distinct (map k_name (y_tunnels y)) \<and>
    (\<forall>t \<in> set (y_tunnels y). (k_iface t \<noteq> [] \<longleftrightarrow> k_phase t = StateUp) \<and> (k_phase t = StateUp \<longrightarrow> k_failures t = 0)) \<and>
    (\<forall>i j a. i < j \<and> j < length (routed (y_store y)) \<and> pfx_contains (routed (y_store y) ! i) a \<longrightarrow>
       \<not> pfx_contains (routed (y_store y) ! j) a) \<and>
    (\<forall>n. 0 \<le> kc_fails (v_chk s) n \<and> kc_fails (v_chk s) n < 3)"
proof -
  have wf: "store_wf (y_store y)" using inv by (simp add: y_def web_inv_def mgr_inv_def)
  have "distinct (map k_name (y_tunnels y))" using inv by (simp add: y_def web_inv_def mgr_inv_def row_wf_def)
  moreover have "\<forall>t \<in> set (y_tunnels y). (k_iface t \<noteq> [] \<longleftrightarrow> k_phase t = StateUp) \<and> (k_phase t = StateUp \<longrightarrow> k_failures t = 0)"
    using inv by (simp add: y_def web_inv_def mgr_inv_def tun_ok_def)
  moreover have "\<forall>i j a. i < j \<and> j < length (routed (y_store y)) \<and> pfx_contains (routed (y_store y) ! i) a \<longrightarrow>
       \<not> pfx_contains (routed (y_store y) ! j) a"
    using disjoint_list_nth [OF store_wf_fields(12) [OF wf]] routed_canonical [OF wf] by blast
  moreover have "\<forall>n. 0 \<le> kc_fails (v_chk s) n \<and> kc_fails (v_chk s) n < 3"
    using inv by (simp add: web_inv_def counts_ok_def failureLimit_def)
  ultimately show ?thesis by blast
qed

text \<open>The server as \<open>start\<close> makes it.\<close>

definition start_server :: "aead \<Rightarrow> fsys \<Rightarrow> 'w \<Rightarrow> ring option \<Rightarrow> 'w server" where
  "start_server ciph fs w logs =
     \<lparr>v_chk = \<lparr>kc_sys = new_sys (new_store ciph) fs w, kc_fails = (\<lambda>_. 0), kc_lines = []\<rparr>,
      v_tokens = Map.empty, v_attempts = Map.empty, v_jobs = Map.empty, v_probedAt = 0, v_probeHops = [],
      v_ring = logs, v_log = []\<rparr>"

lemma start_server_inv: "web_inv (start_server ciph fs w logs)"
  using new_sys_inv[OF new_store_wf]
  by (simp add: start_server_def web_inv_def counts_ok_def failureLimit_def)


text \<open>A server for examples: bcrypt puts a mark before the password, the random source counts.\<close>

definition demo_web :: "int web" where
  "demo_web = \<lparr>w_mgr = calm_env, w_checks = Some demo_checks, w_gateway = None, w_tailnet = None,
     w_scanner = True, w_prober = None, w_ifaces = (\<lambda>w. (Inr [], w)), w_routes = (\<lambda>w. (Inr ([], None), w)),
     w_rand = (\<lambda>k n w. Inr (replicate n (CHR ''A''))), w_compare = (\<lambda>h p. h = ''#'' @ p),
     w_bcrypt = (\<lambda>p w. Inr (''#'' @ p)), w_envHash = [], w_ttl = 0, w_hostname = ''gw'', w_changelog = [],
     w_zone = 0, w_ms = dec_int\<rparr>"

definition demo_server :: "int server" where
  "demo_server = start_server demo_aead \<lparr>fs_files = [], fs_fault = \<lambda>_. None\<rparr> (100 * Second) None"

definition demo_request :: "string \<Rightarrow> string list \<Rightarrow> (string \<Rightarrow> string) \<Rightarrow> request" where
  "demo_request method path form = \<lparr>rq_method = method, rq_path = path, rq_form = form, rq_cookie = None,
     rq_hx = [], rq_target = [], rq_remote = ''192.0.2.7:4711'', rq_tls = False\<rparr>"


section \<open>The gate\<close>

lemma authenticated_iff:
  "fst (authenticated e q s) \<longleftrightarrow>
     (\<exists>token expiry. rq_cookie q = Some token \<and> v_tokens s token = Some expiry \<and> fst (clock e s) < expiry)"
  by (auto simp: authenticated_def token_live_def case_prod_beta split: option.split)

lemma Handler_private: "\<not> public_route q \<Longrightarrow> Handler e q s = Require e (private_mux e) q s"
  by (auto simp: public_route_def Handler_def Let_def)

text \<open>C3: Behind the gate nothing happens without a live session: a request to anything but the public
  routes whose cookie names no unexpired session, or any such request before a password is chosen,
  is sent to the login or the setup page and changes no state.
\<close>

theorem private_needs_session:
  assumes "\<not> public_route q"
    and "needs_setup e s \<or> (\<forall>token expiry. rq_cookie q = Some token \<longrightarrow> v_tokens s token = Some expiry \<longrightarrow>
      expiry \<le> fst (clock e s))"
  shows "fst (Handler e q s) = redirectTo q (if needs_setup e s then ''/setup'' else ''/login'') \<and>
    v_core (snd (Handler e q s)) = v_core s"
proof (cases "needs_setup e s")
  case True
  then show ?thesis using Handler_private[OF assms(1), of e s] by (simp add: Require_def)
next
  case False
  then have "\<not> fst (authenticated e q s)" using assms(2) by (force simp: authenticated_iff)
  then show ?thesis using Handler_private[OF assms(1), of e s] False
    by (simp add: Require_def case_prod_beta v_core_authenticated)
qed

lemma private_needs_session_witness:
  "fst (Handler (demo_web\<lparr>w_envHash := ''#x''\<rparr>) (demo_request ''DELETE'' [''connections'', ''1''] (\<lambda>_. [])) demo_server) =
     see_other ''/login''"
proof -
  let ?e = "demo_web\<lparr>w_envHash := ''#x''\<rparr>" and ?q = "demo_request ''DELETE'' [''connections'', ''1''] (\<lambda>_. [])"
  have "\<not> public_route ?q" by (simp add: public_route_def demo_request_def method_matches_def)
  moreover have "\<forall>token expiry. rq_cookie ?q = Some token \<longrightarrow> v_tokens demo_server token = Some expiry \<longrightarrow>
      expiry \<le> fst (clock ?e demo_server)" by (simp add: demo_request_def)
  moreover have "\<not> needs_setup ?e demo_server" by (simp add: needs_setup_def NeedsSetup_def cred_Hash_def)
  ultimately show ?thesis using private_needs_session[of ?q ?e demo_server]
    by (simp add: redirectTo_def demo_request_def)
qed

section \<open>Where sessions come from\<close>

named_theorems tokens_kept \<open>what leaves the session tokens alone\<close>

lemma tokens_core: "v_core s = v_core t \<Longrightarrow> v_tokens s = v_tokens t"
  by (simp add: v_core_def)

lemma store_core: "v_core s = v_core t \<Longrightarrow> v_store s = v_store t"
  by (simp add: v_core_def)

lemma tokens_frames [tokens_kept]:
  "v_tokens (snd (v_world f s)) = v_tokens s" "v_tokens (snd (clock e s)) = v_tokens s"
  "v_tokens (snd (db_now e s)) = v_tokens s" "v_tokens (snd (authenticated e q s)) = v_tokens s"
  "v_tokens (snd (render e q wrote page title d s)) = v_tokens s" "v_tokens (snd (since e at s)) = v_tokens s"
  "v_tokens (slog m s) = v_tokens s" "v_tokens (v_nudge s) = v_tokens s"
  using tokens_core[OF v_core_world] tokens_core[OF v_core_clock] tokens_core[OF v_core_db_now]
    tokens_core[OF v_core_authenticated] tokens_core[OF v_core_render] tokens_core[OF v_core_since]
  by (simp_all add: slog_def v_nudge_def)

lemma tokens_fail [tokens_kept]:
  "v_tokens (snd (web_fail err s)) = v_tokens s" "v_tokens (snd (notFound e derr s)) = v_tokens s"
  "v_tokens (snd (v_db f s)) = v_tokens s" "v_tokens (run_check g e s) = v_tokens s"
  by (simp_all add: web_fail_def notFound_def v_db_def run_check_def case_prod_beta tokens_kept split: option.split)

lemma tokens_conn_of [tokens_kept]: "v_tokens (snd (conn_of e q s)) = v_tokens s"
  by (simp add: conn_of_def case_prod_beta tokens_kept split: option.split sum.split)

lemma tokens_with_conn:
  "(\<And>c t. v_tokens (snd (f c t)) = v_tokens t) \<Longrightarrow> v_tokens (snd (with_conn e f q s)) = v_tokens s"
  by (simp add: with_conn_def case_prod_beta tokens_kept split: sum.split)

lemma tokens_card [tokens_kept]: "v_tokens (snd (card_of e conn s)) = v_tokens s"
  by (simp add: card_of_def case_prod_beta Let_def tokens_kept split: sum.split)

lemma tokens_cards [tokens_kept]: "v_tokens (snd (cards e s)) = v_tokens s"
proof -
  have "v_tokens (snd (cards_of e conns t)) = v_tokens t" for conns and t :: "'a server"
    by (induction conns arbitrary: t) (simp_all add: case_prod_beta tokens_kept)
  then show ?thesis by (simp add: cards_def case_prod_beta split: sum.split)
qed

lemma tokens_health [tokens_kept]: "v_tokens (snd (subnetHealth e s)) = v_tokens s"
proof -
  have "v_tokens (snd (health_of e subnets t)) = v_tokens t" for subnets and t :: "'a server"
    by (induction subnets arbitrary: t) (simp_all add: case_prod_beta Let_def tokens_kept)
  then show ?thesis by (simp add: subnetHealth_def case_prod_beta split: sum.split)
qed

lemma tokens_fragments [tokens_kept]:
  "v_tokens (snd (status_fragment e conn s)) = v_tokens s" "v_tokens (snd (tailnetReady e s)) = v_tokens s"
  "v_tokens (snd (approvedRoutes e s)) = v_tokens s" "v_tokens (snd (tailnet_fragment e m s)) = v_tokens s"
  "v_tokens (snd (tailnetView e m s)) = v_tokens s"
  by (simp_all add: status_fragment_def tailnetReady_def approvedRoutes_def tailnet_fragment_def tailnetView_def
      case_prod_beta Let_def tokens_kept split: option.split sum.split)

lemma tokens_renderSubnets [tokens_kept]:
  "v_tokens (snd (renderSubnets e failure q s)) = v_tokens s" "v_tokens (snd (subnetsData e m s)) = v_tokens s"
proof -
  have p: "v_tokens (snd (probedHops e t)) = v_tokens t" "v_tokens (snd (system_routes e t)) = v_tokens t" for t :: "'a server"
    by (simp_all add: probedHops_def system_routes_def case_prod_beta Let_def tokens_kept split: option.split sum.split)
  have c: "v_tokens (snd (web_candidates e locals t)) = v_tokens t" for locals and t :: "'a server"
    by (simp add: web_candidates_def case_prod_beta Let_def p tokens_kept split: sum.split)
  show d: "v_tokens (snd (subnetsData e m s)) = v_tokens s" for m
    by (simp add: subnetsData_def case_prod_beta Let_def c tokens_kept split: sum.split)
  show "v_tokens (snd (renderSubnets e failure q s)) = v_tokens s"
    by (simp add: renderSubnets_def case_prod_beta d tokens_kept split: sum.split)
qed

lemma tokens_handlers:
  assumes "r \<noteq> RChangePassword"
  shows "v_tokens (snd (handle e r q s)) = v_tokens s"
proof -
  have "v_tokens (snd (setEnabled e b q s)) = v_tokens s" "v_tokens (snd (checkConnection e q s)) = v_tokens s"
    "v_tokens (snd (deleteConnection e q s)) = v_tokens s" "v_tokens (snd (updateConnection e q s)) = v_tokens s"
    "v_tokens (snd (editConnection e q s)) = v_tokens s" "v_tokens (snd (connectionStatus e q s)) = v_tokens s"
    "v_tokens (snd (connectionLogs e q s)) = v_tokens s" "v_tokens (snd (useAsHealthCheck e q s)) = v_tokens s" for b
    unfolding setEnabled_def checkConnection_def deleteConnection_def updateConnection_def editConnection_def
      connectionStatus_def connectionLogs_def useAsHealthCheck_def
    by (rule tokens_with_conn, simp add: case_prod_beta Let_def tokens_kept split: sum.split)+
  then show ?thesis using assms
    by (cases r) (simp_all add: createConnection_def dashboard_def newConnection_def web_preflight_def
        closeConnectionLogs_def releases_def showPassword_def startScan_def scanStatus_def tailnetPage_def
        tailnetStatus_def tailnetLogin_def tailnetExitNode_def checkSubnet_def addSubnet_def setSubnetEnabled_def
        deleteSubnet_def useAsSubnetHealthCheck_def web_subnets_def localHealth_def case_prod_beta Let_def tokens_kept
        split: option.split sum.split)
qed

lemma throttle_frames [tokens_kept]:
  "v_tokens (snd (throttle_check e ip s)) = v_tokens s" "v_store (snd (throttle_check e ip s)) = v_store s"
  "v_tokens (throttle_failed e ip s) = v_tokens s" "v_tokens (throttle_cleared ip s) = v_tokens s"
  "v_store (throttle_cleared ip s) = v_store s" "v_store (throttle_failed e ip s) = v_store s"
proof -
  have st: "v_store (snd (clock e t)) = v_store t" for t :: "'a server" by (rule store_core[OF v_core_clock])
  have f: "v_store (t\<lparr>v_attempts := a\<rparr>) = v_store t" for t :: "'a server" and a by (simp add: v_store_def)
  show "v_tokens (snd (throttle_check e ip s)) = v_tokens s" "v_store (snd (throttle_check e ip s)) = v_store s"
    by (simp_all add: throttle_check_def case_prod_beta Let_def tokens_kept st f)
  show "v_tokens (throttle_failed e ip s) = v_tokens s" "v_tokens (throttle_cleared ip s) = v_tokens s"
    "v_store (throttle_cleared ip s) = v_store s" "v_store (throttle_failed e ip s) = v_store s"
    by (simp_all add: throttle_failed_def throttle_cleared_def case_prod_beta tokens_kept st f)
qed

lemma matches_store: "v_store s = v_store t \<Longrightarrow> password_matches e p s = password_matches e p t"
  by (simp add: password_matches_def)

lemma change_needs_password:
  "\<not> password_matches e (rq_form q ''current'') s \<Longrightarrow> v_tokens (snd (changePassword e q s)) = v_tokens s"
  using matches_store[of "snd (throttle_check e (clientIP q) s)" s e]
  by (simp add: changePassword_def passwordError_def case_prod_beta Let_def tokens_kept)

lemma login_needs_password:
  "\<not> password_matches e (rq_form q ''password'') s \<Longrightarrow> v_tokens (snd (login e q s)) = v_tokens s"
  using matches_store[of "snd (throttle_check e (clientIP q) s)" s e]
  by (simp add: login_def case_prod_beta Let_def tokens_kept split: option.split)

lemma find_route_Some:
  "find_route method path = Some r \<Longrightarrow>
     \<exists>m pat. (m, pat, r) \<in> set private_routes \<and> method_matches m method \<and> path_matches pat path"
  by (auto simp: find_route_def Let_def find_Some_iff split: option.split_asm dest!: nth_mem) blast

lemma find_change_password: "find_route method path = Some RChangePassword \<Longrightarrow> method = ''POST''"
  by (drule find_route_Some) (auto simp: private_routes_def method_matches_def)



end
