(* ===== verification/WebAccess.thy ===== *)
theory WebAccess
  imports WebProps
begin

text \<open>
  What signing in, setting up and changing the password give, and what goes wrong when the store cannot
  be read while a password is set.
\<close>

section \<open>Sessions last until they expire or are closed\<close>

lemma srv_grant_Inr:
  assumes "srv_grant e s = (Inr token, s')"
  shows "\<exists>t. v_tokens s' token = Some (fst (clock e t) + session_ttl (w_ttl e)) \<and> v_core t = v_core s"
    and "v_store s' = v_store s"
    and "v_tokens s = Map.empty \<Longrightarrow> v_tokens s' = (v_tokens s')|`{token}"
proof -
  obtain raw where raw: "rand_bytes e 0 32 s = Inr raw" using assms by (cases "rand_bytes e 0 32 s") (auto simp: srv_grant_def)
  let ?t = "snd (clock e s)" and ?m = "\<lambda>m. expire_tokens (fst (clock e s)) m"
  let ?x = "fst (clock e ?t) + session_ttl (w_ttl e)"
  have core: "v_core (snd (clock e ?t)) = v_core s" "v_core ?t = v_core s" by (simp_all add: v_core_clock)
  have s': "s' = (snd (clock e ?t))\<lparr>v_tokens := (?m (v_tokens s))(token \<mapsto> ?x)\<rparr>"
    using assms raw tokens_core[OF core(1)]
    by (auto simp: srv_grant_def case_prod_beta Let_def grant_def)
  then show "\<exists>t. v_tokens s' token = Some (fst (clock e t) + session_ttl (w_ttl e)) \<and> v_core t = v_core s"
    using core(2) by auto
  show "v_store s' = v_store s" using store_core[OF core(1)] unfolding s' by (simp add: v_store_def)
  show "v_tokens s' = (v_tokens s')|`{token}" if "v_tokens s = Map.empty"
    using that unfolding s' by (auto simp: expire_tokens_def restrict_map_def)
qed

lemma matches_set_up: "password_matches e p s \<Longrightarrow> \<not> needs_setup e s"
  by (simp add: password_matches_def cred_Matches_def needs_setup_def NeedsSetup_def Let_def)

lemma render_code: "an_code (fst (render e q (Some c) page title d s)) = c"
  by (simp add: render_def page_code_def case_prod_beta plain_reply_def)



section \<open>Setting a password\<close>

text \<open>The documented behaviour of bcrypt: a hash is not empty and matches the password it was made of.\<close>

definition bcrypt_correct :: "'w web \<Rightarrow> bool" where
  "bcrypt_correct e \<longleftrightarrow> (\<forall>p w h. w_bcrypt e p w = Inr h \<longrightarrow> h \<noteq> [] \<and> w_compare e h p)"

lemma set_password_store:
  "v_store (snd (set_password e p s)) = the (snd (cred_Set (e_text (w_mgr e)) (w_envHash e)
     (w_bcrypt e p (y_world (kc_sys (v_chk (snd (db_now e s)))))) p (fst (db_now e s)) (Some (v_store s))))"
  using store_core[OF v_core_db_now, of e s] unfolding set_password_eq Let_def by (simp add: v_put_def v_store_def)

lemma set_password_result:
  "fst (set_password e p s) = fst (cred_Set (e_text (w_mgr e)) (w_envHash e)
     (w_bcrypt e p (y_world (kc_sys (v_chk (snd (db_now e s)))))) p (fst (db_now e s)) (Some (v_store s)))"
  using store_core[OF v_core_db_now, of e s] by (simp add: set_password_def case_prod_beta Let_def)

lemma set_password_tokens: "v_tokens (snd (set_password e p s)) = v_tokens s"
  using tokens_frames(3)[of e s] unfolding set_password_eq Let_def by (simp add: v_put_def)

lemma row_sel_upserted: "row_sel key (key r) (row_upsert key r t) = Some r"
proof (cases "\<exists>x \<in> set t. key x = key r")
  case True
  then have "row_sel key (key r) (row_upd key (key r) (\<lambda>_. r) t) = Some r"
    by (induction t) (auto simp: row_sel_def row_upd_def)
  then show ?thesis using True by (simp add: row_upsert_def)
next
  case False
  then show ?thesis by (induction t) (auto simp: row_sel_def row_upsert_def row_ins_def)
qed

lemma Setting_reads_back:
  "fst (SetSetting name v now st) = Inr () \<Longrightarrow> fault st SelSetting = None \<Longrightarrow>
     Setting name (snd (SetSetting name v now st)) = Inr v"
  using row_sel_upserted[of g_name "\<lparr>g_name = name, g_value = v, g_updated = now\<rparr>" "tsettings st"]
  by (auto simp: SetSetting_def exec_def Setting_def query_def split: option.splits)

text \<open>A password that was set is the one that matches, whatever was stored before.\<close>

lemma set_password_Inr:
  assumes "set_password e p s = (Inr (), s')"
  shows "w_envHash e = []" "minPassword \<le> length (runes p)"
    "\<exists>w h. w_bcrypt e p w = Inr h \<and> fault (v_store s') = fault (v_store s) \<and>
       (fault (v_store s) SelSetting = None \<longrightarrow> cred_Hash (w_envHash e) (Some (v_store s')) = h)"
proof -
  let ?now = "fst (db_now e s)" and ?w = "y_world (kc_sys (v_chk (snd (db_now e s))))"
  have r: "fst (cred_Set (e_text (w_mgr e)) (w_envHash e) (w_bcrypt e p ?w) p ?now (Some (v_store s))) = Inr ()"
    using set_password_result[of e p s] assms by simp
  show env: "w_envHash e = []" and len: "minPassword \<le> length (runes p)"
    using r by (auto simp: cred_Set_def split: if_splits)
  obtain h where h: "w_bcrypt e p ?w = Inr h" using r env len by (cases "w_bcrypt e p ?w") (auto simp: cred_Set_def)
  have ok: "fst (SetSetting passwordSetting h ?now (v_store s)) = Inr ()"
    using r env len h by (cases "SetSetting passwordSetting h ?now (v_store s)")
      (auto simp: cred_Set_def split: sum.splits)
  then have st: "v_store s' = snd (SetSetting passwordSetting h ?now (v_store s))"
    using set_password_store[of e p s] assms env len h
    by (cases "SetSetting passwordSetting h ?now (v_store s)") (auto simp: cred_Set_def)
  have f: "fault (v_store s') = fault (v_store s)" unfolding st by (simp add: SetSetting_def exec_def split: option.split)
  have c: "fault (v_store s) SelSetting = None \<longrightarrow> cred_Hash (w_envHash e) (Some (v_store s')) = h"
    using Setting_reads_back[OF ok] env unfolding st by (simp add: cred_Hash_def)
  show "\<exists>w h. w_bcrypt e p w = Inr h \<and> fault (v_store s') = fault (v_store s) \<and>
       (fault (v_store s) SelSetting = None \<longrightarrow> cred_Hash (w_envHash e) (Some (v_store s')) = h)"
    by (intro exI[of _ ?w] exI[of _ h] conjI h f c)
qed

lemma passwordError_code: "an_code (fst (passwordError e q m s)) = 422"
  by (simp add: passwordError_def render_code)

lemma web_fail_code: "an_code (fst (web_fail err s)) = 500"
  by (simp add: web_fail_def http_error_def plain_reply_def)

lemma changePassword_200:
  assumes "an_code (fst (changePassword e q s)) = 200"
  shows "\<exists>t. v_store t = v_store s \<and> password_matches e (rq_form q ''current'') s \<and>
    changePassword e q s = change_rest e q t"
proof -
  let ?s1 = "snd (throttle_check e (clientIP q) s)" and ?wait = "fst (throttle_check e (clientIP q) s)"
  have st: "v_store ?s1 = v_store s" by (rule throttle_frames(2))
  have eq: "changePassword e q s =
     (if pinned e
      then passwordError e q ''The admin password comes from ADMIN_PASSWORD_HASH. Change it there.'' s
      else if ?wait \<noteq> None then passwordError e q ''Too many attempts. Wait a minute and try again.'' ?s1
      else if \<not> password_matches e (rq_form q ''current'') ?s1
      then passwordError e q ''That is not the current password.'' (throttle_failed e (clientIP q) ?s1)
      else change_rest e q (throttle_cleared (clientIP q) ?s1))"
    by (simp add: changePassword_def Let_def case_prod_beta)
  have np: "\<not> pinned e" using assms eq by (auto simp: passwordError_code)
  have nw: "?wait = None" using assms eq np by (cases ?wait) (simp_all add: passwordError_code)
  have pw: "password_matches e (rq_form q ''current'') ?s1" using assms eq np nw
    by (cases "password_matches e (rq_form q ''current'') ?s1") (simp_all add: passwordError_code)
  have "changePassword e q s = change_rest e q (throttle_cleared (clientIP q) ?s1)" using eq np nw pw by simp
  moreover have "v_store (throttle_cleared (clientIP q) ?s1) = v_store s" using st by (simp add: tokens_kept)
  ultimately show ?thesis
    using pw matches_store[OF st] by blast
qed

lemma change_rest_200:
  assumes "an_code (fst (change_rest e q t)) = 200"
  shows "\<exists>s2 token s3. rq_form q ''confirm'' = rq_form q ''password'' \<and>
    set_password e (rq_form q ''password'') t = (Inr (), s2) \<and>
    srv_grant e (s2\<lparr>v_tokens := RevokeAll (v_tokens s2)\<rparr>) = (Inr token, s3) \<and>
    change_rest e q t =
      (setSession e q token (fst (render e q None ''password'' ''Password'' (PasswordData False [] True) s3)),
       snd (render e q None ''password'' ''Password'' (PasswordData False [] True) s3))"
proof -
  have same: "rq_form q ''password'' = rq_form q ''confirm''"
    using assms by (cases "rq_form q ''password'' = rq_form q ''confirm''") (auto simp: change_rest_def passwordError_code)
  obtain r2 s2 where sp: "set_password e (rq_form q ''password'') t = (r2, s2)" by fastforce
  have r2: "r2 = Inr ()" using assms same sp passwordError_code[of e q _ s2]
    by (cases r2) (auto simp: change_rest_def)
  obtain r3 s3 where g: "srv_grant e (s2\<lparr>v_tokens := RevokeAll (v_tokens s2)\<rparr>) = (r3, s3)" by fastforce
  have "r3 \<noteq> Inl err" for err using assms same sp r2 g web_fail_code[of _ s3]
    by (auto simp: change_rest_def)
  then obtain token where "r3 = Inr token" by (cases r3) auto
  then show ?thesis using same sp r2 g by (simp add: change_rest_def case_prod_beta)
qed

text \<open>C23: Changing the password ends every other session.  A change that is answered with the page was
  asked for with the current password and a new one of at least ten characters given twice; after
  it only the session of its own cookie is left, and the new password is the one that matches.
\<close>

theorem change_password_drops_sessions:
  assumes "changePassword e q s = (r, s')" "an_code r = 200" "bcrypt_correct e"
  shows "\<exists>token expiry. map_option ck_value (an_cookie r) = Some token \<and> v_tokens s' = [token \<mapsto> expiry] \<and>
    password_matches e (rq_form q ''current'') s \<and> rq_form q ''confirm'' = rq_form q ''password'' \<and>
    minPassword \<le> length (runes (rq_form q ''password'')) \<and> password_matches e (rq_form q ''password'') s'"
proof -
  let ?p = "rq_form q ''password''"
  have code: "an_code (fst (changePassword e q s)) = 200" using assms(1,2) by simp
  from changePassword_200[OF code] obtain t where t: "v_store t = v_store s"
    "password_matches e (rq_form q ''current'') s" "changePassword e q s = change_rest e q t" by blast
  have "an_code (fst (change_rest e q t)) = 200" using code t(3) by simp
  from change_rest_200[OF this] obtain s2 token s3 where sp: "rq_form q ''confirm'' = ?p"
    "set_password e ?p t = (Inr (), s2)"
    and g: "srv_grant e (s2\<lparr>v_tokens := RevokeAll (v_tokens s2)\<rparr>) = (Inr token, s3)"
    and rs: "r = setSession e q token (fst (render e q None ''password'' ''Password'' (PasswordData False [] True) s3))"
    "s' = snd (render e q None ''password'' ''Password'' (PasswordData False [] True) s3)"
    using assms(1) t(3) by auto
  have toks: "v_tokens s' = v_tokens s3" "v_store s' = v_store s3"
    unfolding rs(2) by (rule tokens_core[OF v_core_render], rule store_core[OF v_core_render])
  obtain expiry where x: "v_tokens s3 token = Some expiry" using srv_grant_Inr(1)[OF g] by blast
  have "v_tokens s3 = (v_tokens s3)|`{token}" using srv_grant_Inr(3)[OF g] by (simp add: RevokeAll_def)
  then have "v_tokens s3 x = [token \<mapsto> expiry] x" for x
    using x by (cases "x = token") (metis fun_upd_same, metis empty_iff fun_upd_other insert_iff restrict_out)
  then have only: "v_tokens s3 = [token \<mapsto> expiry]" by (rule ext)
  have store3: "v_store s3 = v_store s2" using srv_grant_Inr(2)[OF g] by (simp add: v_store_def)
  note cur = t(2)
  have nf: "fault (v_store t) SelSetting = None"
  proof (rule ccontr)
    assume "fault (v_store t) SelSetting \<noteq> None"
    then show False using cur set_password_Inr(1)[OF sp(2)] t(1)
      by (auto simp: password_matches_def cred_Matches_def cred_Hash_def Setting_def query_def Let_def)
  qed
  from set_password_Inr(3)[OF sp(2)] obtain w h where h: "w_bcrypt e ?p w = Inr h"
    "cred_Hash (w_envHash e) (Some (v_store s2)) = h" using nf by blast
  then have "password_matches e ?p s'"
    using assms(3) toks(2) store3 by (auto simp: password_matches_def cred_Matches_def bcrypt_correct_def Let_def)
  then show ?thesis
    using cur sp(1) set_password_Inr(2)[OF sp(2)] only toks(1) rs(1) by (auto simp: setSession_def)
qed

lemma demo_bcrypt: "bcrypt_correct demo_web"
  by (simp add: bcrypt_correct_def demo_web_def)

definition demo_set_up :: "int server" where
  "demo_set_up = snd (do_setup demo_web (demo_request ''POST'' [''setup''] (\<lambda>_. ''sesame-sesame'')) demo_server)"

lemma change_password_drops_sessions_witness:
  "let q = demo_request ''POST'' [''password''] (\<lambda>f. if f = ''current'' then ''sesame-sesame'' else ''another-sesame'');
       s' = snd (changePassword demo_web q demo_set_up)
   in (\<exists>token expiry. v_tokens s' = [token \<mapsto> expiry]) \<and> password_matches demo_web ''another-sesame'' s'"
proof -
  let ?q = "demo_request ''POST'' [''password''] (\<lambda>f. if f = ''current'' then ''sesame-sesame'' else ''another-sesame'')"
  have code: "an_code (fst (changePassword demo_web ?q demo_set_up)) = 200" by code_simp
  have form: "rq_form ?q ''password'' = ''another-sesame''" by (simp add: demo_request_def)
  from change_password_drops_sessions[OF prod.collapse[symmetric] code demo_bcrypt] form show ?thesis
    unfolding Let_def by auto
qed

section \<open>Setting up when the store cannot be read\<close>


text \<open>A password is stored, and then the settings cannot be read.\<close>

definition locked_server :: "int server" where
  "locked_server = v_put ((v_store demo_set_up)\<lparr>fault := (\<lambda>_. None)(SelSetting := Some ''database is locked'')\<rparr>) demo_set_up"


text \<open>
  Two requests that have both passed the test of \<open>setup\<close> before either stored a password: the second
  one's password replaces the first one's, and the first keeps its session.
\<close>

lemma setup_race:
  "let first = demo_request ''POST'' [''setup''] (\<lambda>_. ''sesame-sesame'');
       second = demo_request ''POST'' [''setup''] (\<lambda>_. ''mallory-mallory'');
       s1 = snd (setup_rest demo_web first demo_server);
       (r2, s2) = setup_rest demo_web second s1
   in needs_setup demo_web demo_server \<and> \<not> needs_setup demo_web s1 \<and> an_code r2 = 303 \<and>
      password_matches demo_web ''mallory-mallory'' s2 \<and> \<not> password_matches demo_web ''sesame-sesame'' s2"
  by code_simp

end
