(* ===== verification/Sweep.thy ===== *)
theory Sweep
  imports Discover "HOL-Library.Multiset"
begin

text \<open>
  \<open>internal/discover/sweep.go\<close> and \<open>scan.go\<close>: the hosts that a sweep visits are exactly the usable
  addresses of the subnet, and the worker pool around the two channels as a step relation, which
  always comes to an end and loses nothing unless it is cancelled.
\<close>

section \<open>The hosts of a subnet\<close>

lemma hosts_from_zero: "hosts_from p AddrZero = []"
proof -
  have "\<not> pfx_contains p AddrZero"
    by (cases p; cases "pfx_addr p") (auto simp: pfx_contains_def pfx_valid_def)
  then show ?thesis by (subst hosts_from.simps) simp
qed

lemma block_div:
  assumes "(d::nat) dvd M" "0 < d"
  shows "k div d = M div d \<longleftrightarrow> M \<le> k \<and> k < M + d"
proof -
  obtain q where M: "M = d * q" using assms(1) by blast
  have "k div d = q \<longleftrightarrow> d * q \<le> k \<and> k < d * q + d"
    using assms(2) by (metis add.commute div_nat_eqI dividend_less_times_div mult.commute mult_Suc
        mult_Suc_right times_div_less_eq_dividend)
  then show ?thesis using M assms(2) by simp
qed

lemma block_top:
  assumes "2 ^ n dvd unat (x :: 32 word)" "n \<le> 32"
  shows "unat x + 2 ^ n \<le> 2 ^ 32"
proof -
  have "(2::nat) ^ n dvd 2 ^ 32" using assms(2) by (rule le_imp_power_dvd)
  moreover have "unat x < 2 ^ 32" using unsigned_less[of x, where ?'a = nat] by simp
  ultimately have "2 ^ n dvd 2 ^ 32 - unat x" "0 < 2 ^ 32 - unat x" using assms(1) by (auto intro: dvd_diff_nat)
  then have "2 ^ n \<le> 2 ^ 32 - unat x" by (rule dvd_imp_le)
  then show ?thesis using \<open>unat x < 2 ^ 32\<close> by simp
qed

lemma hosts_from_block:
  assumes p: "pfx_valid p" "pfx_addr p = Addr4 x"
    and n: "n = 32 - nat (pfx_bits p)" and M: "2 ^ n dvd unat x"
    and k: "unat x \<le> k" "k < unat x + 2 ^ n"
  shows "hosts_from p (Addr4 (word_of_nat k)) = map (\<lambda>i. Addr4 (word_of_nat i)) [k ..< unat x + 2 ^ n]"
  using k
proof (induction "unat x + 2 ^ n - k" arbitrary: k rule: less_induct)
  case less
  have top: "unat x + 2 ^ n \<le> 2 ^ 32"
    using block_top[OF M] n by simp
  have inside: "pfx_contains p (Addr4 (word_of_nat j)) \<longleftrightarrow> unat x \<le> j \<and> j < unat x + 2 ^ n"
    if "j < 2 ^ 32" for j
    using that p M n by (cases p) (simp add: pfx_contains_4 net_agree_div unat_of_nat block_div)
  have here: "pfx_contains p (Addr4 (word_of_nat k))" using inside[of k] less.prems top by simp
  have last: "word_of_nat k = (- 1 :: 32 word) \<longleftrightarrow> Suc k = 2 ^ 32"
    using less.prems top by (auto simp: word_unat_eq_iff unat_of_nat unsigned_minus_1_eq_mask mask_eq_exp_minus_1)
  have "hosts_from p (Next (Addr4 (word_of_nat k))) =
      map (\<lambda>i. Addr4 (word_of_nat i)) [Suc k ..< unat x + 2 ^ n]"
  proof (cases "Suc k = 2 ^ 32")
    case True
    then show ?thesis using last top by (simp add: hosts_from_zero)
  next
    case False
    then have nx: "Next (Addr4 (word_of_nat k)) = Addr4 (word_of_nat (Suc k))"
      using last by (simp add: add.commute)
    show ?thesis
    proof (cases "Suc k < unat x + 2 ^ n")
      case True
      then show ?thesis unfolding nx using less.hyps[of "Suc k"] less.prems by simp
    next
      case out: False
      have "\<not> pfx_contains p (Addr4 (word_of_nat (Suc k)))"
        using inside[of "Suc k"] False out less.prems top by simp
      then show ?thesis unfolding nx using out by (subst hosts_from.simps) simp
    qed
  qed
  then show ?case using here less.prems by (subst hosts_from.simps) (simp add: upt_conv_Cons)
qed

lemma word_last: "(v :: 32 word) = - 1 \<longleftrightarrow> Suc (unat v) = 2 ^ 32"
  by (auto simp: word_unat_eq_iff unsigned_minus_1_eq_mask mask_eq_exp_minus_1)

lemma unat_next: "(v :: 32 word) \<noteq> - 1 \<Longrightarrow> unat (v + 1) = Suc (unat v)"
  using unatSuc[of v] by (simp add: add.commute eq_neg_iff_add_eq_0)

lemma net_masked_dvd: "2 ^ (LENGTH('a) - b) dvd unat (net_masked (w :: 'a::len word) b)"
proof -
  have "take_bit (LENGTH('a) - b) (net_masked w b) = 0"
    by (rule bit_word_eqI) (auto simp: net_masked_def bit_simps)
  then have "take_bit (LENGTH('a) - b) (unat (net_masked w b)) = 0"
    by (metis unsigned_0 unsigned_take_bit_eq)
  then show ?thesis by (simp add: take_bit_eq_0_iff)
qed

lemma pfx_contains_masked:
  assumes "pfx_valid p" "pfx_addr p = Addr4 x"
  shows "pfx_contains (Masked p) a \<longleftrightarrow> pfx_contains p a"
proof -
  have "net_agree y (net_masked x k) k \<longleftrightarrow> net_agree y x k" for y :: "32 word" and k
    by (meson net_agree_masked net_agree_sym net_agree_trans)
  then show ?thesis using assms
    by (cases p) (auto simp: Masked_def pfx_contains_4 pfx_valid_def addr_valid_def)
qed

lemma butlast_upt: "butlast [i ..< j] = [i ..< j - 1]"
  by (cases j) auto

text \<open>
  The addresses of a block as a list, the first and the last of them, and the addresses that are
  neither.
\<close>

lemma hosts_list:
  assumes "pfx_valid p" "pfx_addr p = Addr4 x" "22 \<le> pfx_bits p"
  defines "n \<equiv> 32 - nat (pfx_bits p)" and "M \<equiv> unat (net_masked x (nat (pfx_bits p)))"
  shows "Hosts p = Inr (map (\<lambda>i. Addr4 (word_of_nat i))
           (if pfx_bits p \<le> 30 then [Suc M ..< M + 2 ^ n - 1] else [M ..< M + 2 ^ n]))"
proof -
  let ?q = "Masked p"
  have q: "pfx_valid ?q" "pfx_addr ?q = Addr4 (net_masked x (nat (pfx_bits p)))" "pfx_bits ?q = pfx_bits p"
    using assms(1,2) by (auto simp: Masked_def pfx_valid_def addr_valid_def)
  have dvd: "2 ^ n dvd M" using net_masked_dvd[where ?'a = 32] unfolding n_def M_def by simp
  have all: "hosts_from ?q (pfx_addr ?q) = map (\<lambda>i. Addr4 (word_of_nat i)) [M ..< M + 2 ^ n]"
    using hosts_from_block[OF q(1,2), of n M] q dvd unfolding n_def M_def by simp
  have upt: "butlast (tl [M ..< M + 2 ^ n]) = [Suc M ..< M + 2 ^ n - 1]"
    using butlast_upt[of "Suc M"] by simp
  show ?thesis
    using q assms(3) all upt by (simp add: Hosts_def Let_def MaxSweepBits_def map_butlast[symmetric] map_tl[symmetric])
qed

lemma pfx_contains_interval:
  assumes "pfx_valid p" "pfx_addr p = Addr4 x"
  defines "n \<equiv> 32 - nat (pfx_bits p)" and "M \<equiv> unat (net_masked x (nat (pfx_bits p)))"
  shows "pfx_contains p a \<longleftrightarrow> (\<exists>v. a = Addr4 v \<and> M \<le> unat v \<and> unat v < M + 2 ^ n)"
proof -
  have q: "pfx_valid (Masked p)" "pfx_addr (Masked p) = Addr4 (net_masked x (nat (pfx_bits p)))"
      "pfx_bits (Masked p) = pfx_bits p"
    using assms(1,2) by (auto simp: Masked_def pfx_valid_def addr_valid_def)
  have dvd: "2 ^ n dvd M" using net_masked_dvd[where ?'a = 32] unfolding n_def M_def by simp
  have "pfx_contains (Masked p) a \<longleftrightarrow> (\<exists>v. a = Addr4 v \<and> M \<le> unat v \<and> unat v < M + 2 ^ n)"
    using q dvd by (cases "Masked p") (auto simp: pfx_contains_4 net_agree_div block_div n_def M_def)
  then show ?thesis using pfx_contains_masked[OF assms(1,2)] by simp
qed

definition usable_range :: "prefix \<Rightarrow> 32 word \<Rightarrow> nat list" where
  "usable_range p x = (let n = 32 - nat (pfx_bits p); M = unat (net_masked x (nat (pfx_bits p)))
     in if pfx_bits p \<le> 30 then [Suc M ..< M + 2 ^ n - 1] else [M ..< M + 2 ^ n])"

lemma usable_range_low: "i \<in> set (usable_range p x) \<Longrightarrow> unat (word_of_nat i :: 32 word) = i"
  using block_top[of "32 - nat (pfx_bits p)" "net_masked x (nat (pfx_bits p))"]
    net_masked_dvd[where ?'a = 32, of "nat (pfx_bits p)" x]
  by (auto simp: usable_range_def Let_def unat_of_nat split: if_splits)

lemma usable_range_length:
  assumes "22 \<le> pfx_bits p" "pfx_bits p \<le> 32"
  shows "usable_range p x \<noteq> [] \<and> length (usable_range p x) \<le> 1022"
proof -
  define n where "n = 32 - nat (pfx_bits p)"
  have "(2::nat) ^ n \<le> 2 ^ 10" using assms by (intro power_increasing) (auto simp: n_def)
  moreover have "(2::nat) ^ 2 \<le> 2 ^ n" if "pfx_bits p \<le> 30"
    using that by (intro power_increasing) (auto simp: n_def)
  moreover have "(2::nat) ^ n \<le> 2 ^ 1" if "\<not> pfx_bits p \<le> 30"
    using that by (intro power_increasing) (auto simp: n_def)
  ultimately have "length (usable_range p x) \<le> 1022 \<and> length (usable_range p x) \<noteq> 0"
    by (fastforce simp: usable_range_def Let_def n_def[symmetric])
  then show ?thesis by auto
qed

lemma usable_iff:
  assumes "pfx_valid p" "pfx_addr p = Addr4 x"
  shows "(pfx_contains p (Addr4 v) \<and>
     (pfx_bits p \<le> 30 \<longrightarrow> Addr4 v \<noteq> pfx_addr (Masked p) \<and> pfx_contains p (Next (Addr4 v))))
    \<longleftrightarrow> unat v \<in> set (usable_range p x)"
proof -
  define n where "n = 32 - nat (pfx_bits p)"
  define M where "M = unat (net_masked x (nat (pfx_bits p)))"
  have inside: "pfx_contains p a \<longleftrightarrow> (\<exists>v. a = Addr4 v \<and> M \<le> unat v \<and> unat v < M + 2 ^ n)" for a
    using pfx_contains_interval[OF assms] by (simp add: M_def n_def)
  have top: "M + 2 ^ n \<le> 2 ^ 32"
    using block_top[of n "net_masked x (nat (pfx_bits p))"]
      net_masked_dvd[where ?'a = 32, of "nat (pfx_bits p)" x] by (simp add: n_def M_def)
  have nx: "pfx_contains p (Next (Addr4 v)) \<longleftrightarrow> Suc (unat v) < M + 2 ^ n"
    if "M \<le> unat v" "unat v < M + 2 ^ n"
  proof (cases "v = - 1")
    case True
    then have "Next (Addr4 v) = AddrZero" "Suc (unat v) = 2 ^ 32" using word_last by auto
    then show ?thesis using inside[of AddrZero] top by (simp del: Next.simps)
  next
    case False
    then show ?thesis using inside[of "Addr4 (v + 1)"] unat_next[OF False] that by simp
  qed
  have first: "Addr4 v \<noteq> pfx_addr (Masked p) \<longleftrightarrow> unat v \<noteq> M"
    using assms by (simp add: Masked_def M_def word_unat_eq_iff)
  have here: "pfx_contains p (Addr4 v) \<longleftrightarrow> M \<le> unat v \<and> unat v < M + 2 ^ n" by (simp add: inside)
  show ?thesis using nx unfolding first here usable_range_def Let_def n_def[symmetric] M_def[symmetric]
    by auto
qed

lemma hosts_facts:
  assumes "pfx_valid p" "Is4 (pfx_addr p)" "22 \<le> pfx_bits p"
  shows "\<exists>hs. Hosts p = Inr hs \<and> hs \<noteq> [] \<and> length hs \<le> 1022 \<and> distinct hs \<and> sorted_wrt addr_less hs \<and>
    set hs = {a. pfx_contains p a \<and>
                 (pfx_bits p \<le> 30 \<longrightarrow> a \<noteq> pfx_addr (Masked p) \<and> pfx_contains p (Next a))}"
proof -
  obtain x where x: "pfx_addr p = Addr4 x" using assms(2) by (cases "pfx_addr p") auto
  define L where "L = usable_range p x"
  define hs where "hs = map (\<lambda>i. Addr4 (word_of_nat i)) L"
  note low = usable_range_low[of _ p x, folded L_def]
  have L: "L \<noteq> []" "length L \<le> 1022" "distinct L" "sorted_wrt (<) L"
    using usable_range_length[of p x] assms x
    by (auto simp: L_def usable_range_def Let_def pfx_valid_def)
  have "inj_on (\<lambda>i. Addr4 (word_of_nat i)) (set L)" by (rule inj_onI) (metis addr.inject(1) low)
  then have "distinct hs" using L(3) by (simp add: hs_def distinct_map)
  moreover have "sorted_wrt addr_less hs" unfolding hs_def sorted_wrt_map
    using L(4) by (rule sorted_wrt_mono_rel[rotated]) (simp add: word_less_nat_alt low)
  moreover have "Hosts p = Inr hs"
    using hosts_list[OF assms(1) x assms(3)] by (simp add: hs_def L_def usable_range_def Let_def)
  moreover have "a \<in> set hs \<longleftrightarrow> pfx_contains p a \<and>
      (pfx_bits p \<le> 30 \<longrightarrow> a \<noteq> pfx_addr (Masked p) \<and> pfx_contains p (Next a))" for a
  proof (cases "\<exists>v. a = Addr4 v")
    case True
    then obtain v where v: "a = Addr4 v" ..
    have "Addr4 v \<in> set hs \<longleftrightarrow> unat v \<in> set L"
    proof
      assume "unat v \<in> set L"
      then have "Addr4 (word_of_nat (unat v)) \<in> set hs" unfolding hs_def set_map by (rule imageI)
      then show "Addr4 v \<in> set hs" by simp
    qed (auto simp: hs_def low)
    then show ?thesis unfolding v L_def usable_iff[OF assms(1) x] .
  next
    case False
    then show ?thesis using pfx_contains_interval[OF assms(1) x] by (auto simp: hs_def)
  qed
  ultimately show ?thesis using L(1,2) by (intro exI[of _ hs]) (auto simp: hs_def simp del: Next.simps)
qed

text \<open>\<open>Hosts\<close> lists the addresses of an IPv4 subnet of at most 1024 addresses, each once and in
  order: all of them for a /31 or /32, otherwise all but the network address and the last address,
  the one whose successor is outside.
\<close>

theorem hosts_exact:
  assumes "pfx_valid p" "Is4 (pfx_addr p)" "22 \<le> pfx_bits p"
  shows "\<exists>hs. Hosts p = Inr hs \<and> hs \<noteq> [] \<and> length hs \<le> 1022 \<and> distinct hs \<and> sorted_wrt addr_less hs \<and>
    set hs = {a. pfx_contains p a \<and>
                 (pfx_bits p \<le> 30 \<longrightarrow> a \<noteq> pfx_addr (Masked p) \<and> pfx_contains p (Next a))}"
  using assms by (rule hosts_facts)

lemma hosts_exact_witness:
  "\<exists>hs. Hosts (Prefix (Addr4 0xC0A80105) 30) = Inr hs \<and> Addr4 0xC0A80106 \<in> set hs \<and> Addr4 0xC0A80104 \<notin> set hs"
proof -
  let ?p = "Prefix (Addr4 0xC0A80105) 30"
  have net: "Masked ?p = Prefix (Addr4 0xC0A80104) 30" by code_simp
  have ins: "pfx_contains ?p (Addr4 0xC0A80106)" "pfx_contains ?p (Addr4 0xC0A80107)" by code_simp+
  have "pfx_valid ?p" "Is4 (pfx_addr ?p)" "22 \<le> pfx_bits ?p" by (simp_all add: pfx_valid_def addr_valid_def)
  from hosts_exact[OF this] show ?thesis using net ins by auto
qed

text \<open>Any other subnet is refused.\<close>

lemma hosts_refused:
  "(\<exists>e. Hosts p = Inl e) \<longleftrightarrow> \<not> (pfx_valid p \<and> Is4 (pfx_addr p) \<and> 22 \<le> pfx_bits p)"
  by (cases p; cases "pfx_addr p")
    (auto simp: Hosts_def Masked_def Let_def MaxSweepBits_def pfx_valid_def addr_valid_def)

section \<open>The worker pool\<close>

text \<open>
  A goroutine of the pool waits for an address, pings one, offers a result on the \<open>results\<close>
  channel, or has returned.  \<open>sw_done\<close> is the context; \<open>sw_gave_up\<close> says that the sending loop has
  seen it, which is the error that \<open>Sweep\<close> returns.
\<close>

record sweep_result =
  sr_addr :: addr
  sr_rtt :: duration
  sr_name :: string

datatype worker = Waiting | Pinging addr | Offering sweep_result | Gone

record sweep =
  sw_todo :: "addr list"
  sw_workers :: "worker list"
  sw_out :: "sweep_result list"
  sw_closed :: bool
  sw_gave_up :: bool
  sw_done :: bool

definition sweep_workers :: "int \<Rightarrow> addr list \<Rightarrow> nat" where
  "sweep_workers workers hosts = min (nat (if workers \<le> 0 then 64 else workers)) (length hosts)"

definition sweep_start :: "int \<Rightarrow> prefix \<Rightarrow> string + sweep" where
  "sweep_start workers p = bindr (Hosts p) (\<lambda>hosts.
     Inr \<lparr>sw_todo = hosts, sw_workers = replicate (sweep_workers workers hosts) Waiting, sw_out = [],
          sw_closed = False, sw_gave_up = False, sw_done = False\<rparr>)"

text \<open>
  \<open>ping\<close> says what answers, and how fast; once the context is done a ping may also fail, and so may
  the lookup of a name.  The reader of \<open>results\<close> takes what is offered, in any order.
\<close>

definition sweep_found :: "(addr \<Rightarrow> duration option) \<Rightarrow> (addr \<Rightarrow> string) option \<Rightarrow> addr \<Rightarrow> sweep_result option" where
  "sweep_found ping lookup a = map_option (\<lambda>rtt. \<lparr>sr_addr = a, sr_rtt = rtt,
     sr_name = (case lookup of Some l \<Rightarrow> l a | None \<Rightarrow> [])\<rparr>) (ping a)"

definition unnamed :: "sweep_result \<Rightarrow> sweep_result" where
  "unnamed r = r\<lparr>sr_name := []\<rparr>"

inductive sweep_step :: "(addr \<Rightarrow> sweep_result option) \<Rightarrow> sweep \<Rightarrow> sweep \<Rightarrow> bool" for found where
  cancel: "\<not> sw_done s \<Longrightarrow> sweep_step found s (s\<lparr>sw_done := True\<rparr>)"
| hand_over: "sw_todo s = a # as \<Longrightarrow> \<not> sw_closed s \<Longrightarrow> i < length (sw_workers s) \<Longrightarrow> sw_workers s ! i = Waiting \<Longrightarrow>
    sweep_step found s (s\<lparr>sw_todo := as, sw_workers := (sw_workers s)[i := Pinging a]\<rparr>)"
| give_up: "sw_todo s \<noteq> [] \<Longrightarrow> \<not> sw_closed s \<Longrightarrow> sw_done s \<Longrightarrow>
    sweep_step found s (s\<lparr>sw_closed := True, sw_gave_up := True\<rparr>)"
| close_queue: "sw_todo s = [] \<Longrightarrow> \<not> sw_closed s \<Longrightarrow> sweep_step found s (s\<lparr>sw_closed := True\<rparr>)"
| answered: "i < length (sw_workers s) \<Longrightarrow> sw_workers s ! i = Pinging a \<Longrightarrow> found a = Some r \<Longrightarrow>
    sweep_step found s (s\<lparr>sw_workers := (sw_workers s)[i := Offering r]\<rparr>)"
| answered_late: "i < length (sw_workers s) \<Longrightarrow> sw_workers s ! i = Pinging a \<Longrightarrow> found a = Some r \<Longrightarrow> sw_done s \<Longrightarrow>
    sweep_step found s (s\<lparr>sw_workers := (sw_workers s)[i := Offering (unnamed r)]\<rparr>)"
| no_answer: "i < length (sw_workers s) \<Longrightarrow> sw_workers s ! i = Pinging a \<Longrightarrow> found a = None \<or> sw_done s \<Longrightarrow>
    sweep_step found s (s\<lparr>sw_workers := (sw_workers s)[i := Waiting]\<rparr>)"
| report: "i < length (sw_workers s) \<Longrightarrow> sw_workers s ! i = Offering r \<Longrightarrow>
    sweep_step found s (s\<lparr>sw_workers := (sw_workers s)[i := Waiting], sw_out := sw_out s @ [r]\<rparr>)"
| drop_result: "i < length (sw_workers s) \<Longrightarrow> sw_workers s ! i = Offering r \<Longrightarrow> sw_done s \<Longrightarrow>
    sweep_step found s (s\<lparr>sw_workers := (sw_workers s)[i := Gone]\<rparr>)"
| leave: "i < length (sw_workers s) \<Longrightarrow> sw_workers s ! i = Waiting \<Longrightarrow> sw_closed s \<Longrightarrow>
    sweep_step found s (s\<lparr>sw_workers := (sw_workers s)[i := Gone]\<rparr>)"

text \<open>\<open>group.Wait\<close> returns when the queue is closed and every worker has returned.\<close>

definition sweep_over :: "sweep \<Rightarrow> bool" where
  "sweep_over s \<longleftrightarrow> sw_closed s \<and> set (sw_workers s) \<subseteq> {Gone}"

inductive sweep_run :: "(addr \<Rightarrow> sweep_result option) \<Rightarrow> sweep \<Rightarrow> nat \<Rightarrow> sweep \<Rightarrow> bool" for found where
  start: "sweep_run found s 0 s"
| more: "sweep_run found s n t \<Longrightarrow> sweep_step found t u \<Longrightarrow> sweep_run found s (Suc n) u"

section \<open>A sweep ends, and loses nothing\<close>

lemma sum_list_map_update:
  fixes f :: "'a \<Rightarrow> 'b::comm_monoid_add"
  assumes "i < length xs"
  shows "sum_list (map f (xs[i := y])) + f (xs ! i) = sum_list (map f xs) + f y"
  using assms by (induction xs arbitrary: i) (auto simp: nth_Cons ac_simps split: nat.splits)

fun worker_weight :: "worker \<Rightarrow> nat" where
  "worker_weight (Pinging _) = 3"
| "worker_weight (Offering _) = 2"
| "worker_weight Waiting = 1"
| "worker_weight Gone = 0"

definition sweep_measure :: "sweep \<Rightarrow> nat" where
  "sweep_measure s = 3 * length (sw_todo s) + sum_list (map worker_weight (sw_workers s))
     + (if sw_closed s then 0 else 1) + (if sw_done s then 0 else 1)"

lemma sweep_step_decreases: "sweep_step found s t \<Longrightarrow> sweep_measure t < sweep_measure s"
proof (induction rule: sweep_step.induct)
  case (hand_over s a as i)
  then show ?case using sum_list_map_update[of i "sw_workers s" worker_weight "Pinging a"]
    by (simp add: sweep_measure_def)
next
  case (answered i s a r)
  then show ?case using sum_list_map_update[of i "sw_workers s" worker_weight "Offering r"]
    by (simp add: sweep_measure_def)
next
  case (answered_late i s a r)
  then show ?case using sum_list_map_update[of i "sw_workers s" worker_weight "Offering (unnamed r)"]
    by (simp add: sweep_measure_def)
next
  case (no_answer i s a)
  then show ?case using sum_list_map_update[of i "sw_workers s" worker_weight Waiting]
    by (simp add: sweep_measure_def)
next
  case (report i s r)
  then show ?case using sum_list_map_update[of i "sw_workers s" worker_weight Waiting]
    by (simp add: sweep_measure_def)
next
  case (drop_result i s r)
  then show ?case using sum_list_map_update[of i "sw_workers s" worker_weight Gone]
    by (simp add: sweep_measure_def)
next
  case (leave i s)
  then show ?case using sum_list_map_update[of i "sw_workers s" worker_weight Gone]
    by (simp add: sweep_measure_def)
qed (simp_all add: sweep_measure_def)

text \<open>
  What has been reported, is offered, or would be found at an address not yet pinged: all of it
  until the context is done, part of it afterwards.
\<close>

definition opt_mset :: "'a option \<Rightarrow> 'a multiset" where
  "opt_mset x = (case x of Some r \<Rightarrow> {#r#} | None \<Rightarrow> {#})"

fun worker_found :: "(addr \<Rightarrow> sweep_result option) \<Rightarrow> worker \<Rightarrow> sweep_result multiset" where
  "worker_found found (Pinging a) = opt_mset (found a)"
| "worker_found found (Offering r) = {#r#}"
| "worker_found found _ = {#}"

definition sweep_finds :: "(addr \<Rightarrow> sweep_result option) \<Rightarrow> sweep \<Rightarrow> sweep_result multiset" where
  "sweep_finds found s = mset (sw_out s) + sum_list (map (worker_found found) (sw_workers s))
     + sum_list (map (\<lambda>a. opt_mset (found a)) (sw_todo s))"

lemma worker_stops:
  assumes "i < length ws" "worker_found found w = {#}"
  shows "sum_list (map (worker_found found) (ws[i := w])) \<subseteq># sum_list (map (worker_found found) ws)"
  using sum_list_map_update[OF assms(1), of "worker_found found" w] assms(2)
  by (metis add.right_neutral mset_subset_eq_add_left)

text \<open>A name may get lost once the context is done, so what is kept then is counted without names.\<close>

abbreviation "nameless M \<equiv> image_mset unnamed M"

lemma unnamed_idem [simp]: "unnamed (unnamed r) = unnamed r"
  by (simp add: unnamed_def)

lemma sweep_step_finds:
  "sweep_step found s t \<Longrightarrow>
     nameless (sweep_finds found t) \<subseteq># nameless (sweep_finds found s) \<and>
     (\<not> sw_done t \<longrightarrow> sweep_finds found t = sweep_finds found s)"
proof (induction rule: sweep_step.induct)
  case (hand_over s a as i)
  then have "sweep_finds found (s\<lparr>sw_todo := as, sw_workers := (sw_workers s)[i := Pinging a]\<rparr>) = sweep_finds found s"
    using sum_list_map_update[of i "sw_workers s" "worker_found found" "Pinging a"]
    by (simp add: sweep_finds_def ac_simps)
  then show ?case by simp
next
  case (answered i s a r)
  then have "sweep_finds found (s\<lparr>sw_workers := (sw_workers s)[i := Offering r]\<rparr>) = sweep_finds found s"
    using sum_list_map_update[of i "sw_workers s" "worker_found found" "Offering r"]
    by (simp add: sweep_finds_def opt_mset_def)
  then show ?case by simp
next
  case (answered_late i s a r)
  let ?t = "s\<lparr>sw_workers := (sw_workers s)[i := Offering (unnamed r)]\<rparr>"
  have "sweep_finds found ?t + {#r#} = sweep_finds found s + {#unnamed r#}"
    using sum_list_map_update[of i "sw_workers s" "worker_found found" "Offering (unnamed r)"] answered_late
    by (simp add: sweep_finds_def opt_mset_def)
  from this [THEN arg_cong, of nameless] have "nameless (sweep_finds found ?t) = nameless (sweep_finds found s)" by simp
  then show ?case using answered_late(4) by simp
next
  case (no_answer i s a)
  then show ?case using sum_list_map_update[of i "sw_workers s" "worker_found found" Waiting]
      worker_stops[of i "sw_workers s" found Waiting]
    by (auto simp: sweep_finds_def opt_mset_def intro!: image_mset_subseteq_mono)
next
  case (report i s r)
  then have "sweep_finds found (s\<lparr>sw_workers := (sw_workers s)[i := Waiting], sw_out := sw_out s @ [r]\<rparr>) = sweep_finds found s"
    using sum_list_map_update[of i "sw_workers s" "worker_found found" Waiting]
    by (simp add: sweep_finds_def ac_simps)
  then show ?case by simp
next
  case (drop_result i s r)
  then show ?case using worker_stops[of i "sw_workers s" found Gone]
    by (auto simp: sweep_finds_def intro!: image_mset_subseteq_mono)
next
  case (leave i s)
  then have "sweep_finds found (s\<lparr>sw_workers := (sw_workers s)[i := Gone]\<rparr>) = sweep_finds found s"
    using sum_list_map_update[of i "sw_workers s" "worker_found found" Gone]
    by (simp add: sweep_finds_def)
  then show ?case by simp
qed (simp_all add: sweep_finds_def)

lemma sweep_run_finds:
  "sweep_run found s n t \<Longrightarrow>
     nameless (sweep_finds found t) \<subseteq># nameless (sweep_finds found s) \<and>
     (\<not> sw_done t \<longrightarrow> sweep_finds found t = sweep_finds found s)"
proof (induction rule: sweep_run.induct)
  case (more s n t u)
  have "sw_done t \<Longrightarrow> sw_done u" using more.hyps(2) by (cases rule: sweep_step.cases) auto
  then show ?case using more.IH sweep_step_finds[OF more.hyps(2)] by (auto intro: subset_mset.order_trans)
qed simp

lemma sweep_run_measure: "sweep_run found s n t \<Longrightarrow> sweep_measure t + n \<le> sweep_measure s"
  by (induction rule: sweep_run.induct) (auto dest: sweep_step_decreases)

text \<open>Workers stay in number, leave only a closed queue or a cancelled sweep, and the queue is given up
  only when cancelled.\<close>

definition sweep_inv :: "sweep \<Rightarrow> bool" where
  "sweep_inv s \<longleftrightarrow> sw_workers s \<noteq> [] \<and> (Gone \<in> set (sw_workers s) \<longrightarrow> sw_closed s \<or> sw_done s)
     \<and> (sw_gave_up s \<longrightarrow> sw_done s) \<and> (sw_closed s \<longrightarrow> sw_todo s = [] \<or> sw_gave_up s)"

lemma sweep_step_inv: "sweep_step found s t \<Longrightarrow> sweep_inv s \<Longrightarrow> sweep_inv t"
  by (induction rule: sweep_step.induct) (auto simp: sweep_inv_def dest: set_update_subset_insert[THEN subsetD])

lemma sweep_run_inv: "sweep_run found s n t \<Longrightarrow> sweep_inv s \<Longrightarrow> sweep_inv t"
  by (induction rule: sweep_run.induct) (auto dest: sweep_step_inv)

text \<open>Until it is over, some goroutine can take a step, whether or not the context is cancelled.\<close>

lemma sweep_progress:
  assumes "sweep_inv s" "\<not> sweep_over s"
  shows "\<exists>t. sweep_step found s t \<and> sw_done t = sw_done s"
proof (cases "\<exists>w \<in> set (sw_workers s). w \<noteq> Waiting \<and> w \<noteq> Gone")
  case True
  then obtain i w where i: "i < length (sw_workers s)" "sw_workers s ! i = w" "w \<noteq> Waiting" "w \<noteq> Gone"
    by (metis in_set_conv_nth)
  show ?thesis
  proof (cases w)
    case (Pinging a)
    then show ?thesis using i answered[of i s a found] no_answer[of i s a found]
      by (cases "found a") fastforce+
  next
    case (Offering r)
    then show ?thesis using i report[of i s r found] by fastforce
  qed (use i in auto)
next
  case idle: False
  show ?thesis
  proof (cases "sw_closed s")
    case True
    then have "Waiting \<in> set (sw_workers s)" using assms(2) idle by (auto simp: sweep_over_def)
    then obtain i where "i < length (sw_workers s)" "sw_workers s ! i = Waiting" by (metis in_set_conv_nth)
    then show ?thesis using True leave[of i s found] by fastforce
  next
    case False
    show ?thesis
    proof (cases "sw_todo s")
      case Nil
      then show ?thesis using False close_queue[of s found] by fastforce
    next
      case (Cons a as)
      show ?thesis
      proof (cases "sw_done s")
        case True
        then show ?thesis using False Cons give_up[of s found] by fastforce
      next
        case nd: False
        then have "Waiting \<in> set (sw_workers s)" using assms(1) idle False
          by (metis all_not_in_conv set_empty sweep_inv_def)
        then obtain i where "i < length (sw_workers s)" "sw_workers s ! i = Waiting" by (metis in_set_conv_nth)
        then show ?thesis using False Cons hand_over[of s a as i found] by fastforce
      qed
    qed
  qed
qed

lemma finds_hosts: "sum_list (map (\<lambda>a. opt_mset (found a)) hosts) = mset (List.map_filter found hosts)"
  by (induction hosts) (auto simp: opt_mset_def map_filter_simps split: option.splits)

lemma sweep_start_props:
  assumes "sweep_start w p = Inr s"
  shows "sweep_inv s" "sweep_measure s \<le> 4 * 1022 + 2" "\<not> sw_done s"
    "sweep_finds found s = mset (List.map_filter found (sw_todo s))"
proof -
  from assms obtain hosts where hosts: "Hosts p = Inr hosts"
    and s: "s = \<lparr>sw_todo = hosts, sw_workers = replicate (sweep_workers w hosts) Waiting, sw_out = [],
          sw_closed = False, sw_gave_up = False, sw_done = False\<rparr>"
    by (auto simp: sweep_start_def bindr_Inr_iff)
  have "pfx_valid p" "Is4 (pfx_addr p)" "22 \<le> pfx_bits p" using hosts hosts_refused[of p] by auto
  from hosts_facts[OF this] have len: "hosts \<noteq> []" "length hosts \<le> 1022" using hosts by auto
  then have n: "0 < sweep_workers w hosts" "sweep_workers w hosts \<le> length hosts"
    by (auto simp: sweep_workers_def)
  then show "sweep_inv s" by (auto simp: s sweep_inv_def)
  show "sweep_measure s \<le> 4 * 1022 + 2" using n len
    by (simp add: s sweep_measure_def sum_list_replicate)
  show "\<not> sw_done s" by (simp add: s)
  show "sweep_finds found s = mset (List.map_filter found (sw_todo s))"
  proof -
    have "sum_list (replicate k {#}) = {#}" for k by (induction k) auto
    then show ?thesis by (simp add: s sweep_finds_def finds_hosts)
  qed
qed

lemma sweep_over_complete:
  assumes "sweep_inv s" "sweep_over s" "\<not> sw_done s"
  shows "mset (sw_out s) = sweep_finds found s" "\<not> sw_gave_up s"
proof -
  have "sw_todo s = []" "\<not> sw_gave_up s" using assms by (auto simp: sweep_inv_def sweep_over_def)
  moreover have "sum_list (map (worker_found found) ws) = {#}" if "set ws \<subseteq> {Gone}" for ws
    using that by (induction ws) auto
  ultimately show "mset (sw_out s) = sweep_finds found s" "\<not> sw_gave_up s"
    using assms(2) by (auto simp: sweep_finds_def sweep_over_def)
qed

lemma found_hosts: "map sr_addr (List.map_filter (sweep_found ping lookup) hosts) = filter (\<lambda>a. ping a \<noteq> None) hosts"
  by (induction hosts) (auto simp: map_filter_simps sweep_found_def)

lemma sweep_facts:
  assumes "sweep_start w p = Inr s" "sweep_run (sweep_found ping lookup) s n t"
  shows "n \<le> 4090 \<and>
    (\<not> sweep_over t \<longrightarrow> (\<exists>u. sweep_step (sweep_found ping lookup) t u \<and> sw_done u = sw_done t)) \<and>
    mset (map sr_addr (sw_out t)) \<subseteq># mset (filter (\<lambda>a. ping a \<noteq> None) (sw_todo s)) \<and>
    (sweep_over t \<and> \<not> sw_done t \<longrightarrow>
       \<not> sw_gave_up t \<and> mset (sw_out t) = mset (List.map_filter (sweep_found ping lookup) (sw_todo s)))"
proof -
  let ?f = "sweep_found ping lookup"
  note start = sweep_start_props[OF assms(1)]
  have inv: "sweep_inv t" using sweep_run_inv[OF assms(2) start(1)] .
  have "nameless (mset (sw_out t)) \<subseteq># nameless (sweep_finds ?f t)" by (simp add: sweep_finds_def image_mset_subseteq_mono)
  also have "nameless (sweep_finds ?f t) \<subseteq># nameless (mset (List.map_filter ?f (sw_todo s)))"
    using sweep_run_finds[OF assms(2)] start(4)[of ?f] by simp
  finally have "image_mset sr_addr (nameless (mset (sw_out t))) \<subseteq># image_mset sr_addr (nameless (mset (List.map_filter ?f (sw_todo s))))"
    by (rule image_mset_subseteq_mono)
  then have "mset (map sr_addr (sw_out t)) \<subseteq># mset (map sr_addr (List.map_filter ?f (sw_todo s)))"
    by (simp add: image_mset.compositionality o_def unnamed_def)
  then have "mset (map sr_addr (sw_out t)) \<subseteq># mset (filter (\<lambda>a. ping a \<noteq> None) (sw_todo s))"
    unfolding found_hosts .
  then show ?thesis
    using sweep_run_finds[OF assms(2)] sweep_run_measure[OF assms(2)] start(2) start(4)[of ?f]
      sweep_progress[OF inv, of ?f] sweep_over_complete(1)[OF inv, of ?f] sweep_over_complete(2)[OF inv]
    by (auto intro: subset_mset.order_trans)
qed

text \<open>C15: However the goroutines of a sweep are scheduled and whenever it is cancelled, it takes at most
  4090 steps; until the last worker has returned some goroutine can go on; it never reports a host that
  does not answer, or the same host twice; and a sweep that is over without having been cancelled has
  reported every host that answers and returns no error.
\<close>

theorem sweep_completes:
  assumes "sweep_start w p = Inr s" "sweep_run (sweep_found ping lookup) s n t"
  shows "n \<le> 4090 \<and>
    (\<not> sweep_over t \<longrightarrow> (\<exists>u. sweep_step (sweep_found ping lookup) t u \<and> sw_done u = sw_done t)) \<and>
    mset (map sr_addr (sw_out t)) \<subseteq># mset (filter (\<lambda>a. ping a \<noteq> None) (sw_todo s)) \<and>
    (sweep_over t \<and> \<not> sw_done t \<longrightarrow>
       \<not> sw_gave_up t \<and> mset (sw_out t) = mset (List.map_filter (sweep_found ping lookup) (sw_todo s)))"
  using assms by (rule sweep_facts)

text \<open>One host, one worker: every step of an uncancelled sweep.\<close>

definition demo_host :: addr where "demo_host = Addr4 0x0A000001"

definition demo_result :: sweep_result where
  "demo_result = \<lparr>sr_addr = demo_host, sr_rtt = 7, sr_name = []\<rparr>"

definition demo_sweep :: "addr list \<Rightarrow> worker \<Rightarrow> sweep_result list \<Rightarrow> bool \<Rightarrow> sweep" where
  "demo_sweep todo w out closed = \<lparr>sw_todo = todo, sw_workers = [w], sw_out = out, sw_closed = closed,
     sw_gave_up = False, sw_done = False\<rparr>"

lemma demo_sweep_start: "sweep_start 0 (Prefix demo_host 32) = Inr (demo_sweep [demo_host] Waiting [] False)"
proof -
  have "Hosts (Prefix demo_host 32) = Inr [demo_host]" by code_simp
  then show ?thesis by (simp add: sweep_start_def sweep_workers_def demo_sweep_def)
qed

lemma demo_sweep_run:
  "sweep_run (sweep_found (\<lambda>_. Some 7) None) (demo_sweep [demo_host] Waiting [] False) 5
     (demo_sweep [] Gone [demo_result] True)"
proof -
  let ?f = "sweep_found (\<lambda>_. Some 7) None"
  have f: "?f demo_host = Some demo_result" by (simp add: sweep_found_def demo_result_def)
  have "sweep_step ?f (demo_sweep [demo_host] Waiting [] False) (demo_sweep [] (Pinging demo_host) [] False)"
    using hand_over[of "demo_sweep [demo_host] Waiting [] False" demo_host "[]" 0 ?f] by (simp add: demo_sweep_def)
  moreover have "sweep_step ?f (demo_sweep [] (Pinging demo_host) [] False) (demo_sweep [] (Offering demo_result) [] False)"
    using answered[of 0 "demo_sweep [] (Pinging demo_host) [] False" demo_host ?f demo_result] f by (simp add: demo_sweep_def)
  moreover have "sweep_step ?f (demo_sweep [] (Offering demo_result) [] False) (demo_sweep [] Waiting [demo_result] False)"
    using report[of 0 "demo_sweep [] (Offering demo_result) [] False" demo_result ?f] by (simp add: demo_sweep_def)
  moreover have "sweep_step ?f (demo_sweep [] Waiting [demo_result] False) (demo_sweep [] Waiting [demo_result] True)"
    using close_queue[of "demo_sweep [] Waiting [demo_result] False" ?f] by (simp add: demo_sweep_def)
  moreover have "sweep_step ?f (demo_sweep [] Waiting [demo_result] True) (demo_sweep [] Gone [demo_result] True)"
    using leave[of 0 "demo_sweep [] Waiting [demo_result] True" ?f] by (simp add: demo_sweep_def)
  ultimately have "sweep_run ?f (demo_sweep [demo_host] Waiting [] False) (Suc (Suc (Suc (Suc (Suc 0)))))
      (demo_sweep [] Gone [demo_result] True)"
    by (blast intro: sweep_run.intros)
  then show ?thesis by (simp add: eval_nat_numeral)
qed

lemma demo_sweep_over: "sweep_over (demo_sweep [] Gone out True)" "\<not> sw_done (demo_sweep todo w out closed)"
  by (simp_all add: sweep_over_def demo_sweep_def)

lemma sweep_completes_witness:
  "mset (sw_out (demo_sweep [] Gone [demo_result] True)) = {#demo_result#} \<and> (5::nat) \<le> 4090"
proof -
  have "List.map_filter (sweep_found (\<lambda>_. Some 7) None) (sw_todo (demo_sweep [demo_host] Waiting [] False)) = [demo_result]"
    by (simp add: demo_sweep_def map_filter_simps sweep_found_def demo_result_def)
  then show ?thesis
    using sweep_completes[OF demo_sweep_start demo_sweep_run] demo_sweep_over by simp
qed

end
