(* ===== verification/Candidates.thy ===== *)
theory Candidates
  imports Sweep
begin

text \<open>
  What \<open>Candidates\<close> (\<open>internal/discover/interfaces.go\<close>) suggests as local subnets: every usable
  network of an interface and the guessed network of every other gateway, each once.
\<close>

section \<open>Candidates for local subnets\<close>

definition cand_acc :: "candidate list \<times> string list \<Rightarrow> bool" where
  "cand_acc acc \<longleftrightarrow> set (snd acc) = cd_cidr ` set (fst acc) \<and> distinct (map cd_cidr (fst acc))"

definition from_iface :: "iface list \<Rightarrow> candidate \<Rightarrow> bool" where
  "from_iface ifaces c \<longleftrightarrow> (\<exists>i \<in> set ifaces. \<not> skipped (i_name i) \<and> cd_source c = SourceInterface \<and>
     cd_iface c = i_name i \<and> (\<exists>p \<in> set (i_addrs i). routable (pfx_addr p) \<and> pfx_bits p < 31 \<and>
       cd_cidr c = show_prefix (Masked p)))"

definition from_route :: "iface list \<Rightarrow> route list \<Rightarrow> candidate \<Rightarrow> bool" where
  "from_route ifaces routes c \<longleftrightarrow> (\<exists>r \<in> set routes. pfx_bits (ro_dest r) = 0 \<and> routable (ro_gateway r) \<and>
     \<not> onInterface (ro_gateway r) ifaces \<and> cd_source c = SourceGateway \<and> cd_iface c = ro_iface r \<and>
     cd_cidr c = show_prefix (Masked (PrefixFrom (ro_gateway r) 24)))"

lemma routable_valid: "routable a \<Longrightarrow> addr_valid a"
  by (cases a) (auto simp: addr_valid_def)

lemma iface_candidates_spec:
  "cand_acc (cs, seen) \<Longrightarrow> iface_candidates name ps (cs, seen) = (cs', seen') \<Longrightarrow>
     cand_acc (cs', seen') \<and> set cs \<subseteq> set cs' \<and>
     cd_cidr ` set cs' = cd_cidr ` set cs \<union>
       {show_prefix (Masked p) |p. p \<in> set ps \<and> routable (pfx_addr p) \<and> pfx_bits p < 31} \<and>
     (\<forall>c \<in> set cs' - set cs. cd_source c = SourceInterface \<and> cd_iface c = name \<and>
       (\<exists>p \<in> set ps. routable (pfx_addr p) \<and> pfx_bits p < 31 \<and> cd_cidr c = show_prefix (Masked p)))"
proof (induction ps arbitrary: cs seen)
  case (Cons p ps)
  show ?case
  proof (cases "routable (pfx_addr p) \<and> pfx_bits p < 31 \<and> show_prefix (Masked p) \<notin> set seen")
    case True
    let ?c = "\<lparr>cd_iface = name, cd_cidr = show_prefix (Masked p), cd_source = SourceInterface\<rparr>"
    have acc: "cand_acc (cs @ [?c], show_prefix (Masked p) # seen)" using Cons.prems(1) True
      by (auto simp: cand_acc_def)
    have step: "iface_candidates name ps (cs @ [?c], show_prefix (Masked p) # seen) = (cs', seen')"
      using Cons.prems(2) True by (simp add: Let_def)
    show ?thesis using Cons.IH[OF acc step] True by auto
  next
    case False
    then have step: "iface_candidates name ps (cs, seen) = (cs', seen')" using Cons.prems(2)
      by (auto simp: Let_def split: if_splits)
    have "show_prefix (Masked p) \<in> cd_cidr ` set cs" if "routable (pfx_addr p)" "pfx_bits p < 31"
      using False that Cons.prems(1) by (auto simp: cand_acc_def)
    then show ?thesis using Cons.IH[OF Cons.prems(1) step] by auto
  qed
qed auto

definition iface_cidrs :: "iface list \<Rightarrow> string set" where
  "iface_cidrs ifs = {show_prefix (Masked p) |i p. i \<in> set ifs \<and> \<not> skipped (i_name i) \<and> p \<in> set (i_addrs i) \<and>
     routable (pfx_addr p) \<and> pfx_bits p < 31}"

definition own_cidrs :: "iface \<Rightarrow> string set" where
  "own_cidrs i = {show_prefix (Masked p) |p. \<not> skipped (i_name i) \<and> p \<in> set (i_addrs i) \<and>
     routable (pfx_addr p) \<and> pfx_bits p < 31}"

lemma iface_cidrs_Cons: "iface_cidrs (i # ifs) = own_cidrs i \<union> iface_cidrs ifs"
  unfolding iface_cidrs_def own_cidrs_def by auto

lemma iface_cidrs_Nil: "iface_cidrs [] = {}"
  by (simp add: iface_cidrs_def)

lemma ifaces_candidates_spec:
  "cand_acc acc \<Longrightarrow> ifaces_candidates ifs acc = acc' \<Longrightarrow>
     cand_acc acc' \<and> set (fst acc) \<subseteq> set (fst acc') \<and>
     cd_cidr ` set (fst acc') = cd_cidr ` set (fst acc) \<union> iface_cidrs ifs \<and>
     (\<forall>c \<in> set (fst acc') - set (fst acc). from_iface ifs c)"
proof (induction ifs arbitrary: acc)
  case Nil
  then show ?case by (simp add: iface_cidrs_Nil)
next
  case (Cons i ifs)
  define acc1 where "acc1 = (if skipped (i_name i) then acc else iface_candidates (i_name i) (i_addrs i) acc)"
  have one: "cand_acc acc1 \<and> set (fst acc) \<subseteq> set (fst acc1) \<and>
     cd_cidr ` set (fst acc1) = cd_cidr ` set (fst acc) \<union> own_cidrs i \<and>
     (\<forall>c \<in> set (fst acc1) - set (fst acc). from_iface (i # ifs) c)"
  proof (cases "skipped (i_name i)")
    case True
    then show ?thesis using Cons.prems(1) by (simp add: acc1_def own_cidrs_def)
  next
    case False
    obtain cs seen cs1 seen1 where ac: "acc = (cs, seen)" "acc1 = (cs1, seen1)" by (metis prod.exhaust)
    then have run: "iface_candidates (i_name i) (i_addrs i) (cs, seen) = (cs1, seen1)"
      using False by (simp add: acc1_def)
    have "cand_acc (cs, seen)" using Cons.prems(1) ac by simp
    note spec = iface_candidates_spec[OF this run]
    have "own_cidrs i = {show_prefix (Masked p) |p. p \<in> set (i_addrs i) \<and> routable (pfx_addr p) \<and> pfx_bits p < 31}"
      using False by (simp add: own_cidrs_def)
    moreover have "\<forall>c \<in> set cs1 - set cs. from_iface (i # ifs) c" using spec False
      by (simp add: from_iface_def)
    ultimately show ?thesis using spec unfolding ac fst_conv by simp
  qed
  have step: "ifaces_candidates ifs acc1 = acc'" using Cons.prems(2) by (simp add: acc1_def)
  have mono: "from_iface ifs c \<Longrightarrow> from_iface (i # ifs) c" for c by (auto simp: from_iface_def)
  have acc1: "cand_acc acc1" using one by simp
  note rest = Cons.IH[OF acc1 step]
  have "\<forall>c \<in> set (fst acc') - set (fst acc). from_iface (i # ifs) c"
  proof
    fix c assume "c \<in> set (fst acc') - set (fst acc)"
    then show "from_iface (i # ifs) c"
      using rest one mono[of c] by (cases "c \<in> set (fst acc1)") auto
  qed
  moreover have "set (fst acc) \<subseteq> set (fst acc')" using rest one by (meson order_trans)
  moreover have "cd_cidr ` set (fst acc') = cd_cidr ` set (fst acc) \<union> iface_cidrs (i # ifs)"
    using rest one by (simp add: iface_cidrs_Cons Un_assoc)
  ultimately show ?case using rest by simp
qed

lemma route_candidates_spec:
  "cand_acc (cs, seen) \<Longrightarrow> route_candidates ifaces rs (cs, seen) = (cs', seen') \<Longrightarrow>
     cand_acc (cs', seen') \<and> set cs \<subseteq> set cs' \<and>
     cd_cidr ` set cs' = cd_cidr ` set cs \<union>
       {show_prefix (Masked (PrefixFrom (ro_gateway r) 24)) |r. r \<in> set rs \<and> pfx_bits (ro_dest r) = 0 \<and>
          routable (ro_gateway r) \<and> \<not> onInterface (ro_gateway r) ifaces} \<and>
     (\<forall>c \<in> set cs' - set cs. from_route ifaces rs c)"
proof (induction rs arbitrary: cs seen)
  case (Cons r rs)
  let ?g = "show_prefix (Masked (PrefixFrom (ro_gateway r) 24))"
  let ?ok = "pfx_bits (ro_dest r) = 0 \<and> routable (ro_gateway r) \<and> \<not> onInterface (ro_gateway r) ifaces"
  have mono: "from_route ifaces rs c \<Longrightarrow> from_route ifaces (r # rs) c" for c by (auto simp: from_route_def)
  show ?case
  proof (cases "?ok \<and> ?g \<notin> set seen")
    case True
    let ?c = "\<lparr>cd_iface = ro_iface r, cd_cidr = ?g, cd_source = SourceGateway\<rparr>"
    have acc: "cand_acc (cs @ [?c], ?g # seen)" using Cons.prems(1) True by (auto simp: cand_acc_def)
    have step: "route_candidates ifaces rs (cs @ [?c], ?g # seen) = (cs', seen')"
      using Cons.prems(2) True routable_valid[of "ro_gateway r"] by (simp add: Let_def)
    have new: "from_route ifaces (r # rs) ?c" using True by (auto simp: from_route_def)
    show ?thesis using Cons.IH[OF acc step] True mono new by auto
  next
    case False
    then have step: "route_candidates ifaces rs (cs, seen) = (cs', seen')" using Cons.prems(2)
      by (auto simp: Let_def split: if_splits)
    have "?g \<in> cd_cidr ` set cs" if ?ok using False that Cons.prems(1) by (auto simp: cand_acc_def)
    then show ?thesis using Cons.IH[OF Cons.prems(1) step] mono by auto
  qed
qed auto

text \<open>The candidates are distinct networks.  Each of them is the network of a routable address of an
  interface that is not skipped, or the /24 around the gateway of a default route that is on no
  interface; and every such network is among the candidates.
\<close>

theorem candidates_exact:
  "distinct (map cd_cidr (Candidates ifaces routes)) \<and>
   set (Candidates ifaces routes) \<subseteq> {c. from_iface ifaces c \<or> from_route ifaces routes c} \<and>
   cd_cidr ` set (Candidates ifaces routes) =
     {show_prefix (Masked p) |i p. i \<in> set ifaces \<and> \<not> skipped (i_name i) \<and> p \<in> set (i_addrs i) \<and>
        routable (pfx_addr p) \<and> pfx_bits p < 31} \<union>
     {show_prefix (Masked (PrefixFrom (ro_gateway r) 24)) |r. r \<in> set routes \<and> pfx_bits (ro_dest r) = 0 \<and>
        routable (ro_gateway r) \<and> \<not> onInterface (ro_gateway r) ifaces}"
proof -
  obtain cs seen cs' seen' where ac: "ifaces_candidates ifaces ([], []) = (cs, seen)"
      "route_candidates ifaces routes (cs, seen) = (cs', seen')" by (metis prod.exhaust)
  have "cand_acc ([], [])" by (simp add: cand_acc_def)
  note one = ifaces_candidates_spec[OF this ac(1)]
  have "cand_acc (cs, seen)" using one by simp
  note two = route_candidates_spec[OF this ac(2)]
  have "Candidates ifaces routes = cs'" using ac by (simp add: Candidates_def)
  moreover have "distinct (map cd_cidr cs')" using two by (simp add: cand_acc_def)
  moreover have "from_iface ifaces c \<or> from_route ifaces routes c" if "c \<in> set cs'" for c
    using that one two by auto
  ultimately show ?thesis using one two by (auto simp: iface_cidrs_def)
qed

end
