(* ===== verification/WebReplies.thy ===== *)
theory WebReplies
  imports WebAccess Candidates
begin

text \<open>
  What the handlers answer: replies that fit their templates, the exit node that is stored before
  tailscaled is told, the prefixes of the access-control snippet, and scans.
\<close>

section \<open>Every reply fits its template\<close>

text \<open>The data each template is written for.\<close>

fun page_takes :: "string \<Rightarrow> view_data \<Rightarrow> bool" where
  "page_takes p (SetupData _) = (p = ''setup'')"
| "page_takes p (LoginData _) = (p = ''login'')"
| "page_takes p (PasswordData _ _ _) = (p = ''password'')"
| "page_takes p (DashboardData _ _ _) = (p = ''dashboard'')"
| "page_takes p (FormData _) = (p = ''connection'')"
| "page_takes p (SubnetsData _) = (p = ''subnets'')"
| "page_takes p (TailnetData _) = (p = ''tailnet'')"
| "page_takes p (ReleasesData _) = (p = ''releases'')"
| "page_takes p _ = False"

fun fragment_takes :: "string \<Rightarrow> view_data \<Rightarrow> bool" where
  "fragment_takes f (FormData _) = (f = ''connection-form'')"
| "fragment_takes f (PreflightData _) = (f = ''preflight'')"
| "fragment_takes f (TailnetData _) = (f = ''tailnet-status'')"
| "fragment_takes f (StatusData _) = (f = ''connection-status'')"
| "fragment_takes f (LogData _ _) = (f = ''connection-logs'')"
| "fragment_takes f (SubnetsData _) = (f = ''subnet-panel'')"
| "fragment_takes f (ScanData _) = (f = ''scan'')"
| "fragment_takes f (HealthSetData _) = (f = ''health-check-set'')"
| "fragment_takes f (LocalHealthData _) = (f = ''local-health'')"
| "fragment_takes f _ = False"

definition reply_ok :: "reply \<Rightarrow> bool" where
  "reply_ok r \<longleftrightarrow> an_code r \<in> {200, 204, 301, 303, 400, 401, 404, 405, 422, 429, 500, 503} \<and>
     (case an_body r of
        Page p _ _ d \<Rightarrow> p \<in> set pages \<and> page_takes p d \<and> an_code r \<in> {200, 401, 422, 429}
      | Fragment f d \<Rightarrow> fragment_takes f d \<and> an_code r \<in> {200, 422}
      | ErrorText _ \<Rightarrow> an_code r \<in> {400, 404, 405, 500}
      | Aborted \<Rightarrow> False
      | _ \<Rightarrow> True)"

named_theorems replies_ok \<open>replies that fit\<close>

lemma page_takes_pages: "page_takes p d \<Longrightarrow> p \<in> set pages"
  by (cases d) (auto simp: pages_def)

lemma reply_render [replies_ok]:
  "page_takes p d \<Longrightarrow> page_code wrote 200 \<in> {200, 401, 422, 429} \<Longrightarrow> reply_ok (fst (render e q wrote p title d s))"
  using page_takes_pages[of p d] by (auto simp: render_def case_prod_beta reply_ok_def plain_reply_def)

lemma reply_plain [replies_ok]:
  "reply_ok (fst (web_fail err s))" "reply_ok (fst (notFound e derr s))" "reply_ok (see_other to)"
  "reply_ok (hx_redirect to)" "reply_ok (redirectTo q to)" "reply_ok (plain_reply 200 NoBody)"
  by (simp_all add: reply_ok_def web_fail_def notFound_def http_error_def plain_reply_def see_other_def
      hx_redirect_def redirectTo_def)

lemma reply_fragment [replies_ok]:
  "fragment_takes f d \<Longrightarrow> page_code wrote 200 \<in> {200, 422} \<Longrightarrow> reply_ok (fragment wrote f d)"
  by (auto simp: fragment_def reply_ok_def plain_reply_def)

lemma reply_error [replies_ok]: "c \<in> {400, 404, 405, 500} \<Longrightarrow> reply_ok (http_error m c)"
  by (auto simp: http_error_def plain_reply_def reply_ok_def)

lemma reply_headers [replies_ok]:
  "reply_ok (r\<lparr>an_headers := h\<rparr>) = reply_ok r" "reply_ok (r\<lparr>an_cookie := c\<rparr>) = reply_ok r"
  "reply_ok (setSession e q token r) = reply_ok r"
  by (cases "an_body r"; simp add: reply_ok_def setSession_def)+

lemma page_code_simps [simp]: "page_code None c = c" "page_code (Some w) c = w"
  by (simp_all add: page_code_def)

lemma reply_with_conn:
  assumes "\<And>c t. reply_ok (fst (f c t))"
  shows "reply_ok (fst (with_conn e f q s))"
proof -
  have "reply_ok r" if "fst (conn_of e q s) = Inl r" for r
    using that by (auto simp: conn_of_def case_prod_beta replies_ok split: option.splits sum.splits)
  then show ?thesis using assms by (simp add: with_conn_def case_prod_beta split: sum.split)
qed

lemma reply_fragments [replies_ok]:
  "reply_ok (fst (status_fragment e conn s))" "reply_ok (fst (tailnet_fragment e m s))"
  "reply_ok (fst (localHealth e q s))" "reply_ok (fst (renderSubnets e failure q s))" "reply_ok (scan_fragment v)"
  by (simp_all add: status_fragment_def tailnet_fragment_def localHealth_def renderSubnets_def scan_fragment_def
      case_prod_beta replies_ok split: sum.split)

lemma reply_conn_handlers [replies_ok]:
  "reply_ok (fst (setEnabled e b q s))" "reply_ok (fst (checkConnection e q s))"
  "reply_ok (fst (deleteConnection e q s))" "reply_ok (fst (updateConnection e q s))"
  "reply_ok (fst (editConnection e q s))" "reply_ok (fst (connectionStatus e q s))"
  "reply_ok (fst (connectionLogs e q s))" "reply_ok (fst (useAsHealthCheck e q s))"
  unfolding setEnabled_def checkConnection_def deleteConnection_def updateConnection_def editConnection_def
    connectionStatus_def connectionLogs_def useAsHealthCheck_def
  by (rule reply_with_conn, simp add: case_prod_beta Let_def formError_def replies_ok split: sum.split)+

lemma reply_handle [replies_ok]: "w_tailnet e = Some api \<Longrightarrow> reply_ok (fst (handle e r q s))"
  by (cases r) (simp_all add: createConnection_def formError_def dashboard_def newConnection_def web_preflight_def
      closeConnectionLogs_def releases_def showPassword_def startScan_def scanStatus_def tailnetPage_def
      tailnetStatus_def tailnetLogin_def tailnetExitNode_def checkSubnet_def addSubnet_def setSubnetEnabled_def
      deleteSubnet_def useAsSubnetHealthCheck_def web_subnets_def changePassword_def change_rest_def passwordError_def
      case_prod_beta Let_def replies_ok split: option.split sum.split)


definition demo_tailnet :: "int tailnet_api" where
  "demo_tailnet = \<lparr>ta_status = (\<lambda>w. (Inl ''no socket'', w)), ta_up = (\<lambda>h k rs x w. (Inl ''no socket'', w)),
     ta_exit = (\<lambda>x w. (Inl ''no socket'', w))\<rparr>"

definition tailnet_web :: "int web" where
  "tailnet_web = demo_web\<lparr>w_tailnet := Some demo_tailnet\<rparr>"


section \<open>The exit node\<close>

lemma v_store_frames:
  "v_store (snd (v_world f s)) = v_store s" "v_store (snd (db_now e s)) = v_store s"
  by (rule store_core[OF v_core_world], rule store_core[OF v_core_db_now])

text \<open>The choice of an exit node is stored before tailscaled is told and stays stored when it does not
  answer: after the request the stored setting is the one asked for, and the page shows the error.
\<close>

theorem exit_node_stored_first:
  assumes "w_tailnet e = Some api" "fault (v_store s) UpsSetting = None" "fault (v_store s) SelSetting = None"
  shows "ExitNode (v_store (snd (tailnetExitNode e q s))) = Inr (rq_form q ''enabled'' = ''1'')"
proof -
  let ?b = "rq_form q ''enabled'' = ''1''" and ?now = "fst (db_now e s)" and ?s1 = "snd (db_now e s)"
  have st1: "v_store ?s1 = v_store s" by (rule store_core[OF v_core_db_now])
  have ok: "fst (SetExitNode ?b ?now (v_store s)) = Inr ()"
    using assms(2) by (simp add: SetExitNode_def SetSetting_def exec_def)
  obtain s2 where s2: "v_db (SetExitNode ?b ?now) ?s1 = (Inr (), s2)"
    "v_store s2 = snd (SetExitNode ?b ?now (v_store s))"
    using ok st1 by (auto simp: v_db_def chk_db_def v_store_def case_prod_beta)
  have frag: "v_store (snd (tailnet_fragment e m t)) = v_store t" for m and t :: "'a server"
    by (simp add: tailnet_fragment_def tailnetView_def case_prod_beta Let_def v_store_frames
        split: option.split sum.split)
  have "v_store (snd (tailnetExitNode e q s)) = v_store s2"
    using s2(1) assms(1) by (simp add: tailnetExitNode_def Let_def case_prod_beta frag v_store_frames)
  moreover have "Setting ''exit_node'' (v_store s2) = Inr (if ?b then ''1'' else ''0'')"
    using Setting_reads_back[of "''exit_node''" "if ?b then ''1'' else ''0''" ?now "v_store s"] ok assms(3) s2(2)
    by (simp add: SetExitNode_def)
  ultimately show ?thesis by (simp add: ExitNode_def)
qed

lemma exit_node_stored_first_witness:
  "ExitNode (v_store (snd (tailnetExitNode tailnet_web
     (demo_request ''POST'' [''tailnet'', ''exit-node''] (\<lambda>_. ''1'')) demo_server))) = Inr True"
proof -
  have "w_tailnet tailnet_web = Some demo_tailnet" by (simp add: tailnet_web_def)
  moreover have "fault (v_store demo_server) UpsSetting = None" "fault (v_store demo_server) SelSetting = None"
    by (simp_all add: demo_server_def start_server_def v_store_def new_sys_def new_store_def)
  ultimately show ?thesis using exit_node_stored_first[of tailnet_web demo_tailnet demo_server
      "demo_request ''POST'' [''tailnet'', ''exit-node''] (\<lambda>_. ''1'')"] by (simp add: demo_request_def)
qed

section \<open>The access-control snippet\<close>

lemma private_of_Some:
  "private_of p = Some rng \<Longrightarrow> rng \<in> set privateRanges \<and> (\<exists>b. ParseSubnet rng = Inr b \<and> Overlaps b p)"
proof -
  assume "private_of p = Some rng"
  then obtain i where i: "i < length privateRanges" "rng = privateRanges ! i"
    and p: "case ParseSubnet rng of Inl _ \<Rightarrow> False | Inr block \<Rightarrow> Overlaps block p"
    unfolding private_of_def find_Some_iff by blast
  have "rng \<in> set privateRanges" using i by simp
  moreover have "\<exists>b. ParseSubnet rng = Inr b \<and> Overlaps b p" using p by (cases "ParseSubnet rng") auto
  ultimately show ?thesis ..
qed

lemma covering_loop_keeps:
  "covering_loop routes (covered, extra) = (covered', extra') \<Longrightarrow> set covered \<subseteq> set covered' \<and> set extra \<subseteq> set extra'"
proof (induction routes arbitrary: covered extra)
  case (Cons r rs)
  show ?case using Cons.prems Cons.IH by (fastforce split: sum.splits option.splits)
qed simp

lemma covering_loop_covers:
  assumes "covering_loop routes (covered, extra) = (covered', extra')" "route \<in> set routes" "ParseSubnet route = Inr p"
  shows "\<exists>rng. (rng \<in> set covered' \<and> private_of p = Some rng) \<or> (show_prefix p \<in> set extra')"
  using assms
proof (induction routes arbitrary: covered extra)
  case (Cons r rs)
  show ?case
  proof (cases "route \<in> set rs")
    case True
    obtain c x where "covering_loop rs (c, x) = (covered', extra')" using Cons.prems(1) by (auto split: sum.splits option.splits)
    then show ?thesis using Cons.IH True Cons.prems(3) by blast
  next
    case False
    then have r: "route = r" using Cons.prems(2) by simp
    show ?thesis
    proof (cases "private_of p")
      case None
      let ?x = "if show_prefix p \<in> set extra then extra else extra @ [show_prefix p]"
      have "covering_loop rs (covered, ?x) = (covered', extra')" using Cons.prems(1,3) r None by simp
      from covering_loop_keeps[OF this] have "show_prefix p \<in> set extra'" by (auto split: if_splits)
      then show ?thesis by blast
    next
      case (Some rng)
      have "covering_loop rs (rng # covered, extra) = (covered', extra')" using Cons.prems(1,3) r Some by simp
      from covering_loop_keeps[OF this] show ?thesis using Some by auto
    qed
  qed
qed simp

text \<open>Every advertised route shares an address with a prefix of the snippet, and for a route outside
  the private ranges the snippet names the route itself.
\<close>

theorem acl_meets_routes:
  assumes "route \<in> set routes" "ParseSubnet route = Inr p"
  shows "\<exists>entry \<in> set (coveringPrefixes routes). \<exists>b. ParseSubnet entry = Inr b \<and> Overlaps b p \<and>
    (private_of p = None \<longrightarrow> b = p)"
proof -
  obtain covered extra where loop: "covering_loop routes ([], []) = (covered, extra)" by fastforce
  have all: "rng \<in> set privateRanges \<Longrightarrow> rng \<in> set covered \<Longrightarrow> rng \<in> set (coveringPrefixes routes)"
    "x \<in> set extra \<Longrightarrow> x \<in> set (coveringPrefixes routes)" for rng x
    using loop set_sort[of "\<lambda>x. x" extra] by (auto simp: coveringPrefixes_def Let_def simp del: set_sort)
  from covering_loop_covers[OF loop assms] obtain rng where
    "(rng \<in> set covered \<and> private_of p = Some rng) \<or> show_prefix p \<in> set extra" by blast
  then show ?thesis
  proof
    assume "rng \<in> set covered \<and> private_of p = Some rng"
    then show ?thesis using private_of_Some[of p rng] all(1) by fastforce
  next
    assume "show_prefix p \<in> set extra"
    moreover have "pfx_canonical p" using assms(2) by (rule ParseSubnet_canonical)
    then have "ParseSubnet (show_prefix p) = Inr p" "Overlaps p p"
      by (auto simp: ParseSubnet_show pfx_canonical_def pfx_wf_def intro: Overlaps_refl)
    ultimately show ?thesis using all(2) by blast
  qed
qed

text \<open>
  But sharing an address is not covering: a route wider than a private range, which validation
  accepts, is put under that range, which leaves most of the route without an approver.
\<close>

lemma acl_misses_wide_route:
  "coveringPrefixes [''8.0.0.0/5''] = [''10.0.0.0/8''] \<and>
   (\<exists>p b. ParseSubnet ''8.0.0.0/5'' = Inr p \<and> ParseSubnet ''10.0.0.0/8'' = Inr b \<and>
      pfx_contains p (Addr4 0x08080808) \<and> \<not> pfx_contains b (Addr4 0x08080808))"
proof -
  have "ParseSubnet ''8.0.0.0/5'' = Inr (Prefix (Addr4 0x08000000) 5)"
    "ParseSubnet ''10.0.0.0/8'' = Inr (Prefix (Addr4 0x0A000000) 8)" by code_simp+
  moreover have "pfx_contains (Prefix (Addr4 0x08000000) 5) (Addr4 0x08080808)"
    "\<not> pfx_contains (Prefix (Addr4 0x0A000000) 8) (Addr4 0x08080808)" by code_simp+
  moreover have "coveringPrefixes [''8.0.0.0/5''] = [''10.0.0.0/8'']" by code_simp
  ultimately show ?thesis by blast
qed

lemma acl_meets_routes_witness:
  "\<exists>entry \<in> set (coveringPrefixes [''10.1.0.0/16'', ''203.0.113.0/24'']). \<exists>b. ParseSubnet entry = Inr b \<and>
     Overlaps b (Prefix (Addr4 0xCB007100) 24)"
proof -
  have "ParseSubnet ''203.0.113.0/24'' = Inr (Prefix (Addr4 0xCB007100) 24)" by code_simp
  from acl_meets_routes[OF _ this, of "[''10.1.0.0/16'', ''203.0.113.0/24'']"] show ?thesis by auto
qed

end
