(* ===== verification/NetipOrder.thy ===== *)
theory NetipOrder
  imports Netip
begin

text \<open>
  \<open>netip.Addr.Compare\<close> is a linear order: \<open>Less\<close> of \<open>Netip\<close> as the order of the type, so that the
  library's sorting applies to addresses.
\<close>

lemma str_less_irrefl: "\<not> str_less s s"
  by (induction s) auto

lemma str_less_trans: "str_less s t \<Longrightarrow> str_less t u \<Longrightarrow> str_less s u"
proof (induction s t arbitrary: u rule: str_less.induct)
  case (3 c s d t)
  then show ?case by (cases u) auto
next
  case (2 d t)
  then show ?case by (cases u) auto
qed simp

lemma str_less_total: "s = t \<or> str_less s t \<or> str_less t s"
proof (induction s t rule: str_less.induct)
  case (3 c s d t)
  have "c = d \<or> (of_char c :: nat) \<noteq> of_char d" by simp
  with 3 show ?case by auto
next
  case (1 s)
  then show ?case by (cases s) auto
qed simp

lemma addr_less_irrefl: "\<not> addr_less a a"
  by (cases a) (simp_all add: str_less_irrefl)

lemma addr_less_trans: "addr_less a b \<Longrightarrow> addr_less b c \<Longrightarrow> addr_less a c"
  by (cases a; cases b; cases c) (auto intro: str_less_trans)

lemma addr_less_total: "a = b \<or> addr_less a b \<or> addr_less b a"
  using str_less_total by (cases a; cases b) auto

instantiation addr :: linorder
begin

definition less_addr :: "addr \<Rightarrow> addr \<Rightarrow> bool" where
  "less_addr = addr_less"

definition less_eq_addr :: "addr \<Rightarrow> addr \<Rightarrow> bool" where
  "less_eq_addr a b \<longleftrightarrow> a = b \<or> addr_less a b"

instance
proof
  fix a b c :: addr
  show "a < b \<longleftrightarrow> a \<le> b \<and> \<not> b \<le> a"
    using addr_less_irrefl addr_less_trans unfolding less_addr_def less_eq_addr_def by blast
  show "a \<le> a" by (simp add: less_eq_addr_def)
  show "a \<le> b \<Longrightarrow> b \<le> c \<Longrightarrow> a \<le> c" using addr_less_trans unfolding less_eq_addr_def by blast
  show "a \<le> b \<Longrightarrow> b \<le> a \<Longrightarrow> a = b"
    using addr_less_irrefl addr_less_trans unfolding less_eq_addr_def by blast
  show "a \<le> b \<or> b \<le> a" using addr_less_total unfolding less_eq_addr_def by blast
qed

end

end
