(* ===== verification/WebScan.thy ===== *)
theory WebScan
  imports WebReplies NetipOrder
begin

text \<open>
  A scan from the sweep to the page: the results that the workers of a sweep report are the hosts that
  the last view of the scan lists.
\<close>

definition result_event :: "string \<Rightarrow> sweep_result \<Rightarrow> web_cmd" where
  "result_event i r = EvScanResult i (sr_addr r, sr_rtt r, sr_name r)"

definition result_triple :: "sweep_result \<Rightarrow> addr \<times> duration \<times> string" where
  "result_triple r = (sr_addr r, sr_rtt r, sr_name r)"

lemma scan_events:
  "v_jobs s i = Some job \<Longrightarrow>
     v_jobs (run_cmds (web_step e) (map (result_event i) rs @ [EvScanEnd i err]) s) i =
       Some (job\<lparr>sc_results := sc_results job @ map result_triple rs, sc_err := err, sc_done := True\<rparr>)"
proof (induction rs arbitrary: s job)
  case Nil
  then show ?case by (simp add: scan_finished_def)
next
  case (Cons r rs)
  let ?job = "job\<lparr>sc_results := sc_results job @ [result_triple r]\<rparr>"
  have "v_jobs (web_step e (result_event i r) s) i = Some ?job"
    using Cons.prems by (simp add: result_event_def result_triple_def scan_result_def)
  from Cons.IH[OF this] show ?case by simp
qed

section \<open>Sorting by address\<close>

text \<open>The insertion is the library's, by the order on addresses.\<close>

lemma insert_result_insort: "insert_result x ys = insort_key fst x ys"
  by (induction ys) (auto simp: less_addr_def[symmetric])

lemma insert_results_sort: "foldr insert_result xs [] = sort_key fst xs"
  by (induction xs) (simp_all add: insert_result_insort)

lemma sorted_results:
  assumes "mset xs = mset ys" "sorted_wrt addr_less (map fst ys)"
  shows "foldr insert_result xs [] = ys"
proof -
  have "distinct (map fst ys)" "sorted (map fst ys)"
    using assms(2) by (simp_all add: less_addr_def[symmetric] strict_sorted_iff)
  moreover have "set xs = set ys" using assms(1) by (metis set_mset_mset)
  ultimately show ?thesis
    using assms(1) unfolding insert_results_sort by (intro sort_key_inj_key_eq) (auto simp: distinct_map)
qed

section \<open>The last view\<close>

lemma found_addresses:
  "map fst (map result_triple (List.map_filter (sweep_found ping lookup) hosts)) = filter (\<lambda>a. ping a \<noteq> None) hosts"
  using found_hosts[of ping lookup hosts] by (simp add: result_triple_def o_def)

text \<open>When the sweep behind a scan is over and was not cancelled, the scan's view is no longer running
  and lists exactly the hosts of the subnet that answered, each once and in the order of their
  addresses, in whatever order the workers reported them.
\<close>

lemma scan_lists_answers:
  assumes "sweep_start workers p = Inr s0" "sweep_run (sweep_found ping lookup) s0 n t" "sweep_over t" "\<not> sw_done t"
    and "v_jobs v i = Some job" "sc_results job = []"
  shows "\<exists>job'. v_jobs (run_cmds (web_step e) (map (result_event i) (sw_out t) @ [EvScanEnd i None]) v) i = Some job' \<and>
    \<not> sw_running (job_view e job') \<and>
    map sx_addr (sw_hosts (job_view e job')) = map show_addr (filter (\<lambda>a. ping a \<noteq> None) (sw_todo s0))"
proof -
  let ?f = "sweep_found ping lookup"
  let ?job = "job\<lparr>sc_results := sc_results job @ map result_triple (sw_out t), sc_err := None, sc_done := True\<rparr>"
  let ?ys = "map result_triple (List.map_filter ?f (sw_todo s0))"
  have hosts: "Hosts p = Inr (sw_todo s0)" using assms(1) by (auto simp: sweep_start_def bindr_Inr_iff)
  have "pfx_valid p" "Is4 (pfx_addr p)" "22 \<le> pfx_bits p" using hosts hosts_refused[of p] by auto
  from hosts_facts[OF this] have order: "sorted_wrt addr_less (sw_todo s0)" using hosts by auto
  note keys = found_addresses[of ping lookup "sw_todo s0"]
  have "mset (sw_out t) = mset (List.map_filter ?f (sw_todo s0))" using sweep_facts[OF assms(1,2)] assms(3,4) by blast
  then have perm: "mset (map result_triple (sw_out t)) = mset ?ys" by simp
  have "sorted_wrt addr_less (map fst ?ys)" unfolding keys using order by (rule sorted_wrt_filter)
  then have "foldr insert_result (map result_triple (sw_out t)) [] = ?ys" using sorted_results[OF perm] by blast
  then have "map sx_addr (sw_hosts (job_view e ?job)) = map show_addr (map fst ?ys)"
    using assms(6) by (simp add: job_view_def case_prod_beta)
  then have "map sx_addr (sw_hosts (job_view e ?job)) = map show_addr (filter (\<lambda>a. ping a \<noteq> None) (sw_todo s0))"
    unfolding keys .
  moreover have "\<not> sw_running (job_view e ?job)" by (simp add: job_view_def)
  ultimately show ?thesis using scan_events[OF assms(5), of e "sw_out t" None] by blast
qed

lemma scan_lists_answers_witness:
  "\<exists>job'. v_jobs (run_cmds (web_step demo_web) (map (result_event ''ab'') [demo_result] @ [EvScanEnd ''ab'' None])
       (demo_server\<lparr>v_jobs := [''ab'' \<mapsto> \<lparr>sc_id = ''ab'', sc_prefix = Prefix demo_host 32, sc_iface = [], sc_conn = 0,
          sc_subnet = 1, sc_started = 0, sc_results = [], sc_done = False, sc_err = None\<rparr>]\<rparr>)) ''ab'' = Some job' \<and>
     map sx_addr (sw_hosts (job_view demo_web job')) = [''10.0.0.1'']"
proof -
  have "map show_addr (filter (\<lambda>a. Some 7 \<noteq> None) (sw_todo (demo_sweep [demo_host] Waiting [] False))) = [''10.0.0.1'']"
    by code_simp
  then show ?thesis
    using scan_lists_answers[OF demo_sweep_start demo_sweep_run demo_sweep_over, of
        "demo_server\<lparr>v_jobs := [''ab'' \<mapsto> \<lparr>sc_id = ''ab'', sc_prefix = Prefix demo_host 32, sc_iface = [], sc_conn = 0,
          sc_subnet = 1, sc_started = 0, sc_results = [], sc_done = False, sc_err = None\<rparr>]\<rparr>" "''ab''" _ demo_web]
    by (auto simp: demo_sweep_def)
qed

end
