(* ===== verification/Icmp.thy ===== *)
theory Icmp
  imports Sweep
begin

text \<open>
  Raw ICMP sockets: the pinger of \<open>internal/discover/ping.go\<close>, the hop probe of \<open>probe.go\<close>, the pinger of
  the health checks (\<open>internal/health/ping.go\<close>) and the sweep that \<open>scan.go\<close> sets up.  The socket, the
  context, the clock and the packages that build and take apart ICMP messages are arguments; a loop
  that reads until something arrives is a partial function, which returns when reads end.
\<close>

section \<open>Sockets\<close>

text \<open>\<open>NetPanic\<close> is a panic of the source, which ends the process.\<close>

datatype net_err = NetErr string | NetTimeout string | NetPanic string

datatype icmp_message =
    TimeExceeded string
  | EchoReply int
  | EchoRequest int
  | OtherMessage

record 'w icmp =
  ic_listen :: "string \<Rightarrow> 'w \<Rightarrow> (net_err + unit) \<times> 'w"
  ic_close :: "'w \<Rightarrow> 'w"
  ic_ttl :: "nat \<Rightarrow> 'w \<Rightarrow> (net_err + unit) \<times> 'w"
  ic_deadline :: "time \<Rightarrow> 'w \<Rightarrow> (net_err + unit) \<times> 'w"
  ic_write :: "string \<Rightarrow> addr \<Rightarrow> 'w \<Rightarrow> (net_err + unit) \<times> 'w"
  ic_read :: "'w \<Rightarrow> (net_err + string \<times> string) \<times> 'w"
  ic_marshal :: "int \<Rightarrow> int \<Rightarrow> string \<Rightarrow> net_err + string"
  ic_parse :: "string \<Rightarrow> icmp_message option"
  ic_rand :: "nat \<Rightarrow> 'w \<Rightarrow> (string + string) \<times> 'w"
  ic_now :: "'w \<Rightarrow> time \<times> 'w"
  ic_ctxErr :: "'w \<Rightarrow> net_err option \<times> 'w"
  ic_ctxEnd :: "time option"
  ic_lookup :: "addr \<Rightarrow> 'w \<Rightarrow> (string + string list) \<times> 'w"

type_synonym ('w, 'a) net_act = "'w \<Rightarrow> (net_err + 'a) \<times> 'w"

definition byte_at :: "string \<Rightarrow> nat \<Rightarrow> nat" where
  "byte_at data i = of_char (data ! i)"

definition big_endian16 :: "string \<Rightarrow> nat \<Rightarrow> int" where
  "big_endian16 data i = int (byte_at data i * 256 + byte_at data (i + 1))"

definition randomBytes :: "'w icmp \<Rightarrow> nat \<Rightarrow> ('w, string) net_act" where
  "randomBytes e n w =
     (case ic_rand e n w of
        (Inl err, w1) \<Rightarrow> (Inl (NetPanic (''read random bytes: '' @ err)), w1)
      | (Inr raw, w1) \<Rightarrow> (Inr raw, w1))"

text \<open>An echo request with a random identifier.\<close>

definition echo_request :: "'w icmp \<Rightarrow> int \<Rightarrow> string \<Rightarrow> ('w, int \<times> string) net_act" where
  "echo_request e seq data =
     sbind (randomBytes e 2) (\<lambda>raw.
     let ident = big_endian16 raw 0 in
     sbind (slift (ic_marshal e ident seq data)) (\<lambda>request.
     slift (Inr (ident, request))))"

text \<open>The earlier of the timeout and the end of the context.\<close>

definition set_deadline :: "'w icmp \<Rightarrow> duration \<Rightarrow> ('w, unit) net_act" where
  "set_deadline e timeout w =
     (case ic_now e w of (now, w1) \<Rightarrow>
        (let deadline = now + timeout in
         ic_deadline e (case ic_ctxEnd e of
             Some ctxDeadline \<Rightarrow> if ctxDeadline < deadline then ctxDeadline else deadline
           | None \<Rightarrow> deadline) w1))"

section \<open>Ping\<close>

definition defaultPingTimeout :: duration where "defaultPingTimeout = Second"

definition ping_timeout :: "duration \<Rightarrow> duration" where
  "ping_timeout timeout = (if timeout \<le> 0 then defaultPingTimeout else timeout)"

text \<open>\<open>Ping\<close> up to the request: the identifier it waits for and the time it was sent.\<close>

definition ping_send :: "'w icmp \<Rightarrow> duration \<Rightarrow> addr \<Rightarrow> ('w, int \<times> time) net_act" where
  "ping_send e timeout a =
     sbind (set_deadline e (ping_timeout timeout)) (\<lambda>_.
     sbind (echo_request e 1 ''tsv-vpn'') (\<lambda>(ident, request).
     sbind (\<lambda>w. case ic_now e w of (now, w1) \<Rightarrow> (Inr now, w1)) (\<lambda>sentAt.
     sbind (ic_write e request a) (\<lambda>_. slift (Inr (ident, sentAt))))))"

partial_function (option) ping_wait ::
  "'w icmp \<Rightarrow> addr \<Rightarrow> int \<Rightarrow> time \<Rightarrow> 'w \<Rightarrow> ((net_err + duration) \<times> 'w) option" where
  "ping_wait e a ident sentAt w =
     (case ic_read e w of
        (Inl err, w1) \<Rightarrow> Some (Inl err, w1)
      | (Inr (packet, peer), w1) \<Rightarrow>
          if peer \<noteq> show_addr a then ping_wait e a ident sentAt w1
          else (case ic_parse e packet of
              None \<Rightarrow> ping_wait e a ident sentAt w1
            | Some message \<Rightarrow>
                if message \<noteq> EchoReply ident then ping_wait e a ident sentAt w1
                else (case ic_now e w1 of (now, w2) \<Rightarrow> Some (Inr (time_Sub now sentAt), w2))))"

definition ping_source :: "addr \<Rightarrow> string" where
  "ping_source source = (if addr_valid source then show_addr source else ''0.0.0.0'')"

definition Ping :: "'w icmp \<Rightarrow> addr \<Rightarrow> duration \<Rightarrow> addr \<Rightarrow> 'w \<Rightarrow> ((net_err + duration) \<times> 'w) option" where
  "Ping e source timeout a w =
     (case ic_listen e (ping_source source) w of
        (Inl err, w1) \<Rightarrow> Some (Inl err, w1)
      | (Inr _, w1) \<Rightarrow> map_option (apsnd (ic_close e))
          (case ping_send e timeout a w1 of
             (Inl err, w2) \<Rightarrow> Some (Inl err, w2)
           | (Inr (ident, sentAt), w2) \<Rightarrow> ping_wait e a ident sentAt w2))"

definition ReverseName :: "'w icmp \<Rightarrow> addr \<Rightarrow> 'w \<Rightarrow> string \<times> 'w" where
  "ReverseName e a w =
     (case ic_lookup e a w of
        (Inr (name # _), w1) \<Rightarrow> (name, w1)
      | (_, w1) \<Rightarrow> ([], w1))"

text \<open>\<open>InterfacePinger.Ping\<close>; \<open>addrs\<close> are the addresses of the interface.\<close>

definition InterfacePinger_Ping ::
  "'w icmp \<Rightarrow> (string \<Rightarrow> string + (addr \<times> int) option list) \<Rightarrow> duration \<Rightarrow> addr \<Rightarrow> string \<Rightarrow> 'w \<Rightarrow>
   ((net_err + duration) \<times> 'w) option" where
  "InterfacePinger_Ping e addrs timeout a iface w =
     (if iface \<noteq> [] then
        (case InterfaceAddr iface (addrs iface) of
           Inl err \<Rightarrow> Some (Inl (NetErr err), w)
         | Inr bound \<Rightarrow> Ping e bound timeout a w)
      else Ping e AddrZero timeout a w)"

section \<open>Sweeping\<close>

text \<open>\<open>Scan.Sweep\<close> up to its workers, and what a worker does with one host.\<close>

definition Scan_Sweep ::
  "(string \<Rightarrow> string + (addr \<times> int) option list) \<Rightarrow> int \<Rightarrow> prefix \<Rightarrow> string \<Rightarrow> string + addr \<times> sweep" where
  "Scan_Sweep addrs workers p iface =
     bindr (if iface \<noteq> [] then InterfaceAddr iface (addrs iface) else Inr AddrZero) (\<lambda>source.
     bindr (sweep_start workers p) (\<lambda>s. Inr (source, s)))"

definition visit_host :: "'w icmp \<Rightarrow> addr \<Rightarrow> duration \<Rightarrow> addr \<Rightarrow> 'w \<Rightarrow> (sweep_result option \<times> 'w) option" where
  "visit_host e source timeout a w =
     (case Ping e source timeout a w of
        None \<Rightarrow> None
      | Some (Inl _, w1) \<Rightarrow> Some (None, w1)
      | Some (Inr rtt, w1) \<Rightarrow> (case ReverseName e a w1 of (name, w2) \<Rightarrow>
          Some (Some \<lparr>sr_addr = a, sr_rtt = rtt, sr_name = name\<rparr>, w2)))"

section \<open>Hops\<close>

text \<open>The reads \<open>data[0]\<close>, \<open>data[headerLen]\<close> and \<open>data[headerLen+4:headerLen+6]\<close> are in range
  where they are made.\<close>

definition quotesEchoID :: "string \<Rightarrow> int \<Rightarrow> bool" where
  "quotesEchoID data ident =
     (if length data < 20 then False
      else (let headerLen = byte_at data 0 mod 16 * 4 in
        if length data < headerLen + 8 \<or> byte_at data headerLen \<noteq> 8 then False
        else big_endian16 data (headerLen + 4) = ident))"

text \<open>\<open>netip.AddrFromSlice(net.ParseIP(peer).To4())\<close>.\<close>

definition peer_addr :: "string \<Rightarrow> addr option" where
  "peer_addr peer =
     (case ParseAddr peer of
        Some a \<Rightarrow> if addr_zone a = [] \<and> Is4 (Unmap a) then Some (Unmap a) else None
      | None \<Rightarrow> None)"

definition probe_send :: "'w icmp \<Rightarrow> addr \<Rightarrow> nat \<Rightarrow> duration \<Rightarrow> ('w, int) net_act" where
  "probe_send e target ttl timeout =
     sbind (ic_ttl e ttl) (\<lambda>_.
     sbind (echo_request e (int ttl) ''tsv-vpn probe'') (\<lambda>(ident, request).
     sbind (set_deadline e timeout) (\<lambda>_.
     sbind (ic_write e request target) (\<lambda>_. slift (Inr ident)))))"

text \<open>The read loop of \<open>probeHop\<close>; the hop is the zero address when there is none.\<close>

partial_function (option) hop_wait ::
  "'w icmp \<Rightarrow> int \<Rightarrow> 'w \<Rightarrow> ((net_err + addr \<times> bool) \<times> 'w) option" where
  "hop_wait e ident w =
     (case ic_read e w of
        (Inl err, w1) \<Rightarrow>
          Some (case err of NetTimeout _ \<Rightarrow> Inr (AddrZero, False) | _ \<Rightarrow> Inl err, w1)
      | (Inr (packet, peer), w1) \<Rightarrow>
          (case ic_parse e packet of
             None \<Rightarrow> hop_wait e ident w1
           | Some message \<Rightarrow>
              (case message of
                 TimeExceeded data \<Rightarrow>
                   if \<not> quotesEchoID data ident then hop_wait e ident w1
                   else (case peer_addr peer of
                       None \<Rightarrow> hop_wait e ident w1
                     | Some a \<Rightarrow> Some (Inr (a, False), w1))
               | EchoReply i \<Rightarrow>
                   if i = ident then Some (Inr (AddrZero, True), w1) else hop_wait e ident w1
               | EchoRequest _ \<Rightarrow> hop_wait e ident w1
               | OtherMessage \<Rightarrow> hop_wait e ident w1)))"

definition probeHop :: "'w icmp \<Rightarrow> addr \<Rightarrow> nat \<Rightarrow> duration \<Rightarrow> 'w \<Rightarrow> ((net_err + addr \<times> bool) \<times> 'w) option" where
  "probeHop e target ttl timeout w =
     (case probe_send e target ttl timeout w of
        (Inl err, w1) \<Rightarrow> Some (Inl err, w1)
      | (Inr ident, w1) \<Rightarrow> hop_wait e ident w1)"

fun hops_loop ::
  "'w icmp \<Rightarrow> addr \<Rightarrow> duration \<Rightarrow> nat list \<Rightarrow> addr list \<Rightarrow> 'w \<Rightarrow> ((addr list \<times> net_err option) \<times> 'w) option" where
  "hops_loop e target timeout [] hops w = Some ((hops, None), w)"
| "hops_loop e target timeout (ttl # ttls) hops w =
     (case ic_ctxErr e w of
        (Some err, w1) \<Rightarrow> Some ((hops, Some err), w1)
      | (None, w1) \<Rightarrow> (case probeHop e target ttl timeout w1 of
          None \<Rightarrow> None
        | Some (Inl err, w2) \<Rightarrow> Some ((hops, Some err), w2)
        | Some (Inr (hop, done), w2) \<Rightarrow>
            (let hops = (if addr_valid hop then hops @ [hop] else hops)
             in if done then Some ((hops, None), w2) else hops_loop e target timeout ttls hops w2)))"

definition max_hops :: "int \<Rightarrow> int" where
  "max_hops maxHops = (if maxHops \<le> 0 then 4 else maxHops)"

definition Hops :: "'w icmp \<Rightarrow> addr \<Rightarrow> int \<Rightarrow> duration \<Rightarrow> 'w \<Rightarrow> ((addr list \<times> net_err option) \<times> 'w) option" where
  "Hops e target maxHops timeout w =
     (let target = (if addr_valid target then target else Addr4 0x01010101);
          timeout = (if timeout \<le> 0 then 500 * Millisecond else timeout)
      in case ic_listen e ''0.0.0.0'' w of
           (Inl err, w1) \<Rightarrow> Some (([], Some err), w1)
         | (Inr _, w1) \<Rightarrow> map_option (apsnd (ic_close e))
             (hops_loop e target timeout [1..<nat (max_hops maxHops) + 1] [] w1))"

section \<open>What a ping and a probe hear\<close>

text \<open>
  \<open>reads e w packets err w'\<close>: from \<open>w\<close> on the socket delivers the packets and then fails, as it does
  when its deadline has passed.
\<close>

inductive reads :: "'w icmp \<Rightarrow> 'w \<Rightarrow> (string \<times> string) list \<Rightarrow> net_err \<Rightarrow> 'w \<Rightarrow> bool" for e where
  reads_fail: "ic_read e w = (Inl err, w') \<Longrightarrow> reads e w [] err w'"
| reads_more: "ic_read e w = (Inr p, w') \<Longrightarrow> reads e w' ps err w'' \<Longrightarrow> reads e w (p # ps) err w''"

definition ping_answer :: "'w icmp \<Rightarrow> addr \<Rightarrow> int \<Rightarrow> string \<times> string \<Rightarrow> bool" where
  "ping_answer e a ident p \<longleftrightarrow> snd p = show_addr a \<and> ic_parse e (fst p) = Some (EchoReply ident)"

lemma ping_wait_step:
  "ic_read e w = (Inr p, w') \<Longrightarrow> ping_wait e a ident sentAt w =
     (if ping_answer e a ident p
      then (case ic_now e w' of (now, w2) \<Rightarrow> Some (Inr (time_Sub now sentAt), w2))
      else ping_wait e a ident sentAt w')"
  by (subst ping_wait.simps) (auto simp: ping_answer_def split: prod.split option.split)

lemma ping_wait_reads:
  assumes "reads e w ps err w'"
  shows "if \<exists>p \<in> set ps. ping_answer e a ident p
     then \<exists>rtt w2. ping_wait e a ident sentAt w = Some (Inr rtt, w2)
     else ping_wait e a ident sentAt w = Some (Inl err, w')"
  using assms
proof (induction rule: reads.induct)
  case (reads_fail w err w')
  then show ?case by (simp add: ping_wait.simps)
next
  case (reads_more w p w' ps err w'')
  then show ?case by (auto simp: ping_wait_step split: prod.split)
qed

lemma hop_wait_returns:
  assumes "reads e w ps err w'"
  shows "\<exists>r w2. hop_wait e ident w = Some (r, w2) \<and> (\<forall>hop reached. r = Inr (hop, reached) \<longrightarrow> hop = AddrZero \<or> Is4 hop)"
  using assms
proof (induction rule: reads.induct)
  case (reads_fail w err w')
  then show ?case by (subst hop_wait.simps) (simp split: net_err.split)
next
  case (reads_more w p w' ps err w'')
  then obtain r w2 where ih: "hop_wait e ident w' = Some (r, w2)"
    "\<forall>hop reached. r = Inr (hop, reached) \<longrightarrow> hop = AddrZero \<or> Is4 hop" by blast
  have four: "peer_addr peer = Some b \<Longrightarrow> Is4 b" for peer b
    by (auto simp: peer_addr_def split: option.splits if_splits)
  show ?case
    by (subst hop_wait.simps) (use reads_more.hyps(1) ih four in
      \<open>cases p, auto split: option.split icmp_message.split\<close>)
qed

lemma hops_loop_returns:
  assumes "\<forall>w. \<exists>ps err w'. reads e w ps err w'" "\<forall>h \<in> set hops. Is4 h"
  shows "\<exists>hops' err w'. hops_loop e target timeout ttls hops w = Some ((hops', err), w')
    \<and> length hops' \<le> length hops + length ttls \<and> (\<forall>h \<in> set hops'. Is4 h)"
  using assms(2)
proof (induction ttls arbitrary: hops w)
  case (Cons ttl ttls)
  have waits: "\<exists>r w2. hop_wait e ident v = Some (r, w2) \<and> (\<forall>hop reached. r = Inr (hop, reached) \<longrightarrow> hop = AddrZero \<or> Is4 hop)"
    for ident v
  proof -
    obtain ps err w' where "reads e v ps err w'" using assms(1) by blast
    then show ?thesis by (rule hop_wait_returns)
  qed
  obtain cerr w1 where c: "ic_ctxErr e w = (cerr, w1)" by fastforce
  show ?case
  proof (cases cerr)
    case None
    have "\<exists>r w2. probeHop e target ttl timeout w1 = Some (r, w2)
        \<and> (\<forall>hop reached. r = Inr (hop, reached) \<longrightarrow> hop = AddrZero \<or> Is4 hop)"
      unfolding probeHop_def using waits by (auto split: sum.split prod.split)
    then obtain r w2 where p: "probeHop e target ttl timeout w1 = Some (r, w2)"
      "\<forall>hop reached. r = Inr (hop, reached) \<longrightarrow> hop = AddrZero \<or> Is4 hop" by blast
    show ?thesis
    proof (cases r)
      case (Inl err)
      then show ?thesis using c None p Cons.prems by simp
    next
      case (Inr hd)
      obtain hop reached where hd: "hd = (hop, reached)" by fastforce
      let ?hops = "if addr_valid hop then hops @ [hop] else hops"
      have ok: "\<forall>h \<in> set ?hops. Is4 h" using p(2) Inr hd Cons.prems by (auto simp: addr_valid_def)
      have "length ?hops \<le> length hops + 1" by simp
      then show ?thesis using Cons.IH[OF ok, of w2] c None p(1) Inr hd ok
        by (cases reached) fastforce+
    qed
  qed (use c Cons.prems in simp)
qed simp

text \<open>C18: A ping that was sent returns once its socket's reads end: with a round-trip time if one of the
  packets is an echo reply with its identifier from the address it was sent to, and with the socket's
  error, its socket closed, otherwise.\<close>

theorem ping_hears_reply:
  assumes "ic_listen e (ping_source source) w = (Inr (), w1)"
    and "ping_send e timeout a w1 = (Inr (ident, sentAt), w2)"
    and "reads e w2 packets err w3"
  shows "if \<exists>packet. (packet, show_addr a) \<in> set packets \<and> ic_parse e packet = Some (EchoReply ident)
    then \<exists>rtt w'. Ping e source timeout a w = Some (Inr rtt, ic_close e w')
    else Ping e source timeout a w = Some (Inl err, ic_close e w3)"
proof -
  have "(\<exists>p \<in> set packets. ping_answer e a ident p) \<longleftrightarrow>
      (\<exists>packet. (packet, show_addr a) \<in> set packets \<and> ic_parse e packet = Some (EchoReply ident))"
    by (force simp: ping_answer_def)
  then show ?thesis using assms(1,2) ping_wait_reads[OF assms(3), of a ident sentAt]
    by (auto simp: Ping_def split: if_splits)
qed

text \<open>A socket whose world is the packets that are still to come; \<open>quoted\<close> is the start of a datagram
  with the identifier 258.\<close>

definition demo_icmp :: "(string \<times> string) list icmp" where
  "demo_icmp = \<lparr>ic_listen = \<lambda>_ w. (Inr (), w), ic_close = \<lambda>w. w, ic_ttl = \<lambda>_ w. (Inr (), w),
     ic_deadline = \<lambda>_ w. (Inr (), w), ic_write = \<lambda>_ _ w. (Inr (), w),
     ic_read = \<lambda>w. (case w of [] \<Rightarrow> (Inl (NetTimeout ''i/o timeout''), []) | p # ps \<Rightarrow> (Inr p, ps)),
     ic_marshal = \<lambda>_ _ data. Inr data,
     ic_parse = \<lambda>packet. if packet = ''reply'' then Some (EchoReply 258)
       else if packet = ''other'' then Some (EchoReply 7)
       else if packet = ''exceeded'' then Some (TimeExceeded (CHR 0x45 # replicate 19 (CHR 0x00) @
         [CHR 0x08, CHR 0x00, CHR 0x00, CHR 0x00, CHR 0x01, CHR 0x02, CHR 0x00, CHR 0x01]))
       else None,
     ic_rand = \<lambda>_ w. (Inr [CHR 0x01, CHR 0x02], w), ic_now = \<lambda>w. (0, w), ic_ctxErr = \<lambda>w. (None, w),
     ic_ctxEnd = None, ic_lookup = \<lambda>_ w. (Inr [], w)\<rparr>"

lemma demo_reads: "reads demo_icmp w w (NetTimeout ''i/o timeout'') []"
  by (induction w) (auto intro!: reads.intros simp: demo_icmp_def)

lemma demo_ping_send: "ping_send demo_icmp timeout a w = (Inr (258, 0), w)"
  by (simp add: ping_send_def demo_icmp_def set_deadline_def echo_request_def randomBytes_def sbind_def
      big_endian16_def byte_at_def Let_def)

lemma ping_hears_reply_witness:
  "(\<exists>rtt w'. Ping demo_icmp AddrZero 0 (Addr4 0x0A000001)
      [(''reply'', ''10.0.0.2''), (''other'', ''10.0.0.1''), (''reply'', ''10.0.0.1'')] = Some (Inr rtt, w')) \<and>
   Ping demo_icmp AddrZero 0 (Addr4 0x0A000001)
      [(''reply'', ''10.0.0.2''), (''other'', ''10.0.0.1'')] = Some (Inl (NetTimeout ''i/o timeout''), [])"
proof -
  have listen: "ic_listen demo_icmp (ping_source AddrZero) w = (Inr (), w)" for w by (simp add: demo_icmp_def)
  have shown: "show4 0x0A000001 = ''10.0.0.1''" by code_simp
  have "ic_parse demo_icmp ''reply'' = Some (EchoReply 258)" "ic_parse demo_icmp ''other'' = Some (EchoReply 7)"
    "ic_close demo_icmp w = w" for w
    by (simp_all add: demo_icmp_def)
  moreover from this have "\<exists>packet. (packet = ''other'' \<or> packet = ''reply'') \<and> ic_parse demo_icmp packet = Some (EchoReply 258)"
    by blast
  ultimately show ?thesis
    using ping_hears_reply[OF listen demo_ping_send[of 0 "Addr4 0x0A000001"] demo_reads,
        of "[(''reply'', ''10.0.0.2''), (''other'', ''10.0.0.1''), (''reply'', ''10.0.0.1'')]"]
      ping_hears_reply[OF listen demo_ping_send[of 0 "Addr4 0x0A000001"] demo_reads,
        of "[(''reply'', ''10.0.0.2''), (''other'', ''10.0.0.1'')]"]
    by (auto simp: shown)
qed

section \<open>Candidates from a probe\<close>

definition hop_guess :: "addr \<Rightarrow> string" where
  "hop_guess h = show_prefix (Masked (PrefixFrom h 24))"

definition hop_useful :: "iface list \<Rightarrow> addr \<Rightarrow> bool" where
  "hop_useful ifaces h \<longleftrightarrow> routable h \<and> IsPrivate4 h \<and> \<not> onInterface h ifaces"

lemma hop_candidates_acc:
  assumes "set seen = cd_cidr ` set cs" "distinct (map cd_cidr cs)"
    and "hop_candidates ifaces hs (cs, seen) = (cs', seen')"
  shows "distinct (map cd_cidr cs') \<and> cd_cidr ` set cs' = cd_cidr ` set cs \<union> hop_guess ` Set.filter (hop_useful ifaces) (set hs)"
  using assms
proof (induction hs arbitrary: cs seen)
  case (Cons h hs)
  show ?case
  proof (cases "hop_useful ifaces h \<and> hop_guess h \<notin> set seen")
    case True
    let ?cs = "cs @ [\<lparr>cd_iface = [], cd_cidr = hop_guess h, cd_source = SourceProbe\<rparr>]"
    have next_acc: "hop_candidates ifaces hs (?cs, hop_guess h # seen) = (cs', seen')"
      using Cons.prems(3) True by (simp add: hop_useful_def hop_guess_def Let_def)
    show ?thesis
      using Cons.IH[OF _ _ next_acc] Cons.prems(1,2) True by (auto simp: image_iff)
  next
    case False
    have next_acc: "hop_candidates ifaces hs (cs, seen) = (cs', seen')"
      using Cons.prems(3) False by (simp add: hop_useful_def hop_guess_def Let_def split: if_splits)
    show ?thesis
      using Cons.IH[OF Cons.prems(1,2) next_acc] Cons.prems(1) False by (auto simp: image_iff)
  qed
qed auto

lemma HopCandidates_exact:
  "distinct (map cd_cidr (HopCandidates hops ifaces))"
  "cd_cidr ` set (HopCandidates hops ifaces) = hop_guess ` Set.filter (hop_useful ifaces) (set hops)"
  using hop_candidates_acc[of "[]" "[]" ifaces hops] unfolding HopCandidates_def
  by (cases "hop_candidates ifaces hops ([], [])", simp)+

text \<open>C19: A probe always returns when each of its reads ends: with no more hops than it was asked for,
  all of them IPv4, and an error if one occurred; the candidates it leads to are, each once, the
  networks of 24 bits around the private hops that are on no interface's network.\<close>

theorem probe_finds_networks:
  assumes "\<forall>w. \<exists>packets err w'. reads e w packets err w'"
  shows "\<exists>hops err w'. Hops e target maxHops timeout w = Some ((hops, err), w')
    \<and> int (length hops) \<le> max_hops maxHops \<and> (\<forall>h \<in> set hops. Is4 h)
    \<and> distinct (map cd_cidr (HopCandidates hops ifaces))
    \<and> cd_cidr ` set (HopCandidates hops ifaces) =
        {show_prefix (Masked (PrefixFrom h 24)) | h. h \<in> set hops \<and> routable h \<and> IsPrivate4 h \<and> \<not> onInterface h ifaces}"
proof -
  obtain r w1 where l: "ic_listen e ''0.0.0.0'' w = (r, w1)" by fastforce
  have pos: "0 < max_hops maxHops" by (simp add: max_hops_def)
  have "\<exists>hops err w'. Hops e target maxHops timeout w = Some ((hops, err), w')
    \<and> int (length hops) \<le> max_hops maxHops \<and> (\<forall>h \<in> set hops. Is4 h)"
  proof (cases r)
    case (Inl err)
    then show ?thesis using l pos by (simp add: Hops_def Let_def)
  next
    case (Inr u)
    have empty: "\<forall>h \<in> set []. Is4 h" by simp
    obtain hops err w' where h: "hops_loop e (if addr_valid target then target else Addr4 0x01010101)
        (if timeout \<le> 0 then 500 * Millisecond else timeout) [1..<nat (max_hops maxHops) + 1] [] w1 = Some ((hops, err), w')"
      "length hops \<le> nat (max_hops maxHops)" "\<forall>h \<in> set hops. Is4 h"
      using hops_loop_returns[OF assms empty, of "if addr_valid target then target else Addr4 0x01010101"
          "if timeout \<le> 0 then 500 * Millisecond else timeout" "[1..<nat (max_hops maxHops) + 1]" w1]
      by (auto simp del: upt_Suc)
    then have "Hops e target maxHops timeout w = Some ((hops, err), ic_close e w')"
      using l Inr by (simp add: Hops_def Let_def del: upt_Suc)
    then show ?thesis using h(2,3) pos by auto
  qed
  moreover have "cd_cidr ` set (HopCandidates hops ifaces) =
      {show_prefix (Masked (PrefixFrom h 24)) | h. h \<in> set hops \<and> routable h \<and> IsPrivate4 h \<and> \<not> onInterface h ifaces}" for hops
    unfolding HopCandidates_exact(2) by (auto simp: hop_guess_def hop_useful_def)
  ultimately show ?thesis using HopCandidates_exact(1) by blast
qed

lemma probe_finds_networks_witness:
  "\<exists>hops err w'. Hops demo_icmp AddrZero 0 0 [(''exceeded'', ''10.0.7.1''), (''exceeded'', ''10.1.7.1''), (''reply'', ''1.1.1.1'')]
     = Some ((hops, err), w') \<and> int (length hops) \<le> 4 \<and> distinct (map cd_cidr (HopCandidates hops []))"
  using probe_finds_networks[of demo_icmp AddrZero 0 0
      "[(''exceeded'', ''10.0.7.1''), (''exceeded'', ''10.1.7.1''), (''reply'', ''1.1.1.1'')]" "[]"]
    demo_reads by (fastforce simp: max_hops_def)

end
