(* ===== verification/ScanRun.thy ===== *)
theory ScanRun
  imports WebScan Icmp
begin

text \<open>
  \<open>runScan\<close> of \<open>internal/web/scan.go\<close>: the goroutine that sweeps, the one that drains the channel of
  results into the job, and the job that pages show meanwhile.  Every result lands before the job is
  done, and the job is done in the end, under every schedule.
\<close>

section \<open>The goroutines\<close>

text \<open>
  The drainer waits at the channel, has a result in its hands, or has seen the channel closed.  The main
  goroutine is inside \<open>Sweep\<close>, waits for the drainer with the error that \<open>Sweep\<close> returned, or has ended.  \<open>ru_late\<close> says that the
  sweep's context has reached its deadline.
\<close>

datatype drainer = Receiving | Appending sweep_result | Drained

datatype scan_stage = Sweeping addr sweep | Awaiting "string option" | Ended

record scan_run =
  ru_stage :: scan_stage
  ru_drainer :: drainer
  ru_late :: bool
  ru_job :: scan

definition run_job :: "(scan \<Rightarrow> scan) \<Rightarrow> scan_run \<Rightarrow> scan_run" where
  "run_job f c = c\<lparr>ru_job := f (ru_job c)\<rparr>"

definition job_append :: "sweep_result \<Rightarrow> scan \<Rightarrow> scan" where
  "job_append r job = job\<lparr>sc_results := sc_results job @ [result_triple r]\<rparr>"

definition job_end :: "string option \<Rightarrow> scan \<Rightarrow> scan" where
  "job_end err job = job\<lparr>sc_err := err, sc_done := True\<rparr>"

text \<open>The steps of the jobs in the server's state are these.\<close>

lemma server_jobs_follow:
  "v_jobs (scan_result i (result_triple r) s) i = map_option (job_append r) (v_jobs s i)"
  "v_jobs (scan_finished i err s) i = map_option (job_end err) (v_jobs s i)"
  by (simp_all add: scan_result_def scan_finished_def job_append_def job_end_def split: option.split)

definition scan_begin ::
  "(string \<Rightarrow> string + (addr \<times> int) option list) \<Rightarrow> int \<Rightarrow> scan \<Rightarrow> scan_run" where
  "scan_begin addrs workers job =
     \<lparr>ru_stage = (case Scan_Sweep addrs workers (sc_prefix job) (sc_iface job) of
        Inl err \<Rightarrow> Awaiting (Some err) | Inr (source, s) \<Rightarrow> Sweeping source s),
      ru_drainer = Receiving, ru_late = False, ru_job = job\<rparr>"

text \<open>What \<open>Sweep\<close> returns; the context ends by its deadline.\<close>

definition sweep_error :: "sweep \<Rightarrow> string option" where
  "sweep_error s = (if sw_gave_up s then Some ''context deadline exceeded'' else None)"

text \<open>
  The channel has no buffer: a worker hands its result over when the drainer receives.  \<open>found source\<close> says
  what a ping from \<open>source\<close> finds.
\<close>

inductive scan_step :: "(addr \<Rightarrow> addr \<Rightarrow> sweep_result option) \<Rightarrow> scan_run \<Rightarrow> scan_run \<Rightarrow> bool" for found where
  sweeps: "ru_stage c = Sweeping source s \<Longrightarrow> sweep_step (found source) s t \<Longrightarrow> sw_out t = sw_out s \<Longrightarrow>
    scan_step found c (c\<lparr>ru_stage := Sweeping source t, ru_late := sw_done t\<rparr>)"
| hands_over: "ru_stage c = Sweeping source s \<Longrightarrow> sweep_step (found source) s t \<Longrightarrow> sw_out t = sw_out s @ [r] \<Longrightarrow>
    ru_drainer c = Receiving \<Longrightarrow>
    scan_step found c (c\<lparr>ru_stage := Sweeping source t, ru_late := sw_done t, ru_drainer := Appending r\<rparr>)"
| appends: "ru_drainer c = Appending r \<Longrightarrow>
    scan_step found c (run_job (job_append r) (c\<lparr>ru_drainer := Receiving\<rparr>))"
| returns: "ru_stage c = Sweeping source s \<Longrightarrow> sweep_over s \<Longrightarrow>
    scan_step found c (c\<lparr>ru_stage := Awaiting (sweep_error s)\<rparr>)"
| drained: "ru_stage c = Awaiting err \<Longrightarrow> ru_drainer c = Receiving \<Longrightarrow>
    scan_step found c (c\<lparr>ru_drainer := Drained\<rparr>)"
| ends: "ru_stage c = Awaiting err \<Longrightarrow> ru_drainer c = Drained \<Longrightarrow>
    scan_step found c (run_job (job_end err) (c\<lparr>ru_stage := Ended\<rparr>))"

inductive_cases scan_step_cases: "scan_step found c c'"

inductive scan_steps :: "(addr \<Rightarrow> addr \<Rightarrow> sweep_result option) \<Rightarrow> scan_run \<Rightarrow> nat \<Rightarrow> scan_run \<Rightarrow> bool" for found where
  here: "scan_steps found c 0 c"
| next_step: "scan_steps found c n d \<Longrightarrow> scan_step found d e \<Longrightarrow> scan_steps found c (Suc n) e"

section \<open>A scan ends\<close>

lemma sweep_step_out:
  "sweep_step found s t \<Longrightarrow> sw_out t = sw_out s \<or> (\<exists>r. sw_out t = sw_out s @ [r])"
  by (induction rule: sweep_step.induct) auto

fun stage_weight :: "scan_stage \<Rightarrow> nat" where
  "stage_weight (Sweeping _ s) = 2 * sweep_measure s + 3"
| "stage_weight (Awaiting _) = 2"
| "stage_weight Ended = 0"

fun drainer_weight :: "drainer \<Rightarrow> nat" where
  "drainer_weight Receiving = 1"
| "drainer_weight (Appending _) = 2"
| "drainer_weight Drained = 0"

definition scan_measure :: "scan_run \<Rightarrow> nat" where
  "scan_measure c = stage_weight (ru_stage c) + drainer_weight (ru_drainer c)"

lemma scan_step_decreases: "scan_step found c d \<Longrightarrow> scan_measure d < scan_measure c"
  by (induction rule: scan_step.induct) (auto simp: scan_measure_def run_job_def dest!: sweep_step_decreases)

lemma scan_steps_measure: "scan_steps found c n d \<Longrightarrow> scan_measure d + n \<le> scan_measure c"
  by (induction rule: scan_steps.induct) (auto dest: scan_step_decreases)

section \<open>Nothing is lost on the way to the job\<close>

fun in_hand :: "drainer \<Rightarrow> sweep_result list" where
  "in_hand (Appending r) = [r]"
| "in_hand _ = []"

definition same_scan :: "scan \<Rightarrow> scan \<Rightarrow> bool" where
  "same_scan job0 job \<longleftrightarrow> job = job0\<lparr>sc_results := sc_results job, sc_done := sc_done job, sc_err := sc_err job\<rparr>"

text \<open>Whatever the sweep has handed over is in the job or in the drainer's hands, until all of it is in the job.\<close>

definition swept :: "(addr \<Rightarrow> addr \<Rightarrow> sweep_result option) \<Rightarrow> addr \<Rightarrow> sweep \<Rightarrow> scan \<Rightarrow> scan_run \<Rightarrow> sweep \<Rightarrow> bool" where
  "swept found source s0 job0 c t \<longleftrightarrow>
     (\<exists>n. sweep_run (found source) s0 n t) \<and> sw_done t = ru_late c \<and> same_scan job0 (ru_job c) \<and>
     sc_results (ru_job c) @ map result_triple (in_hand (ru_drainer c)) = map result_triple (sw_out t) \<and>
     (case ru_stage c of
        Sweeping source' s \<Rightarrow> source' = source \<and> s = t \<and> ru_drainer c \<noteq> Drained \<and> \<not> sc_done (ru_job c)
      | Awaiting err \<Rightarrow> sweep_over t \<and> err = sweep_error t \<and> \<not> sc_done (ru_job c)
      | Ended \<Rightarrow> sweep_over t \<and> sc_done (ru_job c) \<and> sc_err (ru_job c) = sweep_error t \<and> ru_drainer c = Drained)"

definition refused :: "string \<Rightarrow> scan \<Rightarrow> scan_run \<Rightarrow> bool" where
  "refused err job0 c \<longleftrightarrow> same_scan job0 (ru_job c) \<and> sc_results (ru_job c) = [] \<and> in_hand (ru_drainer c) = [] \<and>
     (case ru_stage c of
        Sweeping _ _ \<Rightarrow> False
      | Awaiting e \<Rightarrow> e = Some err \<and> \<not> sc_done (ru_job c)
      | Ended \<Rightarrow> sc_done (ru_job c) \<and> sc_err (ru_job c) = Some err \<and> ru_drainer c = Drained)"

lemma same_scan_ops:
  "same_scan job0 (job_append r job) \<longleftrightarrow> same_scan job0 job" "same_scan job0 (job_end err job) \<longleftrightarrow> same_scan job0 job"
  by (cases job0; cases job; simp add: same_scan_def job_append_def job_end_def)+

lemma job_fields:
  "sc_results (job_append r job) = sc_results job @ [result_triple r]" "sc_done (job_append r job) = sc_done job"
  "sc_err (job_append r job) = sc_err job"
  "sc_results (job_end err job) = sc_results job" "sc_done (job_end err job)" "sc_err (job_end err job) = err"
  by (simp_all add: job_append_def job_end_def)

lemmas job_ops = run_job_def same_scan_ops job_fields

lemma swept_step:
  assumes "scan_step found c d" "swept found source s0 job0 c t"
  shows "\<exists>u. swept found source s0 job0 d u"
  using assms
proof (induction rule: scan_step.induct)
  case (sweeps c source' s u)
  then have "swept found source s0 job0 (c\<lparr>ru_stage := Sweeping source' u, ru_late := sw_done u\<rparr>) u"
    by (auto simp: swept_def intro: sweep_run.more)
  then show ?case ..
next
  case (hands_over c source' s u r)
  then have "swept found source s0 job0 (c\<lparr>ru_stage := Sweeping source' u, ru_late := sw_done u, ru_drainer := Appending r\<rparr>) u"
    by (auto simp: swept_def intro: sweep_run.more)
  then show ?case ..
next
  case (appends c r)
  then have "swept found source s0 job0 (run_job (job_append r) (c\<lparr>ru_drainer := Receiving\<rparr>)) t"
    by (auto simp: swept_def job_ops split: scan_stage.splits)
  then show ?case ..
next
  case (returns c source' s)
  then have "swept found source s0 job0 (c\<lparr>ru_stage := Awaiting (sweep_error s)\<rparr>) t" by (auto simp: swept_def)
  then show ?case ..
next
  case (drained c err)
  then have "swept found source s0 job0 (c\<lparr>ru_drainer := Drained\<rparr>) t" by (auto simp: swept_def)
  then show ?case ..
next
  case (ends c err)
  then have "swept found source s0 job0 (run_job (job_end err) (c\<lparr>ru_stage := Ended\<rparr>)) t"
    by (auto simp: swept_def job_ops)
  then show ?case ..
qed

lemma refused_step: "scan_step found c d \<Longrightarrow> refused err job0 c \<Longrightarrow> refused err job0 d"
  by (induction rule: scan_step.induct) (auto simp: refused_def job_ops)

lemma swept_steps: "scan_steps found c n d \<Longrightarrow> \<exists>t. swept found source s0 job0 c t \<Longrightarrow> \<exists>t. swept found source s0 job0 d t"
  by (induction rule: scan_steps.induct) (auto dest: swept_step)

lemma refused_steps: "scan_steps found c n d \<Longrightarrow> refused err job0 c \<Longrightarrow> refused err job0 d"
  by (induction rule: scan_steps.induct) (auto dest: refused_step)

text \<open>No goroutine waits for ever, whether or not the deadline passes.\<close>

lemma waiting_goes_on:
  assumes "ru_stage c = Awaiting err"
  shows "\<exists>d. scan_step found c d"
  using assms by (cases "ru_drainer c") (blast intro: scan_step.intros)+

lemma swept_progress:
  assumes "sweep_inv s0" "swept found source s0 job0 c t" "ru_stage c \<noteq> Ended"
  shows "\<exists>d. scan_step found c d"
proof (cases "ru_stage c")
  case (Sweeping source' s)
  then have s: "source' = source" "s = t" and run: "\<exists>n. sweep_run (found source) s0 n t" and idle: "ru_drainer c \<noteq> Drained"
    using assms(2) by (auto simp: swept_def)
  show ?thesis
  proof (cases "ru_drainer c")
    case Receiving
    show ?thesis
    proof (cases "sweep_over t")
      case True
      then show ?thesis using Sweeping s by (blast intro: returns)
    next
      case False
      then obtain u where "sweep_step (found source) t u"
        using run assms(1) sweep_run_inv sweep_progress by blast
      then show ?thesis using sweep_step_out[of "found source" t u] Sweeping s Receiving
        by (blast intro: sweeps hands_over)
    qed
  qed (use idle in \<open>blast intro: appends\<close>)+
qed (use assms(3) waiting_goes_on in auto)

section \<open>The view of a scan that has ended\<close>

lemma distinct_sub:
  assumes "mset xs \<subseteq># mset ys" "distinct ys"
  shows "distinct xs"
proof -
  obtain zs where "mset ys = mset (xs @ zs)" using assms(1) by (metis ex_mset mset_append mset_subset_eq_exists_conv)
  then show ?thesis using assms(2) mset_eq_imp_distinct_iff by fastforce
qed

text \<open>The hosts in the order of their addresses, when each was reported once.\<close>

lemma view_hosts:
  assumes "mset (map sr_addr rs) \<subseteq># mset (filter P hosts)" "sorted_wrt addr_less hosts"
    and "sc_results job = map result_triple rs"
  shows "\<exists>as. map sx_addr (sw_hosts (job_view e job)) = map show_addr as \<and> mset as = mset (map sr_addr rs) \<and>
    sorted_wrt addr_less as"
proof -
  let ?as = "map fst (sort_key fst (sc_results job))"
  have set_up: "mset ?as = mset (map sr_addr rs)" using assms(3) by (simp add: result_triple_def o_def multiset.map_comp)
  have "distinct (filter P hosts)" using assms(2) by (simp add: less_addr_def[symmetric] strict_sorted_iff)
  then have "distinct (map sr_addr rs)" using assms(1) distinct_sub by blast
  then have "distinct ?as" using set_up mset_eq_imp_distinct_iff by blast
  then have "sorted_wrt addr_less ?as" by (simp add: less_addr_def[symmetric] strict_sorted_iff)
  moreover have "map sx_addr (sw_hosts (job_view e job)) = map show_addr ?as"
    by (simp add: job_view_def insert_results_sort case_prod_beta o_def)
  ultimately show ?thesis using set_up by blast
qed

lemma sorted_once:
  assumes "sorted_wrt addr_less as" "sorted_wrt addr_less bs" "mset as = mset bs"
  shows "as = bs"
  using assms sorted_distinct_set_unique[of as bs]
  by (metis less_addr_def mset_eq_setD sorted_wrt_mono_rel strict_sorted_iff)

lemma scan_begin_refused:
  assumes "Scan_Sweep addrs workers (sc_prefix job) (sc_iface job) = Inl err" "sc_results job = []" "\<not> sc_done job"
  shows "refused err job (scan_begin addrs workers job)"
  using assms by (cases job) (simp add: scan_begin_def refused_def same_scan_def)

lemma scan_begin_swept:
  assumes "Scan_Sweep addrs workers (sc_prefix job) (sc_iface job) = Inr (source, s0)" "sc_results job = []" "\<not> sc_done job"
  shows "sweep_start workers (sc_prefix job) = Inr s0" "swept found source s0 job (scan_begin addrs workers job) s0"
proof -
  show start: "sweep_start workers (sc_prefix job) = Inr s0"
    using assms(1) by (auto simp: Scan_Sweep_def bindr_Inr_iff)
  then have "sw_out s0 = []" "\<not> sw_done s0" by (auto simp: sweep_start_def bindr_Inr_iff)
  then show "swept found source s0 job (scan_begin addrs workers job) s0"
    using assms by (cases job) (auto simp: scan_begin_def swept_def same_scan_def intro: sweep_run.start)
qed

lemma scan_begin_measure: "scan_measure (scan_begin addrs workers job) \<le> 8184"
proof (cases "Scan_Sweep addrs workers (sc_prefix job) (sc_iface job)")
  case (Inr r)
  then have "sweep_start workers (sc_prefix job) = Inr (snd r)" by (auto simp: Scan_Sweep_def bindr_Inr_iff)
  from sweep_start_props(2)[OF this] show ?thesis using Inr by (simp add: scan_begin_def scan_measure_def case_prod_beta)
qed (simp add: scan_begin_def scan_measure_def)

lemma sweep_start_sorted: "sweep_start workers p = Inr s0 \<Longrightarrow> sorted_wrt addr_less (sw_todo s0)"
proof -
  assume "sweep_start workers p = Inr s0"
  then have hosts: "Hosts p = Inr (sw_todo s0)" by (auto simp: sweep_start_def bindr_Inr_iff)
  then have "pfx_valid p" "Is4 (pfx_addr p)" "22 \<le> pfx_bits p" using hosts_refused[of p] by auto
  from hosts_facts[OF this] show ?thesis using hosts by auto
qed

text \<open>What the page shows of a scan whose sweep was accepted.  The error of the context is seen only while
  hosts are left to hand out.\<close>

definition shows_sweep :: "(addr \<Rightarrow> duration option) \<Rightarrow> sweep \<Rightarrow> bool \<Rightarrow> scan_view \<Rightarrow> bool" where
  "shows_sweep ping s0 late v \<longleftrightarrow>
     (\<exists>as. map sx_addr (sw_hosts v) = map show_addr as \<and> sorted_wrt addr_less as \<and>
       mset as \<subseteq># mset (filter (\<lambda>a. ping a \<noteq> None) (sw_todo s0)) \<and>
       (\<not> late \<longrightarrow> as = filter (\<lambda>a. ping a \<noteq> None) (sw_todo s0))) \<and>
     (sw_error v = [] \<or> late \<and> sw_error v = ''context deadline exceeded'')"

lemma swept_shown:
  assumes "sweep_start workers p = Inr s0"
    and "swept (\<lambda>source. sweep_found (ping source) lookup) source s0 job0 c t" "ru_stage c = Ended"
  shows "shows_sweep (ping source) s0 (ru_late c) (job_view e (ru_job c))"
proof -
  let ?f = "sweep_found (ping source) lookup" and ?P = "\<lambda>a. ping source a \<noteq> None"
  obtain n where run: "sweep_run ?f s0 n t" and "over": "sweep_over t" and err: "sc_err (ru_job c) = sweep_error t"
    and late: "sw_done t = ru_late c" and results: "sc_results (ru_job c) = map result_triple (sw_out t)"
    using assms(2,3) by (auto simp: swept_def)
  note sorted = sweep_start_sorted[OF assms(1)]
  have sub: "mset (map sr_addr (sw_out t)) \<subseteq># mset (filter ?P (sw_todo s0))"
    using sweep_facts[OF assms(1) run] by blast
  obtain as where as: "map sx_addr (sw_hosts (job_view e (ru_job c))) = map show_addr as"
    "mset as = mset (map sr_addr (sw_out t))" "sorted_wrt addr_less as"
    using view_hosts[OF sub sorted results] by blast
  have "as = filter ?P (sw_todo s0)" if "\<not> sw_done t"
  proof (rule sorted_once[OF as(3) sorted_wrt_filter[OF sorted]])
    have "mset (sw_out t) = mset (List.map_filter ?f (sw_todo s0))" using sweep_facts[OF assms(1) run] "over" that by blast
    then have "mset (map sr_addr (sw_out t)) = mset (map sr_addr (List.map_filter ?f (sw_todo s0)))" by simp
    then show "mset as = mset (filter ?P (sw_todo s0))" unfolding as(2) found_hosts .
  qed
  moreover have "sw_error (job_view e (ru_job c)) = [] \<or>
      sw_done t \<and> sw_error (job_view e (ru_job c)) = ''context deadline exceeded''"
    using err sweep_run_inv[OF run sweep_start_props(1)[OF assms(1)]]
    by (auto simp: job_view_def sweep_error_def sweep_inv_def)
  ultimately show ?thesis using as sub late unfolding shows_sweep_def by metis
qed

text \<open>C25: However its goroutines are scheduled, a scan takes at most 8184 steps and never waits for ever;
  its page says that it is running until its last step; and then it shows the error of a sweep that was
  refused, or each host that was reported, once and in the order of the addresses: all hosts that
  answer, unless the deadline cut the sweep.\<close>

theorem scan_ends:
  assumes "scan_steps (\<lambda>source. sweep_found (ping source) lookup) (scan_begin addrs workers job) n c"
    and "sc_results job = []" "\<not> sc_done job"
  shows "n \<le> 8184 \<and>
    (ru_stage c \<noteq> Ended \<longrightarrow> (\<exists>d. scan_step (\<lambda>source. sweep_found (ping source) lookup) c d)) \<and>
    (sw_running (job_view e (ru_job c)) \<longleftrightarrow> ru_stage c \<noteq> Ended) \<and>
    (ru_stage c = Ended \<longrightarrow> (case Scan_Sweep addrs workers (sc_prefix job) (sc_iface job) of
        Inl err \<Rightarrow> sw_error (job_view e (ru_job c)) = err \<and> sw_hosts (job_view e (ru_job c)) = []
      | Inr (source, s0) \<Rightarrow> shows_sweep (ping source) s0 (ru_late c) (job_view e (ru_job c))))"
proof -
  let ?f = "\<lambda>source. sweep_found (ping source) lookup"
  have n: "n \<le> 8184" using scan_steps_measure[OF assms(1)] scan_begin_measure[of addrs workers job] by simp
  show ?thesis
  proof (cases "Scan_Sweep addrs workers (sc_prefix job) (sc_iface job)")
    case (Inl err)
    have r: "refused err job c" using refused_steps[OF assms(1) scan_begin_refused[OF Inl assms(2,3)]] .
    then have "sw_running (job_view e (ru_job c)) \<longleftrightarrow> ru_stage c \<noteq> Ended"
      by (auto simp: refused_def job_view_def split: scan_stage.splits)
    moreover have "\<exists>d. scan_step ?f c d" if "ru_stage c \<noteq> Ended"
      using r that waiting_goes_on by (cases "ru_stage c") (auto simp: refused_def)
    moreover have "sw_error (job_view e (ru_job c)) = err \<and> sw_hosts (job_view e (ru_job c)) = []" if "ru_stage c = Ended"
      using r that by (simp add: refused_def job_view_def)
    ultimately show ?thesis using n Inl by simp
  next
    case (Inr r)
    then obtain source s0 where S: "Scan_Sweep addrs workers (sc_prefix job) (sc_iface job) = Inr (source, s0)"
      by (cases r) auto
    note start = scan_begin_swept[OF S assms(2,3)]
    obtain t where t: "swept ?f source s0 job c t" using swept_steps[OF assms(1), of source s0 job] start(2) by blast
    then have "sw_running (job_view e (ru_job c)) \<longleftrightarrow> ru_stage c \<noteq> Ended"
      by (auto simp: swept_def job_view_def split: scan_stage.splits)
    moreover have "\<exists>d. scan_step ?f c d" if "ru_stage c \<noteq> Ended"
      using swept_progress[OF sweep_start_props(1)[OF start(1)] t that] .
    ultimately show ?thesis using n S swept_shown[OF start(1) t, of e] by simp
  qed
qed

section \<open>A scan of one host\<close>

definition demo_scan :: scan where
  "demo_scan = \<lparr>sc_id = ''ab'', sc_prefix = Prefix demo_host 32, sc_iface = [], sc_conn = 0, sc_subnet = 1,
     sc_started = 0, sc_results = [], sc_done = False, sc_err = None\<rparr>"

lemma demo_fields:
  "sw_out (demo_sweep todo w out closed) = out" "\<not> sw_done (demo_sweep todo w out closed)"
  "sw_out (demo_sweep todo w out closed\<lparr>sw_done := late\<rparr>) = out"
  "sw_done (demo_sweep todo w out closed\<lparr>sw_done := late\<rparr>) = late"
  by (simp_all add: demo_sweep_def)

lemmas demo_simps = demo_fields simp_thms True_implies_equals

lemma demo_scan_begin:
  "scan_begin (\<lambda>_. Inr []) 0 demo_scan =
     \<lparr>ru_stage = Sweeping AddrZero (demo_sweep [demo_host] Waiting [] False), ru_drainer = Receiving, ru_late = False, ru_job = demo_scan\<rparr>"
  using demo_sweep_start by (simp add: scan_begin_def Scan_Sweep_def demo_scan_def)

text \<open>The last steps of any scan that has swept and drained.\<close>

lemma scan_steps_end:
  assumes "scan_steps found c n \<lparr>ru_stage = Sweeping source s, ru_drainer = Receiving, ru_late = late, ru_job = job\<rparr>" "sweep_over s"
  shows "scan_steps found c (n + 3) \<lparr>ru_stage = Ended, ru_drainer = Drained, ru_late = late, ru_job = job_end (sweep_error s) job\<rparr>"
proof -
  let ?c = "\<lparr>ru_stage = Sweeping source s, ru_drainer = Receiving, ru_late = late, ru_job = job\<rparr>"
  have "scan_step found ?c \<lparr>ru_stage = Awaiting (sweep_error s), ru_drainer = Receiving, ru_late = late, ru_job = job\<rparr>"
    using returns[of ?c source s found] assms(2) by simp
  moreover have "scan_step found \<lparr>ru_stage = Awaiting (sweep_error s), ru_drainer = Receiving, ru_late = late, ru_job = job\<rparr>
      \<lparr>ru_stage = Awaiting (sweep_error s), ru_drainer = Drained, ru_late = late, ru_job = job\<rparr>"
    using drained[of "\<lparr>ru_stage = Awaiting (sweep_error s), ru_drainer = Receiving, ru_late = late, ru_job = job\<rparr>" "sweep_error s" found] by simp
  moreover have "scan_step found \<lparr>ru_stage = Awaiting (sweep_error s), ru_drainer = Drained, ru_late = late, ru_job = job\<rparr>
      \<lparr>ru_stage = Ended, ru_drainer = Drained, ru_late = late, ru_job = job_end (sweep_error s) job\<rparr>"
    using ends[of "\<lparr>ru_stage = Awaiting (sweep_error s), ru_drainer = Drained, ru_late = late, ru_job = job\<rparr>" "sweep_error s" found]
    by (simp add: run_job_def)
  ultimately have "scan_steps found c (Suc (Suc (Suc n))) \<lparr>ru_stage = Ended, ru_drainer = Drained, ru_late = late, ru_job = job_end (sweep_error s) job\<rparr>"
    using assms(1) by (blast intro: next_step)
  then show ?thesis by (simp add: eval_nat_numeral)
qed

text \<open>A step of the sweep that hands nothing over, for the examples.\<close>

lemma scan_sweeps:
  assumes "scan_steps found c n \<lparr>ru_stage = Sweeping source s, ru_drainer = d, ru_late = late, ru_job = job\<rparr>"
    and "sweep_step (found source) s t" "sw_out t = sw_out s"
  shows "scan_steps found c (Suc n) \<lparr>ru_stage = Sweeping source t, ru_drainer = d, ru_late = sw_done t, ru_job = job\<rparr>"
  using next_step[OF assms(1) sweeps[of _ source s found t]] assms(2,3) by simp

text \<open>
  A deadline that falls after the last host was handed to a worker is not seen by the loop that sends:
  the scan ends without an error and without the host, which answers.
\<close>

lemma scan_cut_silently:
  "\<exists>n c. scan_steps (\<lambda>source. sweep_found (\<lambda>_. Some 7) None) (scan_begin (\<lambda>_. Inr []) 0 demo_scan) n c \<and>
     ru_stage c = Ended \<and> sw_error (job_view e (ru_job c)) = [] \<and> sw_hosts (job_view e (ru_job c)) = []"
proof -
  let ?f = "sweep_found (\<lambda>_. Some (7::int)) None"
  let ?F = "\<lambda>source :: addr. ?f" and ?s = "\<lambda>todo w closed. demo_sweep todo w [] closed"
    and ?cut = "\<lambda>w closed. demo_sweep [] w [] closed\<lparr>sw_done := True\<rparr>"
  have "sweep_step ?f (?s [demo_host] Waiting False) (?s [] (Pinging demo_host) False)"
    using hand_over[of "?s [demo_host] Waiting False" demo_host "[]" 0 ?f] by (simp add: demo_sweep_def)
  note 1 = scan_sweeps[OF here[of ?F "scan_begin (\<lambda>_. Inr []) 0 demo_scan", unfolded demo_scan_begin] this, simplified demo_simps]
  have "sweep_step ?f (?s [] (Pinging demo_host) False) (?cut (Pinging demo_host) False)"
    using cancel[of "?s [] (Pinging demo_host) False" ?f] by (simp add: demo_sweep_def)
  note 2 = scan_sweeps[OF 1 this, simplified demo_simps]
  have "sweep_step ?f (?cut (Pinging demo_host) False) (?cut Waiting False)"
    using no_answer[of 0 "?cut (Pinging demo_host) False" demo_host ?f] by (simp add: demo_sweep_def)
  note 3 = scan_sweeps[OF 2 this, simplified demo_simps]
  have "sweep_step ?f (?cut Waiting False) (?cut Waiting True)"
    using close_queue[of "?cut Waiting False" ?f] by (simp add: demo_sweep_def)
  note 4 = scan_sweeps[OF 3 this, simplified demo_simps]
  have "sweep_step ?f (?cut Waiting True) (?cut Gone True)"
    using leave[of 0 "?cut Waiting True" ?f] by (simp add: demo_sweep_def)
  note 5 = scan_sweeps[OF 4 this, simplified demo_simps]
  have "sweep_over (?cut Gone True)" by (simp add: sweep_over_def demo_sweep_def)
  then have "scan_steps ?F (scan_begin (\<lambda>_. Inr []) 0 demo_scan) 8
      \<lparr>ru_stage = Ended, ru_drainer = Drained, ru_late = True, ru_job = job_end None demo_scan\<rparr>"
    using scan_steps_end[OF 5] unfolding demo_scan_begin
    by (simp add: demo_sweep_def sweep_error_def eval_nat_numeral)
  then show ?thesis
    by (intro exI conjI, assumption) (simp_all add: demo_scan_def job_view_def job_end_def)
qed

text \<open>The host answers and its result is drained.\<close>

lemma demo_scan_run:
  "scan_steps (\<lambda>source. sweep_found (\<lambda>_. Some 7) None) (scan_begin (\<lambda>_. Inr []) 0 demo_scan) 9
     \<lparr>ru_stage = Ended, ru_drainer = Drained, ru_late = False, ru_job = job_end None (job_append demo_result demo_scan)\<rparr>"
proof -
  let ?f = "sweep_found (\<lambda>_. Some (7::int)) None"
  let ?F = "\<lambda>source :: addr. ?f" and ?s = "\<lambda>todo w closed. demo_sweep todo w [] closed" and ?t = "\<lambda>w closed. demo_sweep [] w [demo_result] closed"
    and ?c = "scan_begin (\<lambda>_. Inr []) 0 demo_scan"
  have f: "?f demo_host = Some demo_result" by (simp add: sweep_found_def demo_result_def)
  have "sweep_step ?f (?s [demo_host] Waiting False) (?s [] (Pinging demo_host) False)"
    using hand_over[of "?s [demo_host] Waiting False" demo_host "[]" 0 ?f] by (simp add: demo_sweep_def)
  note 1 = scan_sweeps[OF here[of ?F ?c, unfolded demo_scan_begin] this, simplified demo_simps]
  have "sweep_step ?f (?s [] (Pinging demo_host) False) (?s [] (Offering demo_result) False)"
    using answered[of 0 "?s [] (Pinging demo_host) False" demo_host ?f demo_result] f by (simp add: demo_sweep_def)
  note 2 = scan_sweeps[OF 1 this, simplified demo_simps]
  have report: "sweep_step ?f (?s [] (Offering demo_result) False) (?t Waiting False)"
    using report[of 0 "?s [] (Offering demo_result) False" demo_result ?f] by (simp add: demo_sweep_def)
  let ?o = "\<lparr>ru_stage = Sweeping AddrZero (?s [] (Offering demo_result) False), ru_drainer = Receiving, ru_late = False, ru_job = demo_scan\<rparr>"
  have "scan_step ?F ?o \<lparr>ru_stage = Sweeping AddrZero (?t Waiting False), ru_drainer = Appending demo_result, ru_late = False, ru_job = demo_scan\<rparr>"
    using hands_over[of ?o AddrZero _ ?F "?t Waiting False" demo_result] report by (simp add: demo_sweep_def)
  note 3 = next_step[OF 2 this]
  let ?a = "\<lparr>ru_stage = Sweeping AddrZero (?t Waiting False), ru_drainer = Appending demo_result, ru_late = False, ru_job = demo_scan\<rparr>"
  have "scan_step ?F ?a \<lparr>ru_stage = Sweeping AddrZero (?t Waiting False), ru_drainer = Receiving, ru_late = False, ru_job = job_append demo_result demo_scan\<rparr>"
    using appends[of ?a demo_result ?F] by (simp add: run_job_def)
  note 4 = next_step[OF 3 this]
  have "sweep_step ?f (?t Waiting False) (?t Waiting True)"
    using close_queue[of "?t Waiting False" ?f] by (simp add: demo_sweep_def)
  note 5 = scan_sweeps[OF 4 this, simplified demo_simps]
  have "sweep_step ?f (?t Waiting True) (?t Gone True)"
    using leave[of 0 "?t Waiting True" ?f] by (simp add: demo_sweep_def)
  note 6 = scan_sweeps[OF 5 this, simplified demo_simps]
  from scan_steps_end[OF 6 demo_sweep_over(1)] show ?thesis
    unfolding demo_scan_begin by (simp add: demo_sweep_def sweep_error_def eval_nat_numeral)
qed

theorem scan_ends_witness:
  "map sx_addr (sw_hosts (job_view demo_web (job_end None (job_append demo_result demo_scan)))) = [''10.0.0.1'']
   \<and> \<not> sw_running (job_view demo_web (job_end None (job_append demo_result demo_scan)))"
proof -
  let ?v = "job_view demo_web (job_end None (job_append demo_result demo_scan))"
  have "sc_results demo_scan = []" "\<not> sc_done demo_scan" by (simp_all add: demo_scan_def)
  note ends = scan_ends[OF demo_scan_run this, of demo_web]
  have "Scan_Sweep (\<lambda>_. Inr []) 0 (sc_prefix demo_scan) (sc_iface demo_scan) = Inr (AddrZero, demo_sweep [demo_host] Waiting [] False)"
    using demo_sweep_start by (simp add: Scan_Sweep_def demo_scan_def)
  then have shown: "shows_sweep (\<lambda>_. Some 7) (demo_sweep [demo_host] Waiting [] False) False ?v" "\<not> sw_running ?v"
    using ends by simp_all
  have "map show_addr (filter (\<lambda>a. Some 7 \<noteq> None) (sw_todo (demo_sweep [demo_host] Waiting [] False))) = [''10.0.0.1'']"
    by code_simp
  then show ?thesis using shown unfolding shows_sweep_def by metis
qed

end
