(* ===== verification/Threads.thy ===== *)
theory Threads
  imports Prelude
begin

text \<open>
  Operations that run on several goroutines at once.  A program is a sequence of atomic sections,
  each of which may depend on what the earlier ones returned: a section stands for what the code
  does while it holds a lock, or for one command or statement.  \<open>run_prog\<close> runs a program by itself;
  \<open>tick\<close> lets any number of programs take turns.
\<close>

section \<open>Programs\<close>

datatype ('s, 'a) prog = Ret 'a | Act "'s \<Rightarrow> ('s, 'a) prog \<times> 's"

primrec bindp :: "('s, 'a) prog \<Rightarrow> ('a \<Rightarrow> ('s, 'b) prog) \<Rightarrow> ('s, 'b) prog" where
  "bindp (Ret a) k = k a"
| "bindp (Act f) k = Act (\<lambda>s. map_prod (\<lambda>p. bindp p k) id (f s))"

primrec run_prog :: "('s, 'a) prog \<Rightarrow> 's \<Rightarrow> 'a \<times> 's" where
  "run_prog (Ret a) = (\<lambda>s. (a, s))"
| "run_prog (Act f) = (\<lambda>s. case map_prod run_prog id (f s) of (g, s') \<Rightarrow> g s')"

definition sect :: "('s \<Rightarrow> 'a \<times> 's) \<Rightarrow> ('s, 'a) prog" where
  "sect f = Act (\<lambda>s. case f s of (a, s') \<Rightarrow> (Ret a, s'))"

definition void :: "('s, 'a) prog \<Rightarrow> ('s, unit) prog" where
  "void p = bindp p (\<lambda>_. Ret ())"

text \<open>A loop over a list.\<close>

primrec each :: "('a \<Rightarrow> ('s, unit) prog) \<Rightarrow> 'a list \<Rightarrow> ('s, unit) prog" where
  "each f [] = Ret ()"
| "each f (x # xs) = bindp (f x) (\<lambda>_. each f xs)"

lemma run_bindp [simp]: "run_prog (bindp p k) s = (case run_prog p s of (a, s') \<Rightarrow> run_prog (k a) s')"
proof (induction p arbitrary: s)
  case (Act f)
  obtain p s' where f: "f s = (p, s')" by fastforce
  have "run_prog (bindp p k) s' = (case run_prog p s' of (a, s'') \<Rightarrow> run_prog (k a) s'')"
    by (rule Act.IH [of "(p, s')" p]) (use f in \<open>auto intro: rev_image_eqI [of s]\<close>)
  then show ?case by (simp add: f)
qed simp

lemma run_sect_prog [simp]: "run_prog (sect f) s = f s"
  by (simp add: sect_def split: prod.split)

lemma bindp_sect: "bindp (sect f) k = Act (\<lambda>s. (k (fst (f s)), snd (f s)))"
  by (simp add: sect_def case_prod_beta)

lemma run_void [simp]: "run_prog (void p) s = ((), snd (run_prog p s))"
  by (simp add: void_def case_prod_beta)

fun ended :: "('s, 'a) prog \<Rightarrow> bool" where
  "ended (Ret a) = True"
| "ended (Act f) = False"

section \<open>Taking turns\<close>

type_synonym ('s, 'a) conf = "'s \<times> ('s, 'a) prog list"

text \<open>
  \<open>S\<close> is the set of the operations that the environment may call: at any time one of them begins on a
  goroutine of its own, or some goroutine runs its next section.
\<close>

inductive tick :: "('s, 'a) prog set \<Rightarrow> ('s, 'a) conf \<Rightarrow> ('s, 'a) conf \<Rightarrow> bool" for S where
  begin_op: "p \<in> S \<Longrightarrow> tick S (s, ps) (s, ps @ [p])"
| run_sect: "i < length ps \<Longrightarrow> ps ! i = Act f \<Longrightarrow> f s = (p, s') \<Longrightarrow> tick S (s, ps) (s', ps[i := p])"

inductive_cases tickE: "tick S (s, ps) c"

text \<open>The sections that a scheduler chooses, thread by thread.\<close>

fun turn :: "nat \<Rightarrow> ('s, 'a) conf \<Rightarrow> ('s, 'a) conf" where
  "turn i (s, ps) =
     (if i < length ps then (case ps ! i of Ret _ \<Rightarrow> (s, ps) | Act f \<Rightarrow> (case f s of (p, s') \<Rightarrow> (s', ps[i := p])))
      else (s, ps))"

fun turns :: "nat list \<Rightarrow> ('s, 'a) conf \<Rightarrow> ('s, 'a) conf" where
  "turns [] c = c"
| "turns (i # is') c = turns is' (turn i c)"

lemma turn_ticks: "(tick S)\<^sup>*\<^sup>* c (turn i c)"
proof (cases c)
  case (Pair s ps)
  show ?thesis
  proof (cases "i < length ps")
    case True
    then show ?thesis using Pair
      by (cases "ps ! i") (auto intro!: r_into_rtranclp run_sect split: prod.split)
  qed (simp add: Pair)
qed

lemma turns_ticks: "(tick S)\<^sup>*\<^sup>* c (turns xs c)"
proof (induction xs arbitrary: c)
  case (Cons i xs)
  have "(tick S)\<^sup>*\<^sup>* c (turn i c)" by (rule turn_ticks)
  also have "(tick S)\<^sup>*\<^sup>* (turn i c) (turns xs (turn i c))" by (rule Cons.IH)
  finally show ?case by simp
qed simp

lemma begin_ticks: "set ps \<subseteq> S \<Longrightarrow> (tick S)\<^sup>*\<^sup>* (s, []) (s, ps)"
proof (induction ps rule: rev_induct)
  case (snoc p ps)
  then have "(tick S)\<^sup>*\<^sup>* (s, []) (s, ps)" "tick S (s, ps) (s, ps @ [p])" by (auto intro: begin_op)
  then show ?case by simp
qed simp

text \<open>No goroutine waits for another: left alone, it ends in the state that its program by itself leads to.\<close>

lemma finishes:
  assumes "i < length ps"
  shows "\<exists>n. turns (replicate n i) (s, ps) = (snd (run_prog (ps ! i) s), ps[i := Ret (fst (run_prog (ps ! i) s))])"
proof -
  have "\<exists>n. turns (replicate n i) (s, ps) = (snd (run_prog p s), ps[i := Ret (fst (run_prog p s))])" if "ps ! i = p" "i < length ps" for p
    using that
  proof (induction p arbitrary: s ps)
    case (Ret a)
    then have "turns (replicate 0 i) (s, ps) = (snd (run_prog (Ret a) s), ps[i := Ret (fst (run_prog (Ret a) s))])"
      using list_update_id [of ps i] by simp
    then show ?case by blast
  next
    case (Act f)
    obtain p s' where f: "f s = (p, s')" by fastforce
    have "(p, s') \<in> range f" using f by (metis rangeI)
    then obtain n where "turns (replicate n i) (s', ps[i := p]) =
        (snd (run_prog p s'), (ps[i := p])[i := Ret (fst (run_prog p s'))])"
      using Act.IH [of "(p, s')" p "ps[i := p]" s'] Act.prems by auto
    then have "turns (replicate (Suc n) i) (s, ps) = (snd (run_prog (Act f) s), ps[i := Ret (fst (run_prog (Act f) s))])"
      using f Act.prems by simp
    then show ?case by blast
  qed
  then show ?thesis using assms by blast
qed

text \<open>A round in which every goroutine runs one section.\<close>

lemma round:
  assumes "J s" and sec: "\<And>q s. q \<in> set qs \<Longrightarrow> J s \<Longrightarrow> \<exists>f. P q = Act f \<and> Q q (fst (f s)) \<and> J (snd (f s))"
  shows "\<exists>s' ps. J s' \<and> list_all2 Q qs ps \<and> (tick S)\<^sup>*\<^sup>* (s, map P qs) (s', ps)"
proof -
  have "\<exists>s' ps. J s' \<and> list_all2 Q (take m qs) ps \<and> (tick S)\<^sup>*\<^sup>* (s, map P qs) (s', ps @ map P (drop m qs))"
    if "m \<le> length qs" for m
    using that
  proof (induction m)
    case 0
    then show ?case using assms(1) by (intro exI [of _ s] exI [of _ "[]"]) simp
  next
    case (Suc m)
    then obtain s1 ps where ih: "J s1" "list_all2 Q (take m qs) ps"
      "(tick S)\<^sup>*\<^sup>* (s, map P qs) (s1, ps @ map P (drop m qs))" by auto
    have len: "length ps = m" using list_all2_lengthD [OF ih(2)] Suc.prems by simp
    have d: "drop m qs = qs ! m # drop (Suc m) qs" using Suc.prems by (simp add: Cons_nth_drop_Suc)
    obtain f where f: "P (qs ! m) = Act f" "Q (qs ! m) (fst (f s1))" "J (snd (f s1))"
      using sec [of "qs ! m" s1] ih(1) Suc.prems by auto
    have "tick S (s1, ps @ map P (drop m qs)) (snd (f s1), (ps @ map P (drop m qs))[m := fst (f s1)])"
      by (rule run_sect [of _ _ f]) (use len d f in \<open>auto simp: nth_append\<close>)
    then have "tick S (s1, ps @ map P (drop m qs)) (snd (f s1), (ps @ [fst (f s1)]) @ map P (drop (Suc m) qs))"
      using len d list_update_length [of ps "P (qs ! m)"] by simp
    moreover have "list_all2 Q (take (Suc m) qs) (ps @ [fst (f s1)])"
      using ih(2) f(2) Suc.prems by (simp add: take_Suc_conv_app_nth list_all2_appendI)
    ultimately show ?case using ih(3) f(3) by (meson rtranclp.rtrancl_into_rtrancl)
  qed
  from this [of "length qs"] show ?thesis by simp
qed

section \<open>Invariants\<close>

text \<open>A program all of whose sections keep a predicate, whatever happens between them.\<close>

inductive safe :: "('s \<Rightarrow> bool) \<Rightarrow> ('s, 'a) prog \<Rightarrow> bool" for J where
  safe_Ret: "safe J (Ret a)"
| safe_Act: "(\<And>s. J s \<Longrightarrow> J (snd (f s)) \<and> safe J (fst (f s))) \<Longrightarrow> safe J (Act f)"

inductive_simps safe_Act_iff: "safe J (Act f)"

lemma safe_bindp: "safe J p \<Longrightarrow> (\<And>a. safe J (k a)) \<Longrightarrow> safe J (bindp p k)"
  by (induction rule: safe.induct) (auto intro!: safe_Act)

lemma safe_sect: "(\<And>s. J s \<Longrightarrow> J (snd (f s))) \<Longrightarrow> safe J (sect f)"
  unfolding sect_def by (rule safe_Act) (auto simp: case_prod_beta intro: safe_Ret)

lemma safe_sect_then:
  "(\<And>s. J s \<Longrightarrow> J (snd (f s)) \<and> safe J (k (fst (f s)))) \<Longrightarrow> safe J (bindp (sect f) k)"
  unfolding bindp_sect by (rule safe_Act) auto

lemma safe_each: "(\<And>x. safe J (f x)) \<Longrightarrow> safe J (each f xs)"
  by (induction xs) (auto intro: safe_Ret safe_bindp)

lemma safe_void: "safe J p \<Longrightarrow> safe J (void p)"
  unfolding void_def by (intro safe_bindp safe_Ret)

lemmas safe_intros = safe_Ret safe_bindp safe_each safe_void

text \<open>The contract of a set of operations that share a state: their sections keep its invariant.\<close>

locale shared =
  fixes S :: "('s, 'a) prog set"
    and J :: "'s \<Rightarrow> bool"
  assumes sections: "p \<in> S \<Longrightarrow> safe J p"
begin

lemma ticks_keep:
  assumes "(tick S)\<^sup>*\<^sup>* c c'" "J (fst c)" "\<forall>p \<in> set (snd c). safe J p"
  shows "J (fst c') \<and> (\<forall>p \<in> set (snd c'). safe J p)"
  using assms
proof (induction rule: rtranclp_induct)
  case (step c1 c2)
  then have ih: "J (fst c1)" "\<forall>p \<in> set (snd c1). safe J p" by auto
  from step.hyps(2) show ?case
  proof cases
    case (begin_op p s ps)
    then show ?thesis using ih sections by auto
  next
    case (run_sect i ps f s p s')
    then have "safe J (Act f)" using ih by (metis nth_mem snd_conv)
    moreover have "J s" using ih run_sect by simp
    ultimately have "J (snd (f s))" "safe J (fst (f s))" by (auto simp: safe_Act_iff)
    then have "J s'" "safe J p" using run_sect by simp_all
    then show ?thesis using ih run_sect set_update_subset_insert [of ps i p] by auto
  qed
qed simp

lemma always:
  assumes "(tick S)\<^sup>*\<^sup>* (s, []) (s', ps)" "J s"
  shows "J s'"
  using ticks_keep [OF assms(1)] assms(2) by simp

end

end
