(* ===== verification/WebRaces.thy ===== *)
theory WebRaces
  imports WebAccess Threads
begin

text \<open>
  Signing in on several goroutines at once: the handlers of \<open>auth.go\<close>, \<open>setup.go\<close> and \<open>password.go\<close> that
  take a password, cut at their locks and statements.
\<close>

type_synonym 'w handler_sec = "request \<Rightarrow> ('w server, reply) prog"

section \<open>The sections of a handler\<close>

definition login_refused :: "'w web \<Rightarrow> 'w handler_sec" where
  "login_refused e q =
     bindp (sect (\<lambda>s. ((), throttle_failed e (clientIP q) s))) (\<lambda>_.
     sect (render e q (Some 401) ''login'' ''Sign in'' (LoginData ''Incorrect password.'')))"

definition login_granted :: "'w web \<Rightarrow> 'w handler_sec" where
  "login_granted e q =
     bindp (sect (srv_grant e)) (\<lambda>r.
     case r of Inl err \<Rightarrow> login_refused e q
     | Inr token \<Rightarrow> bindp (sect (\<lambda>s. ((), throttle_cleared (clientIP q) s))) (\<lambda>_.
         Ret (setSession e q token (see_other ''/''))))"

text \<open>The comparison takes no lock: bcrypt runs between the check of the throttle and the count of the failure.\<close>

definition login_compare :: "'w web \<Rightarrow> 'w handler_sec" where
  "login_compare e q =
     bindp (sect (\<lambda>s. (password_matches e (rq_form q ''password'') s, s))) (\<lambda>ok.
     if ok then login_granted e q else login_refused e q)"

definition login_sec :: "'w web \<Rightarrow> 'w handler_sec" where
  "login_sec e q =
     bindp (sect (throttle_check e (clientIP q))) (\<lambda>wait.
     case wait of
       Some wait \<Rightarrow> sect (\<lambda>s. case render e q (Some 429) ''login'' ''Sign in''
            (LoginData ''Too many attempts. Wait a minute and try again.'') s of
          (r, s2) \<Rightarrow> (r\<lparr>an_headers := [(''Retry-After'', dec_int (quot wait Second + 1))]\<rparr>, s2))
     | None \<Rightarrow> login_compare e q)"

definition setup_sec :: "'w web \<Rightarrow> 'w handler_sec" where
  "setup_sec e q =
     bindp (sect (\<lambda>s. (needs_setup e s, s))) (\<lambda>open_to_all.
     if \<not> open_to_all then Ret (see_other ''/login'')
     else if rq_form q ''password'' \<noteq> rq_form q ''confirm''
     then sect (setupError e q ''Those passwords do not match.'')
     else bindp (sect (set_password e (rq_form q ''password''))) (\<lambda>r.
       case r of Inl err \<Rightarrow> sect (setupError e q err)
       | Inr _ \<Rightarrow> bindp (sect (srv_grant e)) (\<lambda>r.
           case r of Inl err \<Rightarrow> sect (web_fail err)
           | Inr token \<Rightarrow> Ret (setSession e q token (see_other ''/'')))))"

definition change_rest_sec :: "'w web \<Rightarrow> 'w handler_sec" where
  "change_rest_sec e q =
     (if rq_form q ''password'' \<noteq> rq_form q ''confirm''
      then sect (passwordError e q ''Those passwords do not match.'')
      else bindp (sect (set_password e (rq_form q ''password''))) (\<lambda>r.
        case r of Inl err \<Rightarrow> sect (passwordError e q err)
        | Inr _ \<Rightarrow>
            bindp (sect (\<lambda>s. ((), s\<lparr>v_tokens := RevokeAll (v_tokens s)\<rparr>))) (\<lambda>_.
            bindp (sect (srv_grant e)) (\<lambda>r.
            case r of Inl err \<Rightarrow> sect (web_fail err)
            | Inr token \<Rightarrow>
                bindp (sect (render e q None ''password'' ''Password'' (PasswordData False [] True))) (\<lambda>r.
                Ret (setSession e q token r))))))"

definition change_sec :: "'w web \<Rightarrow> 'w handler_sec" where
  "change_sec e q =
     (if pinned e
      then sect (passwordError e q ''The admin password comes from ADMIN_PASSWORD_HASH. Change it there.'')
      else bindp (sect (throttle_check e (clientIP q))) (\<lambda>wait.
        if wait \<noteq> None then sect (passwordError e q ''Too many attempts. Wait a minute and try again.'')
        else bindp (sect (\<lambda>s. (password_matches e (rq_form q ''current'') s, s))) (\<lambda>ok.
          if \<not> ok
          then bindp (sect (\<lambda>s. ((), throttle_failed e (clientIP q) s))) (\<lambda>_.
               sect (passwordError e q ''That is not the current password.''))
          else bindp (sect (\<lambda>s. ((), throttle_cleared (clientIP q) s))) (\<lambda>_. change_rest_sec e q))))"

lemma login_sec_alone: "run_prog (login_sec e q) s = login e q s"
  by (simp add: login_sec_def login_def login_compare_def login_granted_def login_refused_def Let_def case_prod_beta
      split: option.split sum.split)

lemma setup_sec_alone: "run_prog (setup_sec e q) s = do_setup e q s"
  by (simp add: setup_sec_def do_setup_def setup_rest_def Let_def case_prod_beta split: sum.split)

lemma change_sec_alone: "run_prog (change_sec e q) s = changePassword e q s"
  by (simp add: change_sec_def change_rest_sec_def changePassword_def change_rest_def Let_def case_prod_beta
      split: sum.split)

section \<open>Passwords tried at once\<close>

text \<open>No failure of the address has been counted.\<close>

definition unthrottled :: "string \<Rightarrow> 'w server \<Rightarrow> bool" where
  "unthrottled ip s \<longleftrightarrow> v_attempts s ip = None"

lemma throttle_lets_pass:
  assumes "unthrottled ip s"
  shows "fst (throttle_check e ip s) = None" "unthrottled ip (snd (throttle_check e ip s))"
    "v_store (snd (throttle_check e ip s)) = v_store s"
proof -
  have "v_attempts (snd (clock e s)) = v_attempts s"
    by (simp add: clock_def v_world_def case_prod_beta)
  then have "pruneAttempts now (v_attempts (snd (clock e s))) ip = None" for now
    using assms by (simp add: unthrottled_def pruneAttempts_def)
  then show "fst (throttle_check e ip s) = None" "unthrottled ip (snd (throttle_check e ip s))"
    by (simp_all add: throttle_check_def case_prod_beta Let_def unthrottled_def)
  show "v_store (snd (throttle_check e ip s)) = v_store s" by (rule throttle_frames(2))
qed

text \<open>C21: The throttle counts a failure only after the password has been compared, so it does not bound how many
  passwords are compared at once: any number of wrong passwords sent together from one address can each be let
  through and answered as incorrect, none as one of too many.\<close>

theorem parallel_logins_all_compared:
  assumes "unthrottled ip s"
    and "\<forall>q \<in> set qs. clientIP q = ip \<and> \<not> password_matches e (rq_form q ''password'') s"
  shows "\<exists>s' rs. (tick (range (login_sec e)))\<^sup>*\<^sup>* (s, []) (s', map Ret rs) \<and> length rs = length qs \<and>
    list_all (\<lambda>r. an_code r = 401) rs"
proof -
  let ?S = "range (login_sec e)"
  let ?J = "\<lambda>t. unthrottled ip t \<and> v_store t = v_store s"
  have wrong: "\<not> password_matches e (rq_form q ''password'') t" if "q \<in> set qs" "v_store t = v_store s" for q t
    using that assms(2) by (simp add: password_matches_def)
  have r0: "(tick ?S)\<^sup>*\<^sup>* (s, []) (s, map (login_sec e) qs)" by (rule begin_ticks) auto
  obtain s1 ps1 where r1: "?J s1" "list_all2 (\<lambda>q p. p = login_compare e q) qs ps1"
    "(tick ?S)\<^sup>*\<^sup>* (s, map (login_sec e) qs) (s1, ps1)"
    using round [of ?J s qs "login_sec e" "\<lambda>q p. p = login_compare e q" ?S] assms throttle_lets_pass [of ip _ e]
    by (fastforce simp: login_sec_def bindp_sect)
  then have p1: "ps1 = map (login_compare e) qs" by (simp add: list_all2_conv_all_nth list_eq_iff_nth_eq)
  obtain s2 ps2 where r2: "?J s2" "list_all2 (\<lambda>q p. p = login_refused e q) qs ps2"
    "(tick ?S)\<^sup>*\<^sup>* (s1, map (login_compare e) qs) (s2, ps2)"
    using round [of ?J s1 qs "login_compare e" "\<lambda>q p. p = login_refused e q" ?S] r1(1) wrong
    by (fastforce simp: login_compare_def bindp_sect)
  then have p2: "ps2 = map (login_refused e) qs" by (simp add: list_all2_conv_all_nth list_eq_iff_nth_eq)
  let ?answer = "\<lambda>q. sect (render e q (Some 401) ''login'' ''Sign in'' (LoginData ''Incorrect password.''))"
  obtain s3 ps3 where r3: "list_all2 (\<lambda>q p. p = ?answer q) qs ps3" "(tick ?S)\<^sup>*\<^sup>* (s2, map (login_refused e) qs) (s3, ps3)"
    using round [of "\<lambda>_. True" s2 qs "login_refused e" "\<lambda>q p. p = ?answer q" ?S] by (auto simp: login_refused_def bindp_sect)
  then have p3: "ps3 = map ?answer qs" by (simp add: list_all2_conv_all_nth list_eq_iff_nth_eq)
  obtain s4 ps4 where r4: "list_all2 (\<lambda>q p. \<exists>r. p = Ret r \<and> an_code r = 401) qs ps4" "(tick ?S)\<^sup>*\<^sup>* (s3, map ?answer qs) (s4, ps4)"
    using round [of "\<lambda>_. True" s3 qs ?answer "\<lambda>q p. \<exists>r. p = Ret r \<and> an_code r = 401" ?S]
    by (auto simp: sect_def case_prod_beta render_code)
  obtain rs where "ps4 = map Ret rs" "list_all (\<lambda>r. an_code r = 401) rs" "length rs = length qs"
  proof
    let ?rs = "map (\<lambda>p. case p of Ret r \<Rightarrow> r) ps4"
    show "ps4 = map Ret ?rs" "list_all (\<lambda>r. an_code r = 401) ?rs" "length ?rs = length qs"
      using r4(1) by (auto simp: list_all2_conv_all_nth list_all_length list_eq_iff_nth_eq)
  qed
  then show ?thesis using r0 r1(3) r2(3) r3(2) r4(2) unfolding p1 p2 p3 by (metis (no_types, lifting) rtranclp_trans)
qed

text \<open>Twelve guesses that arrive together.\<close>

definition guess :: request where
  "guess = demo_request ''POST'' [''login''] (\<lambda>_. ''wrong-guess'')"

theorem parallel_logins_all_compared_witness:
  "\<exists>s' rs. (tick (range (login_sec demo_web)))\<^sup>*\<^sup>* (demo_set_up, []) (s', map Ret rs) \<and> length rs = 12 \<and>
    list_all (\<lambda>r. an_code r = 401) rs"
proof -
  have "\<not> password_matches demo_web (rq_form guess ''password'') demo_set_up" by code_simp
  then have "\<forall>q \<in> set (replicate 12 guess). clientIP q = clientIP guess \<and>
      \<not> password_matches demo_web (rq_form q ''password'') demo_set_up" by (metis in_set_replicate)
  moreover have "unthrottled (clientIP guess) demo_set_up" by code_simp
  ultimately show ?thesis using parallel_logins_all_compared by (metis length_replicate)
qed

section \<open>Who gets in\<close>

text \<open>
  What requests of someone who does not know the password may run, with whatever else the program does
  that leaves the sessions and the stored password alone; \<open>h\<close> is the hash in force.
\<close>

definition known_hash :: "'w web \<Rightarrow> 'w server \<Rightarrow> string" where
  "known_hash e s = cred_Hash (w_envHash e) (Some (v_store s))"

definition keeps_access :: "'w web \<Rightarrow> ('w, 'a) web_act \<Rightarrow> bool" where
  "keeps_access e f \<longleftrightarrow> (\<forall>s. known_hash e (snd (f s)) = known_hash e s \<and> v_tokens (snd (f s)) = v_tokens s)"

definition outsiders :: "'w web \<Rightarrow> string \<Rightarrow> ('w server, reply) prog set" where
  "outsiders e h = {login_sec e q | q. \<not> w_compare e h (rq_form q ''password'')}
     \<union> {change_sec e q | q. \<not> w_compare e h (rq_form q ''current'')}
     \<union> range (setup_sec e) \<union> range (\<lambda>q. sect (logout q)) \<union> {sect f | f. keeps_access e f}"

definition shut :: "'w web \<Rightarrow> string \<Rightarrow> tokens \<Rightarrow> 'w server \<Rightarrow> bool" where
  "shut e h T s \<longleftrightarrow> h \<noteq> [] \<and> known_hash e s = h \<and> v_tokens s \<subseteq>\<^sub>m T"

lemma access_frames:
  "keeps_access e (throttle_check e' ip)" "keeps_access e (\<lambda>s. ((), throttle_failed e' ip s))"
  "keeps_access e (\<lambda>s. ((), throttle_cleared ip s))" "keeps_access e (render e' q wrote page title d)"
  "keeps_access e (setupError e' q m)" "keeps_access e (passwordError e' q m)" "keeps_access e (web_fail m)"
  by (simp_all add: keeps_access_def known_hash_def throttle_frames tokens_frames tokens_fail setupError_def passwordError_def
      store_core [OF v_core_render] web_fail_def slog_def v_store_def [of "s\<lparr>v_log := l\<rparr>" for s l] v_store_def [symmetric])

lemma safe_keeps: "keeps_access e f \<Longrightarrow> safe (shut e h T) (sect f)"
  by (rule safe_sect) (simp add: keeps_access_def shut_def)

lemma safe_keeps_then:
  "keeps_access e f \<Longrightarrow> (\<And>a. safe (shut e h T) (k a)) \<Longrightarrow> safe (shut e h T) (bindp (sect f) k)"
  by (rule safe_bindp [OF safe_keeps])

lemma shut_matches: "shut e h T s \<Longrightarrow> password_matches e p s \<Longrightarrow> w_compare e h p"
  by (simp add: shut_def known_hash_def password_matches_def cred_Matches_def Let_def)

lemma shut_set_up: "shut e h T s \<Longrightarrow> \<not> needs_setup e s"
  by (simp add: shut_def known_hash_def needs_setup_def NeedsSetup_def)

lemma safe_refused: "safe (shut e h T) (login_refused e q)"
  unfolding login_refused_def by (intro safe_keeps_then safe_keeps access_frames)

lemma safe_outsider:
  assumes "p \<in> outsiders e h"
  shows "safe (shut e h T) p"
proof -
  have l: "safe (shut e h T) (login_sec e q)" if "\<not> w_compare e h (rq_form q ''password'')" for q
  proof -
    have "safe (shut e h T) (login_compare e q)" unfolding login_compare_def
      by (rule safe_sect_then) (use that safe_refused in \<open>auto dest: shut_matches\<close>)
    moreover have "keeps_access e (\<lambda>s. case render e q (Some 429) ''login'' ''Sign in''
            (LoginData ''Too many attempts. Wait a minute and try again.'') s of
          (r, s2) \<Rightarrow> (g r, s2))" for g :: "reply \<Rightarrow> reply"
      using access_frames(4) [of e e q "Some 429"] by (simp add: keeps_access_def case_prod_beta)
    ultimately show ?thesis unfolding login_sec_def
      by (intro safe_keeps_then access_frames) (auto intro: safe_keeps split: option.split)
  qed
  have c: "safe (shut e h T) (change_sec e q)" if "\<not> w_compare e h (rq_form q ''current'')" for q
  proof -
    have "safe (shut e h T) (bindp (sect (\<lambda>s. (password_matches e (rq_form q ''current'') s, s))) (\<lambda>ok.
          if \<not> ok
          then bindp (sect (\<lambda>s. ((), throttle_failed e (clientIP q) s))) (\<lambda>_.
               sect (passwordError e q ''That is not the current password.''))
          else bindp (sect (\<lambda>s. ((), throttle_cleared (clientIP q) s))) (\<lambda>_. change_rest_sec e q)))"
      by (rule safe_sect_then)
        (use that in \<open>auto dest: shut_matches intro!: safe_keeps_then safe_keeps access_frames\<close>)
    then show ?thesis unfolding change_sec_def
      by (auto intro!: safe_keeps_then safe_keeps access_frames)
  qed
  have s: "safe (shut e h T) (setup_sec e q)" for q
    unfolding setup_sec_def by (rule safe_sect_then) (auto dest: shut_set_up intro: safe_Ret)
  have o: "safe (shut e h T) (sect (logout q))" for q :: request
    by (rule safe_sect)
      (auto simp: logout_def shut_def known_hash_def v_store_def token_Logout_def map_le_def split: option.split)
  show ?thesis using assms l c s o safe_keeps by (auto simp: outsiders_def)
qed

interpretation door: shared "outsiders e h" "shut e h T" for e :: "'w web" and h T
  by unfold_locales (rule safe_outsider)

text \<open>C7: While a password is set, nobody gets in without it: whatever requests to sign in, set up, change the
  password or sign out come from those who do not know it, in any number at once and however their sections
  interleave with each other and with the rest of the program, no session is opened and the stored password
  stays.\<close>

theorem outsiders_stay_out:
  assumes "(tick (outsiders e (known_hash e s0)))\<^sup>*\<^sup>* (s0, []) (s, ps)" "known_hash e s0 \<noteq> []"
  shows "known_hash e s = known_hash e s0 \<and> v_tokens s \<subseteq>\<^sub>m v_tokens s0"
proof -
  have "shut e (known_hash e s0) (v_tokens s0) s0" using assms(2) by (simp add: shut_def)
  from door.always [OF assms(1) this] show ?thesis by (simp add: shut_def)
qed

theorem outsiders_stay_out_witness:
  "v_tokens (fst (turns [0, 1, 0, 1, 0, 1, 0, 1] (demo_set_up, [login_sec demo_web guess, setup_sec demo_web guess])))
     \<subseteq>\<^sub>m v_tokens demo_set_up"
proof -
  let ?S = "outsiders demo_web (known_hash demo_web demo_set_up)"
    and ?ps = "[login_sec demo_web guess, setup_sec demo_web guess]"
  have "known_hash demo_web demo_set_up = ''#sesame-sesame''" by code_simp
  then have "\<not> w_compare demo_web (known_hash demo_web demo_set_up) (rq_form guess ''password'')"
    by (simp add: demo_web_def guess_def demo_request_def)
  then have "login_sec demo_web guess \<in> ?S" unfolding outsiders_def by blast
  moreover have "setup_sec demo_web guess \<in> ?S" unfolding outsiders_def by blast
  ultimately have "set ?ps \<subseteq> ?S" by simp
  from begin_ticks [OF this] turns_ticks [of ?S "(demo_set_up, ?ps)"]
  have "(tick ?S)\<^sup>*\<^sup>* (demo_set_up, []) (turns [0, 1, 0, 1, 0, 1, 0, 1] (demo_set_up, ?ps))"
    by (rule rtranclp_trans)
  moreover have "known_hash demo_web demo_set_up \<noteq> []" by code_simp
  ultimately show ?thesis
    using outsiders_stay_out [of demo_web demo_set_up] by (metis prod.collapse)
qed

section \<open>A login that a change of the password does not catch\<close>

text \<open>The random bytes differ with the time.\<close>

definition race_web :: "int web" where
  "race_web = demo_web\<lparr>w_rand := (\<lambda>k n w. Inr (replicate n (if w < 107 * Second then CHR ''A'' else CHR ''B'')))\<rparr>"

definition race_set_up :: "int server" where
  "race_set_up = snd (do_setup race_web (demo_request ''POST'' [''setup''] (\<lambda>_. ''sesame-sesame'')) demo_server)"

text \<open>
  A login has been compared with the old password when the password is changed and every session is
  dropped; then it goes on.
\<close>

lemma login_overtaken_by_change:
  assumes "fst (throttle_check e (clientIP q) s) = None"
    and s1: "s1 = snd (throttle_check e (clientIP q) s)"
    and "password_matches e (rq_form q ''password'') s1" "changePassword e q' s1 = (r', s2)"
    and "run_prog (login_granted e q) s2 = (r, s3)"
  shows "(tick (range (login_sec e) \<union> range (change_sec e)))\<^sup>*\<^sup>* (s, []) (s3, [Ret r, Ret r'])"
proof -
  let ?S = "range (login_sec e) \<union> range (change_sec e)"
  have "(tick ?S)\<^sup>*\<^sup>* (s, []) (s, [login_sec e q, change_sec e q'])" by (rule begin_ticks) auto
  also have "turns [0, 0] (s, [login_sec e q, change_sec e q']) = (s1, [login_granted e q, change_sec e q'])"
    using assms by (simp add: login_sec_def login_compare_def bindp_sect)
  then have "(tick ?S)\<^sup>*\<^sup>* (s, [login_sec e q, change_sec e q']) (s1, [login_granted e q, change_sec e q'])"
    by (metis turns_ticks)
  also obtain n where "turns (replicate n 1) (s1, [login_granted e q, change_sec e q']) = (s2, [login_granted e q, Ret r'])"
    using finishes [of 1 "[login_granted e q, change_sec e q']" s1] assms(4) by (auto simp: change_sec_alone)
  then have "(tick ?S)\<^sup>*\<^sup>* (s1, [login_granted e q, change_sec e q']) (s2, [login_granted e q, Ret r'])"
    by (metis turns_ticks)
  also obtain n where "turns (replicate n 0) (s2, [login_granted e q, Ret r']) = (s3, [Ret r, Ret r'])"
    using finishes [of 0 "[login_granted e q, Ret r']" s2] assms(5) by auto
  then have "(tick ?S)\<^sup>*\<^sup>* (s2, [login_granted e q, Ret r']) (s3, [Ret r, Ret r'])" by (metis turns_ticks)
  finally show ?thesis .
qed

definition old_login :: request where
  "old_login = demo_request ''POST'' [''login''] (\<lambda>_. ''sesame-sesame'')"

definition change_now :: request where
  "change_now = demo_request ''POST'' [''password''] (\<lambda>f. if f = ''current'' then ''sesame-sesame'' else ''another-sesame'')"

text \<open>The comment on \<open>changePassword\<close> says that every other session is dropped; the one that a login with the
  old password is about to open is not.\<close>

lemma old_password_session_survives:
  "\<exists>s r0 r1 c0. (tick (range (login_sec race_web) \<union> range (change_sec race_web)))\<^sup>*\<^sup>* (race_set_up, []) (s, [Ret r0, Ret r1]) \<and>
     an_code r1 = 200 \<and> \<not> password_matches race_web ''sesame-sesame'' s \<and>
     an_cookie r0 = Some c0 \<and> an_cookie r1 \<noteq> Some c0 \<and> v_tokens s (ck_value c0) \<noteq> None"
proof -
  let ?t = "throttle_check race_web (clientIP old_login) race_set_up"
  let ?c = "changePassword race_web change_now (snd ?t)"
  let ?g = "srv_grant race_web (snd ?c)"
  let ?e = "throttle_cleared (clientIP old_login) (snd ?g)"
  have pass: "fst ?t = None" by code_simp
  have old: "password_matches race_web (rq_form old_login ''password'') (snd ?t)" by code_simp
  have "case ?c of (r, s) \<Rightarrow> an_code r = 200 \<and> \<not> password_matches race_web ''sesame-sesame'' s \<and>
      (case srv_grant race_web s of (Inr tk, _) \<Rightarrow> map_option ck_value (an_cookie r) \<noteq> Some tk | (Inl _, _) \<Rightarrow> False)"
    by code_simp
  then have code: "an_code (fst ?c) = 200" and new: "\<not> password_matches race_web ''sesame-sesame'' (snd ?c)"
    and "case fst ?g of Inr tk \<Rightarrow> map_option ck_value (an_cookie (fst ?c)) \<noteq> Some tk | Inl _ \<Rightarrow> False"
    unfolding case_prod_unfold by blast+
  then obtain tk where tk: "?g = (Inr tk, snd ?g)" "map_option ck_value (an_cookie (fst ?c)) \<noteq> Some tk"
    by (cases "fst ?g") (auto simp: prod_eq_iff)
  have run: "run_prog (login_granted race_web old_login) (snd ?c) = (setSession race_web old_login tk (see_other ''/''), ?e)"
    by (subst login_granted_def) (simp add: tk(1) [THEN arg_cong, of fst, simplified] case_prod_beta)
  have "v_store ?e = v_store (snd ?c)" using srv_grant_Inr(2) [OF tk(1)] by (simp add: throttle_frames)
  then have "\<not> password_matches race_web ''sesame-sesame'' ?e" using new by (simp add: password_matches_def)
  moreover have "v_tokens ?e tk \<noteq> None" using srv_grant_Inr(1) [OF tk(1)] by (auto simp: throttle_frames)
  ultimately show ?thesis
    using login_overtaken_by_change [OF pass refl old prod.collapse [symmetric] run] code tk(2)
    by (intro exI) (auto simp: setSession_def)
qed

end
