(* ===== verification/Startup.thy ===== *)
theory Startup
  imports WebProps Migrate Supervise
begin

text \<open>
  The pieces of \<open>cmd/tsv-vpn\<close> that decide something: the daemons it supervises and what a line of
  theirs causes, joining the tailnet, the names the log buffer files lines under, and the two
  subcommands for the admin password (\<open>main.go\<close>, \<open>hash.go\<close>).
\<close>

section \<open>Starting\<close>

text \<open>\<open>getenv\<close> gives the empty string for a variable that is not set.\<close>

definition env_or :: "(string \<Rightarrow> string) \<Rightarrow> string \<Rightarrow> string \<Rightarrow> string" where
  "env_or getenv name fallback = (if getenv name \<noteq> [] then getenv name else fallback)"

definition connectionNames :: "store \<Rightarrow> string list" where
  "connectionNames st = (case ListConnections st of Inl _ \<Rightarrow> [] | Inr conns \<Rightarrow> map c_name conns)"

definition daemons :: "string \<Rightarrow> string \<Rightarrow> process list" where
  "daemons stateDir runDir =
     [\<lparr>p_name = ''tailscaled'', p_path = ''tailscaled'',
       p_args = [''--state='' @ path_join stateDir ''tailscaled.state'', ''--socket='' @ DefaultSocket, ''--port=41641''],
       p_env = []\<rparr>,
      \<lparr>p_name = ''charon'', p_path = ''/usr/lib/ipsec/charon'', p_args = [], p_env = []\<rparr>,
      \<lparr>p_name = ''xl2tpd'', p_path = ''xl2tpd'',
       p_args = [''-D'', ''-c'', path_join runDir ''xl2tpd.conf'', ''-C'', path_join runDir ''l2tp-control''],
       p_env = []\<rparr>]"

text \<open>\<open>wait\<close> is the result of waiting for tailscaled's socket.\<close>

definition joinTailnet ::
  "(dberr \<Rightarrow> string) \<Rightarrow> 'w runner \<Rightarrow> tail_client \<Rightarrow> string \<Rightarrow> string \<Rightarrow> string option \<Rightarrow> store \<Rightarrow> 'w \<Rightarrow> (string + unit) \<times> 'w" where
  "joinTailnet text_of run client hostname authKey wait st w =
     (case wait of
        Some err \<Rightarrow> (Inl err, w)
      | None \<Rightarrow> (case AdvertisedRoutes st of
          Inl err \<Rightarrow> (Inl (text_of err), w)
        | Inr routes \<Rightarrow> (case ExitNode st of
            Inl err \<Rightarrow> (Inl (text_of err), w)
          | Inr exitNode \<Rightarrow> run_unit run (Up client hostname authKey routes exitNode) w)))"

section \<open>Passwords on the command line\<close>

definition hashPassword :: "(string \<Rightarrow> string + string) \<Rightarrow> string list \<Rightarrow> string + string \<Rightarrow> string + string" where
  "hashPassword bcrypt args stdin =
     bindr (case args of p # _ \<Rightarrow> Inr p | [] \<Rightarrow> bindr stdin (\<lambda>r. Inr (TrimRight r [CHR 0x0D, CHR 0x0A]))) (\<lambda>password.
       if password = [] then Inl ''usage: tsv-vpn hash-password <password>, or pipe the password on stdin''
       else bindr (bcrypt password) (\<lambda>hash. Inr (hash @ [CHR 0x0A])))"

text \<open>\<open>file\<close> is the content of the key file, \<open>opened\<close> what opening the database with a cipher gives.\<close>

definition resetPassword ::
  "(crypto_err \<Rightarrow> string) \<Rightarrow> (dberr \<Rightarrow> string) \<Rightarrow> (string \<Rightarrow> aead) \<Rightarrow> string + string \<Rightarrow> (aead \<Rightarrow> string + store) \<Rightarrow>
   string + store" where
  "resetPassword c_text d_text gcm file opened =
     (case LoadKey file of
        Inl err \<Rightarrow> Inl (c_text err)
      | Inr key \<Rightarrow> (case crypto_New gcm key of
          Inl err \<Rightarrow> Inl (c_text err)
        | Inr box \<Rightarrow> (case opened box of
            Inl err \<Rightarrow> Inl err
          | Inr st \<Rightarrow> (case cred_Clear d_text (Some st) of
              (Inl err, _) \<Rightarrow> Inl err
            | (Inr _, db) \<Rightarrow> Inr (the db)))))"

text \<open>A reset puts the web server back in setup mode, and leaves every other setting.\<close>

lemma reset_reopens_setup:
  assumes "resetPassword c_text d_text gcm file opened = Inr st'"
  shows "NeedsSetup [] (Some st')"
    and "\<exists>box st. opened box = Inr st \<and> (\<forall>name. name \<noteq> passwordSetting \<longrightarrow> Setting name st' = Setting name st)"
proof -
  obtain box st where o: "opened box = Inr st" "cred_Clear d_text (Some st) = (Inr (), Some st')"
    using assms by (auto simp: resetPassword_def cred_Clear_def split: sum.splits prod.splits)
  then have st': "st' = st\<lparr>tsettings := row_del g_name passwordSetting (tsettings st)\<rparr>"
    by (auto simp: cred_Clear_def DeleteSetting_def exec_def split: sum.splits prod.splits option.splits)
  have gone: "row_sel g_name passwordSetting (row_del g_name passwordSetting t) = None" for t
    by (induction t) (auto simp: row_sel_def row_del_def)
  have kept: "name \<noteq> passwordSetting \<Longrightarrow> row_sel g_name name (row_del g_name passwordSetting t) = row_sel g_name name t" for name t
    by (induction t) (auto simp: row_sel_def row_del_def)
  show "NeedsSetup [] (Some st')"
    by (simp add: NeedsSetup_def cred_Hash_def Setting_def query_def st' gone split: option.split)
  show "\<exists>box st. opened box = Inr st \<and> (\<forall>name. name \<noteq> passwordSetting \<longrightarrow> Setting name st' = Setting name st)"
    using o(1) by (intro exI[of _ box] exI[of _ st]) (simp add: Setting_def query_def st' kept)
qed

end
