(* ===== verification/Durations.thy ===== *)
theory Durations
  imports GoStrings GoTime
begin

text \<open>
  \<open>time.ParseDuration\<close>, which \<open>main.go\<close> applies to two variables of the environment.  The part after a
  decimal point is multiplied in floating point; \<open>frac f unit k\<close> is that product for the digits \<open>f\<close> of
  \<open>k\<close> decimal places.
\<close>

section \<open>Numbers\<close>

text \<open>\<open>leadingInt\<close> from the digits read so far; None is its overflow.\<close>

fun leadingInt :: "nat \<Rightarrow> string \<Rightarrow> (nat \<times> string) option" where
  "leadingInt x [] = Some (x, [])"
| "leadingInt x (c # s) =
     (if \<not> is_digit c then Some (x, c # s)
      else if 2 ^ 63 div 10 < x then None
      else if 2 ^ 63 < x * 10 + digit_val c then None
      else leadingInt (x * 10 + digit_val c) s)"

text \<open>\<open>leadingFraction\<close>: digits past the overflow are skipped; \<open>k\<close> counts the decimal places taken.\<close>

fun leadingFraction :: "nat \<Rightarrow> nat \<Rightarrow> bool \<Rightarrow> string \<Rightarrow> nat \<times> nat \<times> string" where
  "leadingFraction x k overflow [] = (x, k, [])"
| "leadingFraction x k overflow (c # s) =
     (if \<not> is_digit c then (x, k, c # s)
      else if overflow \<or> (2 ^ 63 - 1) div 10 < x \<or> 2 ^ 63 < x * 10 + digit_val c then leadingFraction x k True s
      else leadingFraction (x * 10 + digit_val c) (k + 1) False s)"

section \<open>Parts\<close>

definition unit_char :: "char \<Rightarrow> bool" where
  "unit_char c \<longleftrightarrow> c \<noteq> CHR ''.'' \<and> \<not> is_digit c"

text \<open>The two spellings of the micro sign are U+00B5 and U+03BC in UTF-8.\<close>

definition unitMap :: "string \<Rightarrow> nat option" where
  "unitMap u = map_of
     [(''ns'', 1), (''us'', 1000), ([CHR 0xC2, CHR 0xB5, CHR ''s''], 1000), ([CHR 0xCE, CHR 0xBC, CHR ''s''], 1000),
      (''ms'', 1000000), (''s'', 1000000000), (''m'', 60000000000), (''h'', 3600000000000)] u"

text \<open>One turn of the loop: the value of the number and its unit, in 64 bits, and the rest.\<close>

definition parse_part :: "(nat \<Rightarrow> nat \<Rightarrow> nat \<Rightarrow> nat) \<Rightarrow> string \<Rightarrow> (nat \<times> string) option" where
  "parse_part frac s =
     (if s = [] \<or> \<not> (hd s = CHR ''.'' \<or> is_digit (hd s)) then None
      else (case leadingInt 0 s of
        None \<Rightarrow> None
      | Some (v, s1) \<Rightarrow>
          (let pre = length s \<noteq> length s1;
               (f, k, s2, post) = (if s1 \<noteq> [] \<and> hd s1 = CHR ''.''
                 then (case leadingFraction 0 0 False (tl s1) of (f, k, s2) \<Rightarrow> (f, k, s2, length (tl s1) \<noteq> length s2))
                 else (0, 0, s1, False));
               u = takeWhile unit_char s2; rest = dropWhile unit_char s2
           in if \<not> pre \<and> \<not> post then None
              else if u = [] then None
              else (case unitMap u of
                None \<Rightarrow> None
              | Some unit \<Rightarrow>
                  if 2 ^ 63 div unit < v then None
                  else (let v' = (if 0 < f then (v * unit + frac f unit k) mod 2 ^ 64 else v * unit)
                    in if 0 < f \<and> 2 ^ 63 < v' then None else Some (v', rest))))))"

lemma leadingInt_shrinks: "leadingInt x s = Some (v, s1) \<Longrightarrow> length s1 \<le> length s"
  by (induction x s rule: leadingInt.induct) (auto split: if_splits)

lemma leadingFraction_shrinks: "leadingFraction x k b s = (f, n, s1) \<Longrightarrow> length s1 \<le> length s"
  by (induction x k b s rule: leadingFraction.induct) (fastforce split: if_splits)+

lemma parse_part_shrinks:
  assumes "parse_part frac s = Some (v, rest)"
  shows "length rest < length s"
proof -
  have unit: "length (dropWhile P s2) < length s2" if "takeWhile P s2 \<noteq> []" for P and s2 :: string
    using that length_append[of "takeWhile P s2" "dropWhile P s2"] by (simp del: length_append)
  show ?thesis using assms
    by (auto simp: parse_part_def Let_def split: if_splits option.splits prod.splits
        dest!: leadingInt_shrinks leadingFraction_shrinks unit)
qed

function parse_parts :: "(nat \<Rightarrow> nat \<Rightarrow> nat \<Rightarrow> nat) \<Rightarrow> nat \<Rightarrow> string \<Rightarrow> nat option" where
  "parse_parts frac d s =
     (if s = [] then Some d
      else (case parse_part frac s of
        None \<Rightarrow> None
      | Some (v, rest) \<Rightarrow>
          (let d' = (d + v) mod 2 ^ 64
           in if 2 ^ 63 < d' then None else parse_parts frac d' rest)))"
  by auto
termination
  by (relation "measure (\<lambda>(_, _, s). length s)") (auto dest: parse_part_shrinks)

declare parse_parts.simps [simp del]

definition ParseDuration :: "(nat \<Rightarrow> nat \<Rightarrow> nat \<Rightarrow> nat) \<Rightarrow> string \<Rightarrow> duration option" where
  "ParseDuration frac orig =
     (let sign = orig \<noteq> [] \<and> (hd orig = CHR ''-'' \<or> hd orig = CHR ''+'');
          neg = (sign \<and> hd orig = CHR ''-'');
          s = (if sign then tl orig else orig)
      in if s = ''0'' then Some 0
         else if s = [] then None
         else (case parse_parts frac 0 s of
             None \<Rightarrow> None
           | Some d \<Rightarrow> if neg then Some (- int d) else if 2 ^ 63 - 1 < d then None else Some (int d)))"

section \<open>What is read\<close>

lemma digits_grow: "x \<le> foldl (\<lambda>v c. v * 10 + digit_val c) x ds"
proof (induction ds arbitrary: x)
  case (Cons c ds)
  have "x \<le> x * 10 + digit_val c" by simp
  then show ?case using Cons[of "x * 10 + digit_val c"] by (simp del: mult_numeral_1)
qed simp

lemma leadingInt_digits:
  assumes "\<forall>c \<in> set ds. is_digit c" "foldl (\<lambda>v c. v * 10 + digit_val c) x ds \<le> 2 ^ 63"
    and "rest = [] \<or> \<not> is_digit (hd rest)"
  shows "leadingInt x (ds @ rest) = Some (foldl (\<lambda>v c. v * 10 + digit_val c) x ds, rest)"
  using assms
proof (induction ds arbitrary: x)
  case Nil
  then show ?case by (cases rest) auto
next
  case (Cons c ds)
  have le: "x * 10 + digit_val c \<le> 2 ^ 63"
    using digits_grow[of "x * 10 + digit_val c" ds] Cons.prems(2) by simp
  then have "\<not> 2 ^ 63 div 10 < x" by simp
  then show ?case using Cons le by simp
qed

lemma leadingInt_dec:
  assumes "n \<le> 2 ^ 63" "rest = [] \<or> \<not> is_digit (hd rest)"
  shows "leadingInt 0 (dec n @ rest) = Some (n, rest)"
  using leadingInt_digits[of "dec n" 0 rest] dec_digits assms digits_val_dec[of n] by (simp add: digits_val_def)

lemma unitMap_cases:
  assumes "unitMap u = Some unit"
  shows "u \<noteq> []" "\<forall>c \<in> set u. unit_char c" "1 \<le> unit"
  using assms by (auto simp: unitMap_def unit_char_def is_digit_def split: if_splits)

lemma takeWhile_unit:
  assumes "\<forall>c \<in> set u. unit_char c" "rest = [] \<or> \<not> unit_char (hd rest)"
  shows "takeWhile unit_char (u @ rest) = u" "dropWhile unit_char (u @ rest) = rest"
  using assms by (induction u) (auto split: list.split, (cases rest; simp)+)

lemma parse_part_print:
  assumes u: "unitMap u = Some unit" and n: "n * unit \<le> 2 ^ 63"
    and rest: "rest = [] \<or> is_digit (hd rest)"
  shows "parse_part frac (dec n @ u @ rest) = Some (n * unit, rest)"
proof -
  have hu: "u \<noteq> []" "unit_char (hd u)" using unitMap_cases[OF u] by auto
  then have nd: "\<not> is_digit (hd (u @ rest))" "hd (u @ rest) \<noteq> CHR ''.''" "u @ rest \<noteq> []"
    by (auto simp: unit_char_def)
  have "n \<le> 2 ^ 63" using n mult_le_mono2[OF unitMap_cases(3)[OF u], of n] by linarith
  then have l: "leadingInt 0 (dec n @ u @ rest) = Some (n, u @ rest)"
    using nd(1) by (intro leadingInt_dec) auto
  have hd: "is_digit (hd (dec n @ u @ rest))" using dec_digits[of n] by (cases "dec n") auto
  have t: "takeWhile unit_char (u @ rest) = u" "dropWhile unit_char (u @ rest) = rest"
    using takeWhile_unit[OF unitMap_cases(2)[OF u], of rest] rest by (auto simp: unit_char_def)
  have "\<not> 2 ^ 63 div unit < n"
    using n unitMap_cases(3)[OF u] by (simp add: not_less less_eq_div_iff_mult_less_eq)
  then show ?thesis unfolding parse_part_def
    using l hd nd t hu u by (simp add: Let_def)
qed

lemma parse_parts_print:
  assumes "\<forall>(n, u) \<in> set parts. \<exists>unit. unitMap u = Some unit"
    and "d + (\<Sum>(n, u) \<leftarrow> parts. n * the (unitMap u)) \<le> 2 ^ 63"
  shows "parse_parts frac d (concat (map (\<lambda>(n, u). dec n @ u) parts)) =
    Some (d + (\<Sum>(n, u) \<leftarrow> parts. n * the (unitMap u)))"
  using assms
proof (induction parts arbitrary: d)
  case Nil
  then show ?case by (simp add: parse_parts.simps)
next
  case (Cons p parts)
  obtain n u where p: "p = (n, u)" by fastforce
  obtain unit where u: "unitMap u = Some unit" using Cons.prems(1) p by auto
  let ?rest = "concat (map (\<lambda>(n, u). dec n @ u) parts)"
  have small: "d + n * unit \<le> 2 ^ 63" using Cons.prems(2) p u by simp
  have "?rest = [] \<or> is_digit (hd ?rest)"
  proof (cases parts)
    case (Cons q qs)
    then show ?thesis using dec_digits[of "fst q"] by (cases "dec (fst q)") (auto split: prod.split)
  qed simp
  then have part: "parse_part frac (dec n @ u @ ?rest) = Some (n * unit, ?rest)"
    using small by (intro parse_part_print[OF u]) simp_all
  have "(d + n * unit) mod 2 ^ 64 = d + n * unit" using small by simp
  then have "parse_parts frac d (dec n @ u @ ?rest) = parse_parts frac (d + n * unit) ?rest"
    using part small by (subst parse_parts.simps) (simp add: Let_def)
  also have "\<dots> = Some (d + n * unit + (\<Sum>(n, u) \<leftarrow> parts. n * the (unitMap u)))"
    using Cons.prems p u by (intro Cons.IH) (auto simp: add.assoc)
  finally show ?case using p u by (simp add: add.assoc)
qed

lemma ParseDuration_range: "ParseDuration frac s = Some d \<Longrightarrow> - (2 ^ 63) \<le> d \<and> d < 2 ^ 63"
proof -
  have le: "parse_parts frac d0 s = Some n \<Longrightarrow> d0 \<le> 2 ^ 63 \<Longrightarrow> n \<le> 2 ^ 63" for d0 s n
    by (induction frac d0 s rule: parse_parts.induct)
      (subst (asm) parse_parts.simps, auto simp: Let_def split: if_splits option.splits prod.splits)
  assume "ParseDuration frac s = Some d"
  then show ?thesis
    by (auto simp: ParseDuration_def Let_def split: if_splits option.splits dest!: le)
qed

lemma ParseDuration_print:
  assumes "parts \<noteq> []" "\<forall>(n, u) \<in> set parts. unitMap u \<noteq> None"
    and sum: "ns = (\<Sum>(n, u) \<leftarrow> parts. n * the (unitMap u))" "ns < 2 ^ 63"
  shows "ParseDuration frac (concat (map (\<lambda>(n, u). dec n @ u) parts)) = Some (int ns)"
proof -
  let ?s = "concat (map (\<lambda>(n, u). dec n @ u) parts)"
  obtain n u rest where parts: "parts = (n, u) # rest" using assms(1) by (cases parts) auto
  obtain unit where unit: "unitMap u = Some unit" using assms(2) parts by auto
  obtain c cs where c: "dec n = c # cs" "is_digit c" using dec_digits[of n] by (cases "dec n") auto
  have s: "?s = c # cs @ u @ concat (map (\<lambda>(n, u). dec n @ u) rest)" using parts c by simp
  have "?s \<noteq> ''0''" using s unitMap_cases(1)[OF unit] by auto
  moreover have "c \<noteq> CHR ''-''" "c \<noteq> CHR ''+''" using c(2) by (auto simp: is_digit_def)
  moreover have "parse_parts frac 0 ?s = Some ns"
    using parse_parts_print[of parts 0 frac] assms(2) sum by fastforce
  ultimately show ?thesis using s sum(2) unitMap_cases(1)[OF unit] by (simp add: ParseDuration_def Let_def)
qed

text \<open>There is no unit for days: such a text is not a duration.\<close>

lemma days_are_no_duration: "ParseDuration frac ''30d'' = None"
  by code_simp

end
