(* ===== verification/Hooks.thy ===== *)
theory Hooks
  imports ManagerProps
begin

text \<open>
  \<open>internal/tunnel/hooks.go\<close>: the scripts that pppd runs when an interface comes up or goes down,
  and the loopback handler that hands their reports to the manager.  The query of the request is
  parsed as \<open>net/url\<close> does.
\<close>

section \<open>Query strings\<close>

text \<open>\<open>url.QueryUnescape\<close>: None is its error.\<close>

fun query_unescape :: "string \<Rightarrow> string option" where
  "query_unescape [] = Some []"
| "query_unescape (c # cs) =
     (if c = CHR ''%'' then
        (case cs of
           a # b # rest \<Rightarrow> (case (hex_val a, hex_val b) of
               (Some x, Some y) \<Rightarrow> map_option (\<lambda>r. char_of (16 * x + y) # r) (query_unescape rest)
             | _ \<Rightarrow> None)
         | _ \<Rightarrow> None)
      else map_option (\<lambda>r. (if c = CHR ''+'' then CHR '' '' else c) # r) (query_unescape cs))"

text \<open>\<open>url.ParseQuery\<close>, dropping what it reports as malformed, as \<open>URL.Query\<close> does.\<close>

definition parse_pair :: "string \<Rightarrow> (string \<times> string) list" where
  "parse_pair kv =
     (if kv = [] \<or> CHR '';'' \<in> set kv then []
      else (case Cut kv ''='' of (key, val, _) \<Rightarrow>
        (case (query_unescape key, query_unescape val) of
           (Some k, Some v) \<Rightarrow> [(k, v)]
         | _ \<Rightarrow> [])))"

definition ParseQuery :: "string \<Rightarrow> (string \<times> string) list" where
  "ParseQuery q = concat (map parse_pair (split_on (CHR ''&'') q))"

definition query_Get :: "string \<Rightarrow> string \<Rightarrow> string" where
  "query_Get q key = (case map_of (ParseQuery q) key of None \<Rightarrow> [] | Some v \<Rightarrow> v)"

section \<open>The handler\<close>

definition handleHook ::
  "(string \<Rightarrow> string \<Rightarrow> string \<Rightarrow> string \<Rightarrow> ('w, string + unit) act) \<Rightarrow> string \<Rightarrow> ('w, nat \<times> string) act" where
  "handleHook apply_hook qs s =
     (let name = query_Get qs ''peer''; iface = query_Get qs ''iface'' in
      if name = [] then ((400, ''peer is required''), s)
      else (case apply_hook name iface (query_Get qs ''local'') (query_Get qs ''peerip'') s of
          (Inl err, s') \<Rightarrow> ((500, err), s')
        | (Inr _, s') \<Rightarrow> ((204, []), s')))"

text \<open>The mux: two paths, both \<open>POST\<close>; anything else is not found or not allowed.\<close>

definition hook_Handler :: "'w env \<Rightarrow> string \<Rightarrow> string \<Rightarrow> string \<Rightarrow> ('w, nat \<times> string) act" where
  "hook_Handler e meth path qs s =
     (if path = ''/internal/ppp/up'' then
        (if meth = ''POST'' then handleHook (PPPUp e) qs s else ((405, ''Method Not Allowed''), s))
      else if path = ''/internal/ppp/down'' then
        (if meth = ''POST'' then handleHook (\<lambda>name iface _ _. PPPDown e name iface) qs s
         else ((405, ''Method Not Allowed''), s))
      else ((404, ''404 page not found''), s))"

section \<open>The scripts\<close>

definition hook_query :: "string \<Rightarrow> string \<Rightarrow> string \<Rightarrow> string \<Rightarrow> string" where
  "hook_query ipparam iface localIP remoteIP =
     ''peer='' @ ipparam @ ''&iface='' @ iface @ ''&local='' @ localIP @ ''&peerip='' @ remoteIP"

definition hook_script :: "string \<Rightarrow> string \<Rightarrow> string" where
  "hook_script addr event =
     ''#!/bin/sh'' @ [CHR 0x0A] @ ''curl -fsS -m 5 -o /dev/null -X POST '' @ [CHR 0x22] @ ''http://'' @ addr @
     ''/internal/ppp/'' @ event @ ''?'' @ hook_query ''$6'' ''$1'' ''$4'' ''$5'' @ [CHR 0x22] @ '' || true'' @ [CHR 0x0A]"

definition install_hook :: "string \<Rightarrow> string \<Rightarrow> string \<times> string \<Rightarrow> unit fs_act" where
  "install_hook pppDir addr hook =
     (let path = path_join pppDir (snd hook) in
      sbind (fs_do (MkdirAll path) () (\<lambda>f. f)) (\<lambda>_.
        os_WriteFile (path_join path ''tsv-vpn'') (hook_script addr (fst hook))))"

text \<open>Go ranges over the two events in any order; \<open>events\<close> is that order.\<close>

fun InstallHooks :: "(string \<times> string) list \<Rightarrow> string \<Rightarrow> string \<Rightarrow> unit fs_act" where
  "InstallHooks [] pppDir addr = slift (Inr ())"
| "InstallHooks (hook # hooks) pppDir addr =
     sbind (install_hook pppDir addr hook) (\<lambda>_. InstallHooks hooks pppDir addr)"

definition hook_events :: "(string \<times> string) list" where
  "hook_events = [(''up'', ''ip-up.d''), (''down'', ''ip-down.d'')]"

text \<open>
  The link at pppd's fixed path.  \<open>lk_node\<close> is what is at a path: nothing, a link to a target, or
  something else.
\<close>

datatype fnode = Symlink string | Other

record linkfs =
  lk_node :: "string \<Rightarrow> fnode option"
  lk_rmErr :: "string option"
  lk_mkErr :: "string option"

definition LinkCHAPSecrets :: "string \<Rightarrow> string \<Rightarrow> linkfs \<Rightarrow> (string + unit) \<times> linkfs" where
  "LinkCHAPSecrets pppDir dir fs =
     (let link = path_join pppDir ''chap-secrets''; target = path_join dir ''chap-secrets'' in
      if lk_node fs link = Some (Symlink target) then (Inr (), fs)
      else (case (lk_node fs link, lk_rmErr fs) of
          (Some _, Some err) \<Rightarrow> (Inl err, fs)
        | _ \<Rightarrow> (let fs1 = fs\<lparr>lk_node := (lk_node fs)(link := None)\<rparr> in
            case lk_mkErr fs of
              Some err \<Rightarrow> (Inl err, fs1)
            | None \<Rightarrow> (Inr (), fs1\<lparr>lk_node := (lk_node fs1)(link := Some (Symlink target))\<rparr>))))"

section \<open>What the scripts send is what the manager gets\<close>

definition query_plain :: "string \<Rightarrow> bool" where
  "query_plain s \<longleftrightarrow> (\<forall>c \<in> set s. c \<notin> {CHR ''&'', CHR '';'', CHR ''%'', CHR ''+'', CHR ''='', CHR ''#''})"

lemma query_unescape_plain: "query_plain s \<Longrightarrow> query_unescape s = Some s"
  by (induction s rule: query_unescape.induct) (auto simp: query_plain_def)

lemma query_plain_Cons [simp]:
  "query_plain []"
  "query_plain (c # s) \<longleftrightarrow> c \<notin> {CHR ''&'', CHR '';'', CHR ''%'', CHR ''+'', CHR ''='', CHR ''#''} \<and> query_plain s"
  by (auto simp: query_plain_def)

lemma parse_pair_plain:
  assumes "query_plain k" "query_plain v" "k \<noteq> []"
  shows "parse_pair (k @ ''='' @ v) = [(k, v)]"
proof -
  have "Cut (k @ ''='' @ v) ''='' = (k, v, True)"
    using assms by (intro Cut_here) (auto simp: query_plain_def)
  moreover have "CHR '';'' \<notin> set (k @ ''='' @ v)" using assms by (auto simp: query_plain_def)
  ultimately show ?thesis
    using assms query_unescape_plain[OF assms(1)] query_unescape_plain[OF assms(2)]
    unfolding parse_pair_def by simp
qed

lemma ParseQuery_hook:
  assumes "query_plain name" "query_plain iface" "query_plain l" "query_plain p"
  shows "ParseQuery (hook_query name iface l p) =
    [(''peer'', name), (''iface'', iface), (''local'', l), (''peerip'', p)]"
proof -
  have fresh: "query_plain v \<Longrightarrow> CHR ''&'' \<notin> set v" for v by (auto simp: query_plain_def)
  have q: "hook_query name iface l p =
      (''peer='' @ name) @ CHR ''&'' # (''iface='' @ iface) @ CHR ''&'' # (''local='' @ l) @ CHR ''&'' # (''peerip='' @ p)"
    by (simp add: hook_query_def)
  have "split_on (CHR ''&'') (hook_query name iface l p) =
      [''peer='' @ name, ''iface='' @ iface, ''local='' @ l, ''peerip='' @ p]"
    unfolding q split_on_append_sep using assms by (simp add: split_on_fresh fresh)
  then show ?thesis
    using parse_pair_plain[of "''peer''" name] parse_pair_plain[of "''iface''" iface]
      parse_pair_plain[of "''local''" l] parse_pair_plain[of "''peerip''" p] assms
    by (simp add: ParseQuery_def)
qed

lemma name_plain: "name_pattern name \<Longrightarrow> query_plain name \<and> name \<noteq> []"
  by (auto simp: name_pattern_def query_plain_def is_alnum_def is_digit_def)

text \<open>C38: A report that pppd's script sends for a valid connection name reaches the manager with the
  name, the interface and the addresses it was given.\<close>

lemma hook_reports_arrive:
  assumes "name_pattern name" "query_plain iface" "query_plain l" "query_plain p"
  shows "hook_Handler e ''POST'' ''/internal/ppp/up'' (hook_query name iface l p) s =
      (case PPPUp e name iface l p s of (Inl err, s') \<Rightarrow> ((500, err), s') | (Inr _, s') \<Rightarrow> ((204, []), s')) \<and>
    hook_Handler e ''POST'' ''/internal/ppp/down'' (hook_query name iface l p) s =
      (case PPPDown e name iface s of (Inl err, s') \<Rightarrow> ((500, err), s') | (Inr _, s') \<Rightarrow> ((204, []), s'))"
  using name_plain[OF assms(1)] ParseQuery_hook[of name iface l p] assms
  by (simp add: hook_Handler_def handleHook_def query_Get_def)

lemma hook_reports_arrive_witness:
  "fst (hook_Handler calm_env ''POST'' ''/internal/ppp/down'' (hook_query ''alpha'' ''ppp0'' ''10.0.0.2'' ''10.0.0.1'') demo_sys) =
     (500, ''unknown connection '' @ go_quote (\<lambda>_. True) ''alpha'')"
proof -
  have "name_pattern ''alpha''" "query_plain ''ppp0''" "query_plain ''10.0.0.2''" "query_plain ''10.0.0.1''"
    by code_simp+
  from hook_reports_arrive[OF this, of calm_env demo_sys] show ?thesis
    by (simp add: PPPDown_def demo_sys_def new_sys_def the_tunnel_def row_sel_def calm_env_def)
qed

end
