(* ===== verification/Boot.thy ===== *)
theory Boot
  imports Startup Icmp Durations Hooks
begin

text \<open>
  \<open>cmd/tsv-vpn/main.go\<close> as a whole: what \<open>start\<close> opens, installs and launches, in its order and
  with its deferred closes, and \<open>main\<close> with its subcommands.  \<open>boot\<close> is what the process finds
  outside, \<open>host\<close> what it changes; the services that \<open>start\<close> launches run as one machine, whose
  events up to the signal that stops the process are an argument.
\<close>

section \<open>The outside\<close>

datatype service =
    HookListener string
  | WebListener string
  | DaemonSupervisor "process list"
  | TailnetJoin string
  | HealthChecks
  | ManagerLoop

datatype boot_event =
    OpenedStore string
  | Listening string
  | Warned string
  | Launch service
  | ShutdownWeb
  | ClosedHooks
  | ClosedListener
  | ClosedStore

datatype boot_err = BootErr string | BootPanic string

record 'w boot =
  o_getenv :: "string \<Rightarrow> string"
  o_keyFile :: "string \<Rightarrow> string + string"
  o_gcm :: "string \<Rightarrow> aead"
  o_database :: "string \<Rightarrow> string option \<times> store migdb"
  o_sql :: "string \<Rightarrow> store \<Rightarrow> string + store"
  o_embedded :: "(string \<times> string) list"
  o_listen :: "string \<Rightarrow> string + string"
  o_fraction :: "nat \<Rightarrow> nat \<Rightarrow> nat \<Rightarrow> nat"
  o_icmp :: "'w icmp"
  o_addrs :: "string \<Rightarrow> string + (addr \<times> int) option list"
  o_lookup :: "duration \<Rightarrow> string \<Rightarrow> 'w \<Rightarrow> (string + addr list) \<times> 'w"
  o_decode :: "string \<Rightarrow> string + tail_status"
  o_cryptoText :: "crypto_err \<Rightarrow> string"
  o_addrErr :: "string \<Rightarrow> string"
  o_web :: "'w web"

record 'w host =
  ho_fs :: fsys
  ho_link :: linkfs
  ho_world :: 'w
  ho_events :: "boot_event list"
  ho_out :: "string list"
  ho_server :: "'w server option"

type_synonym ('w, 'a) boot_act = "'w host \<Rightarrow> (boot_err + 'a) \<times> 'w host"

definition emit :: "boot_event \<Rightarrow> 'w host \<Rightarrow> 'w host" where
  "emit ev h = h\<lparr>ho_events := ho_events h @ [ev]\<rparr>"

text \<open>A deferred close runs when the function returns, whatever it returns.\<close>

definition deferred :: "boot_event \<Rightarrow> ('w, 'a) boot_act \<Rightarrow> ('w, 'a) boot_act" where
  "deferred ev body h = (case body h of (r, h') \<Rightarrow> (r, emit ev h'))"

definition on_fs :: "'a fs_act \<Rightarrow> ('w, 'a) boot_act" where
  "on_fs act h = (case act (ho_fs h) of
     (Inl err, fs) \<Rightarrow> (Inl (BootErr err), h\<lparr>ho_fs := fs\<rparr>) | (Inr x, fs) \<Rightarrow> (Inr x, h\<lparr>ho_fs := fs\<rparr>))"

definition on_links :: "(linkfs \<Rightarrow> (string + 'a) \<times> linkfs) \<Rightarrow> ('w, 'a) boot_act" where
  "on_links act h = (case act (ho_link h) of
     (Inl err, fs) \<Rightarrow> (Inl (BootErr err), h\<lparr>ho_link := fs\<rparr>) | (Inr x, fs) \<Rightarrow> (Inr x, h\<lparr>ho_link := fs\<rparr>))"

section \<open>Settings\<close>

definition logRetention :: "(nat \<Rightarrow> nat \<Rightarrow> nat \<Rightarrow> nat) \<Rightarrow> (string \<Rightarrow> string) \<Rightarrow> duration" where
  "logRetention frac getenv =
     (case ParseDuration frac (getenv ''TSV_VPN_LOG_RETENTION'') of None \<Rightarrow> DefaultRetention | Some parsed \<Rightarrow> parsed)"

definition env_duration :: "(nat \<Rightarrow> nat \<Rightarrow> nat \<Rightarrow> nat) \<Rightarrow> (string \<Rightarrow> string) \<Rightarrow> string \<Rightarrow> duration" where
  "env_duration frac getenv name = (case ParseDuration frac (getenv name) of None \<Rightarrow> 0 | Some parsed \<Rightarrow> parsed)"

definition run_dir :: "'w boot \<Rightarrow> string" where
  "run_dir b = env_or (o_getenv b) ''TSV_VPN_RUN_DIR'' ''/run/tsv-vpn''"

definition xl2tpdRunDir :: string where "xl2tpdRunDir = ''/var/run/xl2tpd''"

definition DefaultPPPDir :: string where "DefaultPPPDir = ''/etc/ppp''"

definition logLinesKept :: nat where "logLinesKept = 200"

section \<open>Wiring\<close>

definition net_text :: "net_err \<Rightarrow> string" where
  "net_text err = (case err of NetErr t \<Rightarrow> t | NetTimeout t \<Rightarrow> t | NetPanic t \<Rightarrow> t)"

text \<open>
  The result of an operation on a socket.  One whose reads never end has none; it stands here as an
  error, and what depends on it assumes that reads end.
\<close>

definition returned :: "((net_err + 'a) \<times> 'w) option \<Rightarrow> 'w \<Rightarrow> (string + 'a) \<times> 'w" where
  "returned r w = (case r of
     Some (Inl err, w') \<Rightarrow> (Inl (net_text err), w') | Some (Inr x, w') \<Rightarrow> (Inr x, w') | None \<Rightarrow> (Inl [], w))"

definition with_timeout ::
  "'w icmp \<Rightarrow> duration \<Rightarrow> ('w icmp \<Rightarrow> 'w \<Rightarrow> ((net_err + 'a) \<times> 'w) option) \<Rightarrow> 'w \<Rightarrow> (string + 'a) \<times> 'w" where
  "with_timeout icmp timeout act w =
     (case ic_now icmp w of (now, w1) \<Rightarrow> returned (act (icmp\<lparr>ic_ctxEnd := Some (now + timeout)\<rparr>) w1) w1)"

definition tailscale :: tail_client where
  "tailscale = \<lparr>tc_binary = [], tc_socket = DefaultSocket\<rparr>"

definition boot_run :: "'w boot \<Rightarrow> 'w runner" where
  "boot_run b = e_run (w_mgr (o_web b))"

definition boot_mgr :: "'w boot \<Rightarrow> 'w env" where
  "boot_mgr b = mgr_New ((w_mgr (o_web b))\<lparr>e_dir := run_dir b,
     e_ctl := path_join (run_dir b) ''l2tp-control'',
     e_tail := Some (\<lambda>routes. run_unit (boot_run b) (SetRoutes_cmd tailscale routes)),
     e_tick := 0, e_dial := 0\<rparr>)"

definition boot_checks :: "'w boot \<Rightarrow> 'w checks" where
  "boot_checks b =
     \<lparr>h_mgr = boot_mgr b,
      h_ping = \<lambda>a iface timeout. with_timeout (o_icmp b) timeout (\<lambda>e. InterfacePinger_Ping e (o_addrs b) 0 a iface),
      h_now = e_now (w_mgr (o_web b)), h_addrErr = o_addrErr b,
      h_interval = env_duration (o_fraction b) (o_getenv b) ''TSV_VPN_HEALTH_INTERVAL'', h_timeout = 0\<rparr>"

definition boot_prober :: "'w boot \<Rightarrow> 'w \<Rightarrow> (addr list \<times> string option) \<times> 'w" where
  "boot_prober b w = (case Hops (o_icmp b) AddrZero 0 0 w of
     Some ((hops, err), w') \<Rightarrow> ((hops, map_option net_text err), w') | None \<Rightarrow> (([], None), w))"

definition boot_web :: "'w boot \<Rightarrow> 'w web" where
  "boot_web b =
     (o_web b)\<lparr>w_mgr := boot_mgr b,
       w_checks := Some (boot_checks b),
       w_gateway := Some (Preflight_Test 0 (o_lookup b)
         (Some (\<lambda>timeout a. with_timeout (o_icmp b) timeout (\<lambda>e. Ping e AddrZero 0 a)))),
       w_tailnet := Some
         \<lparr>ta_status = tail_Status (boot_run b) (o_decode b) tailscale,
          ta_up = \<lambda>hostname key routes exitNode. run_unit (boot_run b) (Up tailscale hostname key routes exitNode),
          ta_exit = \<lambda>enabled. run_unit (boot_run b) (SetExitNode_cmd tailscale enabled)\<rparr>,
       w_scanner := True, w_prober := Some (boot_prober b),
       w_envHash := o_getenv b ''ADMIN_PASSWORD_HASH'', w_ttl := 0,
       w_hostname := env_or (o_getenv b) ''TS_HOSTNAME'' ''tsv-vpn''\<rparr>"

text \<open>The server's state with nothing in it but the store.\<close>

definition new_server :: "store \<Rightarrow> fsys \<Rightarrow> 'w \<Rightarrow> 'w server" where
  "new_server st fs w =
     \<lparr>v_chk = \<lparr>kc_sys = new_sys st fs w, kc_fails = (\<lambda>_. 0), kc_lines = []\<rparr>,
      v_tokens = Map.empty, v_attempts = Map.empty, v_jobs = Map.empty, v_probedAt = 0, v_probeHops = [],
      v_ring = Some (ring_New logLinesKept True), v_log = []\<rparr>"

section \<open>start\<close>

definition mig_text :: "mig_err \<Rightarrow> boot_err" where
  "mig_text err = (case err of MigErr t \<Rightarrow> BootErr t | MigPanic t \<Rightarrow> BootPanic t)"

text \<open>The key, the cipher and the database: the first lines of \<open>start\<close> and of \<open>resetPassword\<close>.\<close>

definition boot_key :: "'w boot \<Rightarrow> boot_err + aead" where
  "boot_key b =
     (case LoadKey (o_keyFile b (env_or (o_getenv b) ''MASTER_KEY_FILE'' ''/run/secrets/tsv_vpn_master_key'')) of
        Inl err \<Rightarrow> Inl (BootErr (o_cryptoText b err))
      | Inr key \<Rightarrow> (case crypto_New (o_gcm b) key of
          Inl err \<Rightarrow> Inl (BootErr (o_cryptoText b err))
        | Inr box \<Rightarrow> Inr box))"

definition boot_open :: "'w boot \<Rightarrow> aead \<Rightarrow> boot_err + store" where
  "boot_open b box =
     (case o_database b (env_or (o_getenv b) ''TSV_VPN_DB'' ''/data/tsv-vpn.db'') of (openErr, db) \<Rightarrow>
       (case db_Open openErr (o_sql b) (o_embedded b) db of
          Inl err \<Rightarrow> Inl (mig_text err)
        | Inr db' \<Rightarrow> Inr ((mg_data db')\<lparr>cipher := box\<rparr>)))"

text \<open>
  From the hook listener on: the scripts, the link, the configuration files, and then the services.
  \<open>prepare\<close> is what must have worked before anything runs.
\<close>

definition prepare :: "'w boot \<Rightarrow> store \<Rightarrow> string \<Rightarrow> ('w, 'w server) boot_act" where
  "prepare b st addr =
     sbind (on_fs (InstallHooks hook_events DefaultPPPDir addr)) (\<lambda>_.
     sbind (on_links (LinkCHAPSecrets DefaultPPPDir (run_dir b))) (\<lambda>_ h.
       let s = new_server st (ho_fs h) (ho_world h) in
       case Prerender (boot_mgr b) (kc_sys (v_chk s)) of
         (Inl err, y) \<Rightarrow> (Inl (BootErr err), h\<lparr>ho_fs := y_fs y, ho_world := y_world y\<rparr>)
       | (Inr _, y) \<Rightarrow> (Inr (s\<lparr>v_chk := (v_chk s)\<lparr>kc_sys := y\<rparr>\<rparr>), h\<lparr>ho_fs := y_fs y, ho_world := y_world y\<rparr>)))"

definition services :: "'w boot \<Rightarrow> string \<Rightarrow> service list" where
  "services b addr =
     [HookListener addr, WebListener (env_or (o_getenv b) ''TSV_VPN_LISTEN'' '':8080''),
      DaemonSupervisor (daemons (env_or (o_getenv b) ''TS_STATE_DIR'' ''/var/lib/tailscale'') (run_dir b)),
      TailnetJoin (env_or (o_getenv b) ''TS_HOSTNAME'' ''tsv-vpn''), HealthChecks, ManagerLoop]"

definition setup_warning :: string where
  "setup_warning = ''no admin password set; the web ui answers unauthenticated until one is chosen''"

text \<open>The services run until the signal; \<open>life\<close> is what happens until then.\<close>

definition launch :: "'w boot \<Rightarrow> web_cmd list \<Rightarrow> string \<Rightarrow> 'w server \<Rightarrow> ('w, unit) boot_act" where
  "launch b life addr s h =
     (let h1 = (if NeedsSetup (w_envHash (boot_web b)) (Some (v_store s)) then emit (Warned setup_warning) h else h);
          h2 = foldl (\<lambda>h svc. emit (Launch svc) h) h1 (services b addr);
          s' = run_cmds (web_step (boot_web b)) life s;
          y = kc_sys (v_chk s')
      in (Inr (), emit ShutdownWeb (h2\<lparr>ho_server := Some s', ho_fs := y_fs y, ho_world := y_world y\<rparr>)))"

definition start_store :: "'w boot \<Rightarrow> web_cmd list \<Rightarrow> store \<Rightarrow> ('w, unit) boot_act" where
  "start_store b life st =
     sbind (on_fs (fs_do (MkdirAll (run_dir b)) () (\<lambda>f. f))) (\<lambda>_.
     sbind (on_fs (fs_do (MkdirAll xl2tpdRunDir) () (\<lambda>f. f))) (\<lambda>_ h.
       case o_listen b ''127.0.0.1:0'' of
         Inl err \<Rightarrow> (Inl (BootErr err), h)
       | Inr addr \<Rightarrow> deferred ClosedListener
           (sbind (prepare b st addr) (\<lambda>s. deferred ClosedHooks (launch b life addr s))) (emit (Listening addr) h)))"

definition start :: "'w boot \<Rightarrow> web_cmd list \<Rightarrow> ('w, unit) boot_act" where
  "start b life h =
     (case boot_key b of
        Inl err \<Rightarrow> (Inl err, h)
      | Inr box \<Rightarrow> (case boot_open b box of
          Inl err \<Rightarrow> (Inl err, h)
        | Inr st \<Rightarrow> deferred ClosedStore (start_store b life st)
            (emit (OpenedStore (env_or (o_getenv b) ''TSV_VPN_DB'' ''/data/tsv-vpn.db'')) h)))"

section \<open>main\<close>

datatype command_line = CmdStart | CmdHash "string list" | CmdReset

definition command_of :: "string list \<Rightarrow> command_line" where
  "command_of args =
     (case args of
        [] \<Rightarrow> CmdStart
      | arg # rest \<Rightarrow> if arg = ''hash-password'' then CmdHash rest
          else if arg = ''reset-password'' then CmdReset else CmdStart)"

definition reset_main :: "'w boot \<Rightarrow> ('w, store) boot_act" where
  "reset_main b h =
     (let opened = (\<lambda>box. case boot_open b box of
          Inl (BootErr t) \<Rightarrow> Inl t | Inl (BootPanic t) \<Rightarrow> Inl t | Inr st \<Rightarrow> Inr st)
      in case bindr (boot_key b) (boot_open b) of
           Inl (BootPanic t) \<Rightarrow> (Inl (BootPanic t), h)
         | _ \<Rightarrow> (case resetPassword (o_cryptoText b) (e_text (w_mgr (o_web b))) (o_gcm b)
               (o_keyFile b (env_or (o_getenv b) ''MASTER_KEY_FILE'' ''/run/secrets/tsv_vpn_master_key'')) opened of
             Inl err \<Rightarrow> (Inl (BootErr err), h)
           | Inr st \<Rightarrow> (Inr st, h\<lparr>ho_out := ho_out h @
               [''admin password cleared; the ui asks for a new one on the next visit'']\<rparr>)))"

text \<open>The exit status; a panic exits with 2.  \<open>zone\<close> and \<open>now\<close> are the local time of the log writer.\<close>

definition exit_status :: "boot_err + 'a \<Rightarrow> nat" where
  "exit_status r = (case r of Inr _ \<Rightarrow> 0 | Inl (BootErr _) \<Rightarrow> 1 | Inl (BootPanic _) \<Rightarrow> 2)"

definition main_go ::
  "'w boot \<Rightarrow> string list \<Rightarrow> string + string \<Rightarrow> (string \<Rightarrow> string + string) \<Rightarrow> duration \<Rightarrow> time \<Rightarrow> web_cmd list \<Rightarrow>
   'w host \<Rightarrow> nat \<times> 'w host" where
  "main_go b args stdin bcrypt zone now life h =
     (let cmd = command_of args;
          logDir = (if cmd = CmdStart then env_or (o_getenv b) ''TSV_VPN_LOG_DIR'' ''/data/logs'' else [])
      in case logging_Setup logDir (logRetention (o_fraction b) (o_getenv b)) zone now (ho_fs h) of
           Inl (OsErr _) \<Rightarrow> (1, h)
         | Inl (Panicked _) \<Rightarrow> (2, h)
         | Inr writer \<Rightarrow>
             (let h1 = (case writer of None \<Rightarrow> h | Some w \<Rightarrow> h\<lparr>ho_fs := d_fs w\<rparr>) in
              case cmd of
                CmdStart \<Rightarrow> (case start b life h1 of (r, h2) \<Rightarrow> (exit_status r, h2))
              | CmdHash rest \<Rightarrow> (case hashPassword bcrypt rest stdin of
                  Inl _ \<Rightarrow> (1, h1)
                | Inr line \<Rightarrow> (0, h1\<lparr>ho_out := ho_out h1 @ [line]\<rparr>))
              | CmdReset \<Rightarrow> (case reset_main b h1 of (r, h2) \<Rightarrow> (exit_status r, h2))))"

end
