(* ===== verification/BootProps.thy ===== *)
theory BootProps
  imports Boot
begin

text \<open>
  What a start of the process gives: everything or nothing is launched and everything opened is
  closed again, the running program keeps the invariants of its parts, pppd finds the hooks and the
  secrets, the retention of the log is the one that was configured, and a router that sends no reply
  loses its tunnel.
\<close>

section \<open>What is opened is closed\<close>

fun is_launch :: "boot_event \<Rightarrow> bool" where
  "is_launch (Launch _) = True"
| "is_launch _ = False"

text \<open>The close that an event calls for.\<close>

fun close_of :: "boot_event \<Rightarrow> boot_event list" where
  "close_of (OpenedStore _) = [ClosedStore]"
| "close_of (Listening _) = [ClosedListener]"
| "close_of (Launch (HookListener _)) = [ClosedHooks]"
| "close_of _ = []"

definition is_close :: "boot_event \<Rightarrow> bool" where
  "is_close ev \<longleftrightarrow> ev \<in> {ClosedStore, ClosedListener, ClosedHooks}"

definition closed_again :: "boot_event list \<Rightarrow> bool" where
  "closed_again evs \<longleftrightarrow> filter is_close evs = concat (map close_of (rev evs))"

lemma closed_again_simps:
  "closed_again []"
  "closed_again evs \<Longrightarrow> close_of ev = [c] \<Longrightarrow> \<not> is_close ev \<Longrightarrow> is_close c \<Longrightarrow> close_of c = [] \<Longrightarrow> closed_again (ev # evs @ [c])"
  by (simp_all add: closed_again_def)

text \<open>\<open>ran h r evs\<close>: from \<open>h\<close> on, the events \<open>evs\<close> were added.\<close>

definition ran :: "'w host \<Rightarrow> (boot_err + 'a) \<times> 'w host \<Rightarrow> boot_event list \<Rightarrow> bool" where
  "ran h r evs \<longleftrightarrow> ho_events (snd r) = ho_events h @ evs"

lemma on_fs_ran [simp]: "ho_events (snd (on_fs act h)) = ho_events h" "ho_link (snd (on_fs act h)) = ho_link h"
  "ho_server (snd (on_fs act h)) = ho_server h"
  by (simp_all add: on_fs_def split: prod.split sum.split)

lemma on_links_ran [simp]: "ho_events (snd (on_links act h)) = ho_events h" "ho_fs (snd (on_links act h)) = ho_fs h"
  "ho_server (snd (on_links act h)) = ho_server h"
  by (simp_all add: on_links_def split: prod.split sum.split)

lemma prepare_ran: "ho_events (snd (prepare b st addr h)) = ho_events h"
proof -
  have "keeps (\<lambda>g. ho_events g = ho_events h) (prepare b st addr)"
    unfolding prepare_def
    by (intro keeps_sbind) (auto simp: keeps_def Let_def split: prod.split sum.split)
  then show ?thesis by (simp add: keeps_def)
qed

definition launched :: "'w boot \<Rightarrow> string \<Rightarrow> 'w server \<Rightarrow> boot_event list" where
  "launched b addr s =
     (if NeedsSetup (w_envHash (boot_web b)) (Some (v_store s)) then [Warned setup_warning] else []) @
     map Launch (services b addr) @ [ShutdownWeb, ClosedHooks]"

lemma emit_all: "ho_events (foldl (\<lambda>h svc. emit (Launch svc) h) h svcs) = ho_events h @ map Launch svcs"
  by (induction svcs arbitrary: h) (simp_all add: emit_def)

lemma launch_ran: "ran h (deferred ClosedHooks (launch b life addr s) h) (launched b addr s)"
proof -
  let ?warn = "NeedsSetup (w_envHash (boot_web b)) (Some (v_store s))"
  let ?h = "if ?warn then emit (Warned setup_warning) h else h"
  have "ho_events ?h = ho_events h @ (if ?warn then [Warned setup_warning] else [])" by (simp add: emit_def)
  then have "ho_events (foldl (\<lambda>h svc. emit (Launch svc) h) ?h (services b addr)) =
      ho_events h @ (if ?warn then [Warned setup_warning] else []) @ map Launch (services b addr)"
    by (simp only: emit_all append_assoc)
  moreover have "ho_events (snd (deferred ClosedHooks (launch b life addr s) h)) =
      ho_events (foldl (\<lambda>h svc. emit (Launch svc) h) ?h (services b addr)) @ [ShutdownWeb, ClosedHooks]"
    by (simp add: deferred_def launch_def Let_def) (simp add: emit_def)
  ultimately show ?thesis by (simp add: ran_def launched_def)
qed

lemma launched_events:
  "filter is_launch (launched b addr s) = map Launch (services b addr)"
  "closed_again (evs) \<Longrightarrow> closed_again (launched b addr s)"
  by (simp_all add: launched_def closed_again_def services_def is_close_def)

lemma start_store_ran:
  "\<exists>evs. ran h (start_store b life st h) evs \<and> closed_again evs \<and>
     (case fst (start_store b life st h) of
        Inl _ \<Rightarrow> filter is_launch evs = []
      | Inr _ \<Rightarrow> (\<exists>addr. o_listen b ''127.0.0.1:0'' = Inr addr \<and> filter is_launch evs = map Launch (services b addr)))"
proof -
  let ?m1 = "on_fs (fs_do (MkdirAll (run_dir b)) () (\<lambda>f. f))" and ?m2 = "on_fs (fs_do (MkdirAll xl2tpdRunDir) () (\<lambda>f. f))"
  obtain r1 h1 where m1: "?m1 h = (r1, h1)" by fastforce
  obtain r2 h2 where m2: "?m2 h1 = (r2, h2)" by fastforce
  have ev: "ho_events h1 = ho_events h" "ho_events h2 = ho_events h"
    using on_fs_ran(1)[of "fs_do (MkdirAll (run_dir b)) () (\<lambda>f. f)" h]
      on_fs_ran(1)[of "fs_do (MkdirAll xl2tpdRunDir) () (\<lambda>f. f)" h1] m1 m2 by simp_all
  have quiet: ?thesis if "start_store b life st h = (Inl err, g)" "ho_events g = ho_events h" for err g
    using that by (intro exI[of _ "[]"]) (simp add: ran_def closed_again_simps)
  consider "\<exists>e. r1 = Inl e" | "\<exists>u e. r1 = Inr u \<and> r2 = Inl e" | "\<exists>u v e. r1 = Inr u \<and> r2 = Inr v \<and> o_listen b ''127.0.0.1:0'' = Inl e"
    | u v addr where "r1 = Inr u" "r2 = Inr v" "o_listen b ''127.0.0.1:0'' = Inr addr"
    by (cases r1; cases r2; cases "o_listen b ''127.0.0.1:0''") auto
  then show ?thesis
  proof cases
    case 1
    then show ?thesis using quiet m1 ev by (auto simp: start_store_def sbind_def)
  next
    case 2
    then show ?thesis using quiet m1 m2 ev by (auto simp: start_store_def sbind_def)
  next
    case 3
    then show ?thesis using quiet m1 m2 ev by (auto simp: start_store_def sbind_def)
  next
    case (4 u v addr)
    let ?h3 = "emit (Listening addr) h2"
    obtain r h4 where p: "prepare b st addr ?h3 = (r, h4)" by fastforce
    have h4: "ho_events h4 = ho_events h @ [Listening addr]"
      using prepare_ran[of b st addr ?h3] p ev by (simp add: emit_def)
    show ?thesis
    proof (cases r)
      case (Inl err)
      then have "start_store b life st h = (Inl err, emit ClosedListener h4)"
        using 4 m1 m2 p by (simp add: start_store_def sbind_def deferred_def)
      then show ?thesis using h4
        by (intro exI[of _ "[Listening addr, ClosedListener]"])
          (simp add: ran_def emit_def closed_again_def is_close_def)
    next
      case (Inr s)
      obtain g where g: "deferred ClosedHooks (launch b life addr s) h4 = (Inr (), g)"
        by (simp add: deferred_def launch_def Let_def)
      then have ss: "start_store b life st h = (Inr (), emit ClosedListener g)"
        using 4 m1 m2 p Inr by (simp add: start_store_def sbind_def deferred_def split: prod.splits)
      have "ho_events g = ho_events h @ [Listening addr] @ launched b addr s"
        using launch_ran[of h4 b life addr s] g h4 by (simp add: ran_def)
      then show ?thesis using ss 4(3)
        by (intro exI[of _ "[Listening addr] @ launched b addr s @ [ClosedListener]"])
          (simp add: ran_def emit_def launched_events closed_again_def is_close_def launched_def services_def)
    qed
  qed
qed

text \<open>C16: A start launches all its services or none: when anything before them fails nothing runs, and in
  either case what it had opened by then, the database, the hook listener and its server, is closed
  again, each once and in the opposite order.\<close>

theorem start_all_or_nothing:
  "\<exists>evs. ho_events (snd (start b life h)) = ho_events h @ evs \<and>
     filter is_close evs = concat (map close_of (rev evs)) \<and>
     (case fst (start b life h) of
        Inl _ \<Rightarrow> filter is_launch evs = []
      | Inr _ \<Rightarrow> (\<exists>addr. o_listen b ''127.0.0.1:0'' = Inr addr \<and> filter is_launch evs = map Launch (services b addr)))"
proof (cases "bindr (boot_key b) (boot_open b)")
  case (Inl err)
  then have "start b life h = (Inl err, h)" by (auto simp: start_def bindr_Inl_iff)
  then show ?thesis by simp
next
  case (Inr st)
  let ?open = "OpenedStore (env_or (o_getenv b) ''TSV_VPN_DB'' ''/data/tsv-vpn.db'')"
  obtain box where box: "boot_key b = Inr box" "boot_open b box = Inr st" using Inr by (auto simp: bindr_Inr_iff)
  obtain r g where g: "start_store b life st (emit ?open h) = (r, g)" by fastforce
  then have s: "start b life h = (r, emit ClosedStore g)" using box by (simp add: start_def deferred_def)
  obtain evs where evs: "ho_events g = ho_events h @ ?open # evs" "closed_again evs"
    "case r of Inl _ \<Rightarrow> filter is_launch evs = []
      | Inr _ \<Rightarrow> (\<exists>addr. o_listen b ''127.0.0.1:0'' = Inr addr \<and> filter is_launch evs = map Launch (services b addr))"
    using start_store_ran[of "emit ?open h" b life st] g by (auto simp: ran_def emit_def)
  have "closed_again (?open # evs @ [ClosedStore])"
    using closed_again_simps(2)[OF evs(2), of ?open ClosedStore] by (simp add: is_close_def)
  then show ?thesis using s evs(1,3)
    by (intro exI[of _ "?open # evs @ [ClosedStore]"]) (simp add: emit_def closed_again_def split: sum.splits)
qed

section \<open>The program that was started\<close>

lemma store_wf_cipher: "store_wf (st\<lparr>cipher := box\<rparr>) = store_wf st"
  by (simp add: store_wf_def routed_def)

lemma new_server_inv: "store_wf st \<Longrightarrow> web_inv (new_server st fs w)"
  using new_sys_inv[of st fs w] by (simp add: new_server_def web_inv_def counts_ok_def failureLimit_def)

lemma prepare_done:
  assumes "prepare b st addr h = (Inr s, g)"
  shows "\<exists>h1 h2 y. on_fs (InstallHooks hook_events DefaultPPPDir addr) h = (Inr (), h1) \<and>
    on_links (LinkCHAPSecrets DefaultPPPDir (run_dir b)) h1 = (Inr (), h2) \<and>
    Prerender (boot_mgr b) (new_sys st (ho_fs h2) (ho_world h2)) = (Inr (), y) \<and>
    s = (new_server st (ho_fs h2) (ho_world h2))\<lparr>v_chk := (v_chk (new_server st (ho_fs h2) (ho_world h2)))\<lparr>kc_sys := y\<rparr>\<rparr> \<and>
    g = h2\<lparr>ho_fs := y_fs y, ho_world := y_world y\<rparr>"
proof -
  obtain h1 h2 where m: "on_fs (InstallHooks hook_events DefaultPPPDir addr) h = (Inr (), h1)"
    "on_links (LinkCHAPSecrets DefaultPPPDir (run_dir b)) h1 = (Inr (), h2)"
    and rest: "(let s = new_server st (ho_fs h2) (ho_world h2) in
       case Prerender (boot_mgr b) (kc_sys (v_chk s)) of
         (Inl err, y) \<Rightarrow> (Inl (BootErr err), h2\<lparr>ho_fs := y_fs y, ho_world := y_world y\<rparr>)
       | (Inr _, y) \<Rightarrow> (Inr (s\<lparr>v_chk := (v_chk s)\<lparr>kc_sys := y\<rparr>\<rparr>), h2\<lparr>ho_fs := y_fs y, ho_world := y_world y\<rparr>)) = (Inr s, g)"
    using assms unfolding prepare_def sbind_Inr_iff by auto
  obtain r y where p: "Prerender (boot_mgr b) (new_sys st (ho_fs h2) (ho_world h2)) = (r, y)" by fastforce
  have k: "kc_sys (v_chk (new_server st (ho_fs h2) (ho_world h2))) = new_sys st (ho_fs h2) (ho_world h2)"
    by (simp add: new_server_def)
  show ?thesis using m p rest by (cases r) (auto simp: Let_def k)
qed

lemma prepare_inv:
  fixes g :: "'w host"
  assumes "prepare b st addr h = (Inr s, g)" "store_wf st"
  shows "web_inv s"
proof -
  obtain h2 :: "'w host" and y where y: "Prerender (boot_mgr b) (new_sys st (ho_fs h2) (ho_world h2)) = (Inr (), y)"
    and s: "s = (new_server st (ho_fs h2) (ho_world h2))\<lparr>v_chk := (v_chk (new_server st (ho_fs h2) (ho_world h2)))\<lparr>kc_sys := y\<rparr>\<rparr>"
    using prepare_done[OF assms(1)] by blast
  have "mgr_inv (new_sys st (ho_fs h2) (ho_world h2))" by (rule new_sys_inv[OF assms(2)])
  then have "mgr_inv y"
    using mgr_step_inv[of "new_sys st (ho_fs h2) (ho_world h2)" EvPrerender "boot_mgr b"] y by simp
  then show ?thesis using new_server_inv[OF assms(2), of "ho_fs h2" "ho_world h2"] s by (simp add: web_inv_def)
qed

lemma start_server_state:
  assumes "start b life h = (Inr (), g)"
  shows "\<exists>box st addr h1 s h2. boot_key b = Inr box \<and> boot_open b box = Inr st \<and> o_listen b ''127.0.0.1:0'' = Inr addr \<and>
    ho_fs h1 = ho_fs h \<and> prepare b st addr h1 = (Inr s, h2) \<and> ho_server g = Some (run_cmds (web_step (boot_web b)) life s)"
proof -
  obtain box st where box: "boot_key b = Inr box" "boot_open b box = Inr st"
    using assms by (auto simp: start_def split: sum.splits)
  let ?h = "emit (OpenedStore (env_or (o_getenv b) ''TSV_VPN_DB'' ''/data/tsv-vpn.db'')) h"
  obtain g1 where g1: "start_store b life st ?h = (Inr (), g1)" "ho_server g = ho_server g1"
    using assms box by (auto simp: start_def deferred_def emit_def split: prod.splits)
  obtain u1 h1 u2 h2 where m: "on_fs (fs_do (MkdirAll (run_dir b)) () (\<lambda>f. f)) ?h = (Inr u1, h1)"
    "on_fs (fs_do (MkdirAll xl2tpdRunDir) () (\<lambda>f. f)) h1 = (Inr u2, h2)"
    and rest: "(case o_listen b ''127.0.0.1:0'' of Inl err \<Rightarrow> (Inl (BootErr err), h2)
       | Inr addr \<Rightarrow> deferred ClosedListener
           (sbind (prepare b st addr) (\<lambda>s. deferred ClosedHooks (launch b life addr s))) (emit (Listening addr) h2)) = (Inr (), g1)"
    using g1(1) unfolding start_store_def sbind_Inr_iff by blast
  have fs: "ho_fs h2 = ho_fs h"
    using m by (auto simp: on_fs_def fs_do_def emit_def split: prod.splits sum.splits option.splits)
  obtain addr where addr: "o_listen b ''127.0.0.1:0'' = Inr addr" using rest by (cases "o_listen b ''127.0.0.1:0''") auto
  obtain g2 where g2: "sbind (prepare b st addr) (\<lambda>s. deferred ClosedHooks (launch b life addr s)) (emit (Listening addr) h2) = (Inr (), g2)"
    "ho_server g1 = ho_server g2"
    using rest addr by (auto simp: deferred_def emit_def split: prod.splits)
  obtain s h3 where p: "prepare b st addr (emit (Listening addr) h2) = (Inr s, h3)"
    "deferred ClosedHooks (launch b life addr s) h3 = (Inr (), g2)"
    using g2(1) unfolding sbind_Inr_iff by blast
  have "ho_server g2 = Some (run_cmds (web_step (boot_web b)) life s)"
    using p(2) by (auto simp: deferred_def launch_def Let_def emit_def)
  then show ?thesis using box addr fs p(1) g1(2) g2(2)
    by (intro exI[of _ box] exI[of _ st] exI[of _ addr] exI[of _ "emit (Listening addr) h2"] exI[of _ s] exI[of _ h3])
      (simp add: emit_def)
qed


section \<open>What pppd finds\<close>

lemma last_slash:
  assumes "xs @ CHR ''/'' # n = ys @ CHR ''/'' # m" "CHR ''/'' \<notin> set n" "CHR ''/'' \<notin> set m"
  shows "xs = ys \<and> n = m"
proof -
  have r: "rev n @ CHR ''/'' # rev xs = rev m @ CHR ''/'' # rev ys" using arg_cong[OF assms(1), of rev] by simp
  have t: "takeWhile (\<lambda>c. c \<noteq> CHR ''/'') (rev k @ CHR ''/'' # zs) = rev k" if "CHR ''/'' \<notin> set k" for k zs
  proof -
    have "\<forall>c \<in> set (rev k). c \<noteq> CHR ''/''" using that by (metis set_rev)
    then show ?thesis by (subst takeWhile_append2) auto
  qed
  have "rev n = rev m" using arg_cong[OF r, of "takeWhile (\<lambda>c. c \<noteq> CHR ''/'')"] t assms(2,3) by metis
  then show ?thesis using r by simp
qed

lemma desiredTunnels_all:
  "desiredTunnels e conns s = (Inr ts, s') \<Longrightarrow>
   list_all2 (\<lambda>conn t. \<exists>sec a. ConnectionSecrets (c_id conn) (y_store s) = Inr sec \<and> t = FromConnection conn sec a) conns ts
   \<and> y_fs s' = y_fs s"
proof (induction conns arbitrary: s ts s')
  case (Cons conn conns)
  obtain sec where sec: "ConnectionSecrets (c_id conn) (y_store s) = Inr sec"
    using Cons.prems by (cases "ConnectionSecrets (c_id conn) (y_store s)") auto
  obtain r s1 where r: "in_world (e_resolve e (c_gateway conn)) s = (r, s1)" by fastforce
  define s2 where "s2 = (case r of Inl err \<Rightarrow> logf (c_name conn @ '': resolve '' @ c_gateway conn @ '': '' @ err) s1 | Inr a \<Rightarrow> s1)"
  have same: "y_store s2 = y_store s" "y_fs s2 = y_fs s"
    using r by (auto simp: s2_def logf_def in_world_def split: sum.split prod.splits)
  obtain ts' s3 where ts': "desiredTunnels e conns s2 = (Inr ts', s3)" "s' = s3" "\<exists>a. ts = FromConnection conn sec a # ts'"
    using Cons.prems sec r by (auto simp: s2_def Let_def split: sum.splits prod.splits)
  then show ?case using Cons.IH[OF ts'(1)] sec same by auto
qed simp

lemma fromConnection_name: "t_name (FromConnection conn sec a) = c_name conn"
  by (simp add: FromConnection_def)

lemma tunnel_names:
  "list_all2 (\<lambda>conn t. \<exists>sec a. P conn sec \<and> t = FromConnection conn sec a) conns ts \<Longrightarrow> map t_name ts = map c_name conns"
  by (induction rule: list_all2_induct) (auto simp: fromConnection_name)

definition hook_path :: "string \<Rightarrow> string" where
  "hook_path dir = path_join (path_join DefaultPPPDir dir) ''tsv-vpn''"

lemma InstallHooks_files:
  assumes "InstallHooks hook_events DefaultPPPDir addr fs = (Inr (), fs')" "row_wf fst (fs_files fs)"
  shows "row_wf fst (fs_files fs')"
    "row_sel fst (hook_path ''ip-up.d'') (fs_files fs') = Some (hook_path ''ip-up.d'', hook_script addr ''up'')"
    "row_sel fst (hook_path ''ip-down.d'') (fs_files fs') = Some (hook_path ''ip-down.d'', hook_script addr ''down'')"
proof -
  let ?up = "(hook_path ''ip-up.d'', hook_script addr ''up'')" and ?down = "(hook_path ''ip-down.d'', hook_script addr ''down'')"
  have fs': "fs_files fs' = row_upsert fst ?down (row_upsert fst ?up (fs_files fs))"
    using assms(1) by (auto simp: hook_events_def install_hook_def sbind_Inr_iff fs_do_Inr os_WriteFile_def hook_path_def Let_def)
  have other: "hook_path ''ip-up.d'' \<noteq> hook_path ''ip-down.d''" by (simp add: hook_path_def path_join_def)
  note w1 = row_upsert_sel(2)[OF assms(2), of ?up]
  note u1 = row_upsert_sel(1)[OF assms(2), of _ ?up] and u2 = row_upsert_sel(1)[OF w1, of _ ?down]
  show "row_wf fst (fs_files fs')" unfolding fs' by (rule row_upsert_sel(2)[OF w1])
  show "row_sel fst (hook_path ''ip-up.d'') (fs_files fs') = Some ?up"
    "row_sel fst (hook_path ''ip-down.d'') (fs_files fs') = Some ?down"
    unfolding fs' u2 u1 using other by simp_all
qed

text \<open>Writing the configuration leaves the hooks alone, wherever it is written.\<close>

lemma hooks_not_written:
  assumes "dir \<in> {''ip-up.d'', ''ip-down.d''}" "\<forall>t \<in> set ts. CHR ''/'' \<notin> set (t_name t)"
  shows "wanted_file pr d ts (hook_path dir) = None"
    "\<nexists>n. hook_path dir = path_join (path_join d ''peers'') n \<and> CHR ''/'' \<notin> set n"
proof -
  have not_peer: "hook_path dir \<noteq> path_join (path_join d ''peers'') n" if "CHR ''/'' \<notin> set n" for n
  proof
    assume "hook_path dir = path_join (path_join d ''peers'') n"
    then have "path_join DefaultPPPDir dir = path_join d ''peers''"
      using last_slash[of "path_join DefaultPPPDir dir" "''tsv-vpn''" "path_join d ''peers''" n] that
      by (simp add: hook_path_def path_join_def)
    then show False using assms(1) arg_cong[of "path_join DefaultPPPDir dir" "path_join d ''peers''" last]
      by (auto simp: path_join_def)
  qed
  then show "\<nexists>n. hook_path dir = path_join (path_join d ''peers'') n \<and> CHR ''/'' \<notin> set n" by blast
  have "hook_path dir \<noteq> path_join d f" if "f \<in> {''swanctl.conf'', ''xl2tpd.conf'', ''chap-secrets''}" for f
    using arg_cong[of "hook_path dir" "path_join d f" last] that by (auto simp: hook_path_def path_join_def)
  moreover have "find (\<lambda>t. path_join (path_join d ''peers'') (t_name t) = hook_path dir) ts = None"
    using not_peer assms(2) by (force simp: find_None_iff)
  ultimately show "wanted_file pr d ts (hook_path dir) = None" by (simp add: wanted_file_def)
qed

lemma LinkCHAPSecrets_links:
  "LinkCHAPSecrets pppDir dir fs = (Inr (), fs') \<Longrightarrow>
   lk_node fs' (path_join pppDir ''chap-secrets'') = Some (Symlink (path_join dir ''chap-secrets''))"
  by (auto simp: LinkCHAPSecrets_def Let_def split: if_splits option.splits)

lemma boot_mgr_fields [simp]: "e_dir (boot_mgr b) = run_dir b" "e_print (boot_mgr b) = e_print (w_mgr (o_web b))"
  "e_resolve (boot_mgr b) = e_resolve (w_mgr (o_web b))"
  by (simp_all add: boot_mgr_def mgr_New_def)

text \<open>C17: Before anything is launched, pppd's fixed secrets path is a link to a file that holds exactly the
  rendered secrets of the enabled connections, and its two hook scripts post to the address the hook
  listener is bound to.\<close>

theorem start_feeds_pppd:
  fixes h :: "'w host"
  assumes p: "prepare b st addr h = (Inr s, g)" and wf: "store_wf st" "row_wf fst (fs_files (ho_fs h))"
  defines "target \<equiv> path_join (run_dir b) ''chap-secrets''"
  shows "\<exists>conns ts. ListConnections st = Inr conns \<and>
    list_all2 (\<lambda>conn t. \<exists>sec a. ConnectionSecrets (c_id conn) st = Inr sec \<and> t = FromConnection conn sec a)
      (filter c_enabled conns) ts \<and>
    lk_node (ho_link g) (path_join DefaultPPPDir ''chap-secrets'') = Some (Symlink target) \<and>
    row_sel fst target (fs_files (ho_fs g)) = Some (target, RenderCHAPSecrets (e_print (w_mgr (o_web b))) ts) \<and>
    row_sel fst (hook_path ''ip-up.d'') (fs_files (ho_fs g)) = Some (hook_path ''ip-up.d'', hook_script addr ''up'') \<and>
    row_sel fst (hook_path ''ip-down.d'') (fs_files (ho_fs g)) = Some (hook_path ''ip-down.d'', hook_script addr ''down'')"
proof -
  obtain h1 h2 :: "'w host" and y where m: "on_fs (InstallHooks hook_events DefaultPPPDir addr) h = (Inr (), h1)"
    "on_links (LinkCHAPSecrets DefaultPPPDir (run_dir b)) h1 = (Inr (), h2)"
    and y: "Prerender (boot_mgr b) (new_sys st (ho_fs h2) (ho_world h2)) = (Inr (), y)"
    and g: "g = h2\<lparr>ho_fs := y_fs y, ho_world := y_world y\<rparr>"
    using prepare_done[OF p] by blast
  have i: "InstallHooks hook_events DefaultPPPDir addr (ho_fs h) = (Inr (), ho_fs h1)"
    using m(1) by (auto simp: on_fs_def split: prod.splits sum.splits)
  have l: "LinkCHAPSecrets DefaultPPPDir (run_dir b) (ho_link h1) = (Inr (), ho_link h2)" "ho_fs h2 = ho_fs h1"
    using m(2) by (auto simp: on_links_def split: prod.splits sum.splits)
  have link: "lk_node (ho_link h2) (path_join DefaultPPPDir ''chap-secrets'') = Some (Symlink target)"
    using LinkCHAPSecrets_links[OF l(1)] by (simp add: target_def)
  note files = InstallHooks_files[OF i wf(2)]
  obtain conns ts y1 where c: "ListConnections st = Inr conns"
    "desiredTunnels (boot_mgr b) (filter c_enabled conns) (new_sys st (ho_fs h2) (ho_world h2)) = (Inr ts, y1)"
    "write_files (boot_mgr b) ts y1 = (Inr (), y)"
    using y by (auto simp: Prerender_def new_sys_def split: sum.splits prod.splits)
  have all: "list_all2 (\<lambda>conn t. \<exists>sec a. ConnectionSecrets (c_id conn) st = Inr sec \<and> t = FromConnection conn sec a)
      (filter c_enabled conns) ts" "y_fs y1 = ho_fs h1"
    using desiredTunnels_all[OF c(2)] l(2) by (simp_all add: new_sys_def)
  have names: "map t_name ts = map c_name (filter c_enabled conns)" using tunnel_names[OF all(1)] .
  have "distinct (map t_name ts)"
    using listed_distinct[OF wf(1) c(1)] by (simp add: names distinct_map_filter)
  moreover have "Write (e_print (w_mgr (o_web b))) (run_dir b) ts (ho_fs h1) = (Inr (), y_fs y)"
    using c(3) all(2) by (auto simp: write_files_def split: prod.splits)
  ultimately have w: "row_sel fst q (fs_files (y_fs y)) = (case wanted_file (e_print (w_mgr (o_web b))) (run_dir b) ts q of
      Some k \<Rightarrow> Some (q, k)
    | None \<Rightarrow> if \<exists>n. q = path_join (path_join (run_dir b) ''peers'') n \<and> CHR ''/'' \<notin> set n then None
              else row_sel fst q (fs_files (ho_fs h1)))" for q
    using Write_files files(1) by blast
  have "CHR ''/'' \<notin> set (t_name t)" if "t \<in> set ts" for t
  proof -
    have "t_name t \<in> c_name ` set conns" using that names by (metis filter_is_subset image_mono image_set list.set_map subsetD imageI)
    moreover have "conns = map scanConnection (sort_key r_name (tconns st))"
      using c(1) by (simp add: ListConnections_def query_def split: option.splits)
    ultimately obtain r where "r \<in> set (tconns st)" "t_name t = r_name r" by auto
    then have "name_pattern (t_name t)" using store_wf_fields(3)[OF wf(1)] by (auto simp: row_ok_def)
    then show ?thesis by (auto simp: name_pattern_def is_alnum_def is_digit_def)
  qed
  then have none: "\<forall>t \<in> set ts. CHR ''/'' \<notin> set (t_name t)" by blast
  have "row_sel fst target (fs_files (y_fs y)) = Some (target, RenderCHAPSecrets (e_print (w_mgr (o_web b))) ts)"
    using w[of target] by (simp add: wanted_file_def target_def)
  moreover have "row_sel fst (hook_path dir) (fs_files (y_fs y)) = row_sel fst (hook_path dir) (fs_files (ho_fs h1))"
    if "dir \<in> {''ip-up.d'', ''ip-down.d''}" for dir
    using w[of "hook_path dir"] hooks_not_written[OF that none] by simp
  ultimately show ?thesis using c(1) all(1) link files(2,3) g by auto
qed

section \<open>The retention of the log\<close>

text \<open>What the writer's operations leave alone.\<close>

definition log_frame :: "string \<Rightarrow> duration \<Rightarrow> (fs_op \<Rightarrow> string option) \<Rightarrow> dailyw \<Rightarrow> bool" where
  "log_frame dir n faults w \<longleftrightarrow> d_dir w = dir \<and> d_retention w = n \<and> fs_fault (d_fs w) = faults"

lemma fs_fault_kept: "fs_fault (snd (fs_do op x f fs)) = fs_fault fs" "fs_fault (snd (os_Remove path fs)) = fs_fault fs"
  "fs_fault (snd (os_ReadDir path fs)) = fs_fault fs" "fs_fault (snd (os_OpenFile path fs)) = fs_fault fs"
  by (simp_all add: fs_do_def os_Remove_def os_ReadDir_def os_OpenFile_def split: option.split)

lemma log_frame_lift:
  "log_frame dir n faults w \<Longrightarrow> fs_fault (snd (act (d_fs w))) = fs_fault (d_fs w) \<Longrightarrow> log_frame dir n faults (snd (fs_lift act w))"
  by (auto simp: log_frame_def fs_lift_def split: prod.split sum.split)

lemma log_frame_prune_entries: "log_frame dir n faults w \<Longrightarrow> log_frame dir n faults (snd (prune_entries c ns w))"
proof (induction c ns w rule: prune_entries.induct)
  case (2 c name ns w)
  then show ?case by (auto simp: log_frame_lift fs_fault_kept split: sum.split bool.split)
qed simp

lemma log_frame_prune: "log_frame dir n faults w \<Longrightarrow> log_frame dir n faults (snd (log_prune at w))"
proof -
  assume w: "log_frame dir n faults w"
  obtain r w' where r: "fs_lift (os_ReadDir (d_dir w)) w = (r, w')" by fastforce
  then have "log_frame dir n faults w'"
    using log_frame_lift[OF w, of "os_ReadDir (d_dir w)"] by (simp add: fs_fault_kept)
  then show ?thesis using r by (cases r) (simp_all add: log_prune_def log_frame_prune_entries)
qed

lemma log_frame_roll: "keeps (log_frame dir n faults) (roll at)"
proof -
  have "keeps (log_frame dir n faults)
      (sbind (fs_lift (os_OpenFile path)) (\<lambda>_ w. log_prune at (w\<lparr>d_file := Some path, d_closed := False, d_day := day\<rparr>)))" for path day
    by (intro keeps_sbind) (auto simp: keeps_def log_frame_lift fs_fault_kept intro!: log_frame_prune, simp add: log_frame_def)
  then show ?thesis by (simp add: keeps_def roll_def Let_def log_frame_def)
qed

lemma Setup_writer:
  assumes "logging_Setup dir retention zone now fs = Inr (Some w)"
  shows "log_frame dir (if retention \<le> 0 then DefaultRetention else retention) (fs_fault fs) w"
proof -
  let ?n = "if retention \<le> 0 then DefaultRetention else retention"
  have "keeps (log_frame dir ?n (fs_fault fs)) (sbind (fs_lift (fs_do (MkdirAll dir) () (\<lambda>f. f))) (\<lambda>_. roll now))"
    by (intro keeps_sbind log_frame_roll) (auto simp: keeps_def log_frame_lift fs_fault_kept)
  then have "log_frame dir ?n (fs_fault fs) (snd (newDailyWriter dir ?n zone now fs))"
    by (simp add: keeps_def newDailyWriter_def log_frame_def)
  then show ?thesis using assms
    by (auto simp: logging_Setup_def Let_def split: if_splits prod.splits sum.splits)
qed

lemma unset_retention: "getenv ''TSV_VPN_LOG_RETENTION'' = [] \<Longrightarrow> logRetention frac getenv = DefaultRetention"
  by (simp add: logRetention_def ParseDuration_def)

text \<open>The retention in the environment is the one that is applied: set to a duration written as numbers
  with units, it makes the log writer, whenever it prunes, remove exactly the log files of the days
  before that long ago; a duration of zero stands for thirty days.\<close>

theorem log_retention_applies:
  assumes parts: "parts \<noteq> []" "\<forall>(n, u) \<in> set parts. unitMap u \<noteq> None"
    and ns: "ns = (\<Sum>(n, u) \<leftarrow> parts. n * the (unitMap u))" "ns < 2 ^ 63"
    and env: "getenv ''TSV_VPN_LOG_RETENTION'' = concat (map (\<lambda>(n, u). dec n @ u) parts)"
    and made: "logging_Setup dir (logRetention frac getenv) zone now fs = Inr (Some w)"
    and quiet: "fs_fault fs (ReadDir dir) = None" "\<forall>n. fs_fault fs (Remove (path_join dir n)) = None"
      "path_join dir (filePrefix @ fileSuffix) \<notin> fst ` set (fs_files (d_fs w))"
  shows "fs_files (d_fs (snd (log_prune at w))) =
    filter (\<lambda>(p, _). \<not> (\<exists>name. p = path_join dir name \<and> CHR ''/'' \<notin> set name \<and>
      expired_name (at - (if ns = 0 then DefaultRetention else int ns)) name)) (fs_files (d_fs w))"
proof -
  have "logRetention frac getenv = int ns"
    using ParseDuration_print[OF parts ns] env by (simp add: logRetention_def)
  then have w: "d_dir w = dir" "d_retention w = (if ns = 0 then DefaultRetention else int ns)" "fs_fault (d_fs w) = fs_fault fs"
    using Setup_writer[OF made] by (auto simp: log_frame_def)
  show ?thesis using prune_removes_expired[of w at] quiet unfolding w by simp
qed

section \<open>A router that sends no reply\<close>

lemma reads_context: "reads (icmp\<lparr>ic_ctxEnd := c\<rparr>) w ps err w' = reads icmp w ps err w'"
proof
  show "reads icmp w ps err w'" if "reads (icmp\<lparr>ic_ctxEnd := c\<rparr>) w ps err w'"
    using that by (induction rule: reads.induct) (auto intro: reads.intros)
  show "reads (icmp\<lparr>ic_ctxEnd := c\<rparr>) w ps err w'" if "reads icmp w ps err w'"
    using that by (induction rule: reads.induct) (auto intro: reads.intros)
qed

text \<open>\<open>silent icmp a\<close>: every read ends, and no packet comes from \<open>a\<close>.\<close>

definition silent :: "'w icmp \<Rightarrow> addr \<Rightarrow> bool" where
  "silent icmp a \<longleftrightarrow> (\<forall>w. \<exists>ps err w'. reads icmp w ps err w' \<and> show_addr a \<notin> snd ` set ps)"

lemma silent_ping:
  assumes "silent icmp a"
  shows "\<exists>err w'. Ping (icmp\<lparr>ic_ctxEnd := c\<rparr>) source timeout a w = Some (Inl err, w')"
proof -
  let ?e = "icmp\<lparr>ic_ctxEnd := c\<rparr>"
  have wait: "\<exists>err v'. ping_wait ?e a ident sentAt v = Some (Inl err, v')" for ident sentAt v
  proof -
    obtain ps err v' where ps: "reads ?e v ps err v'" "show_addr a \<notin> snd ` set ps"
      using assms unfolding silent_def reads_context by blast
    then have "\<not> (\<exists>p \<in> set ps. ping_answer ?e a ident p)" by (force simp: ping_answer_def)
    then show ?thesis using ping_wait_reads[OF ps(1), of a ident sentAt] by simp
  qed
  then show ?thesis
    unfolding Ping_def by (auto split: prod.split sum.split)
qed

lemma silent_ping_fails:
  assumes "silent (o_icmp b) a"
  shows "ping_fails (boot_checks b) a"
  unfolding ping_fails_def
proof (intro allI)
  fix iface w
  let ?t = "chk_timeout (boot_checks b)"
  obtain n w1 where n: "ic_now (o_icmp b) w = (n, w1)" by fastforce
  let ?e = "(o_icmp b)\<lparr>ic_ctxEnd := Some (n + ?t)\<rparr>"
  have "\<exists>err w'. InterfacePinger_Ping ?e (o_addrs b) 0 a iface w1 = Some (Inl err, w')"
    using silent_ping[OF assms] by (auto simp: InterfacePinger_Ping_def split: sum.split)
  then obtain err w' where "InterfacePinger_Ping ?e (o_addrs b) 0 a iface w1 = Some (Inl err, w')" by blast
  then have "h_ping (boot_checks b) a iface ?t w = (Inl (net_text err), w')"
    using n by (simp add: boot_checks_def with_timeout_def returned_def)
  then show "\<exists>err w'. h_ping (boot_checks b) a iface ?t w = (Inl err, w')" by blast
qed

text \<open>C12: From the socket to the manager: when reads on raw sockets end and no packet comes from the
  check address of an enabled connection whose tunnel is up, the tunnel survives two rounds of the
  checks that the process was started with, and in the third it is failed, off its interface, and
  the manager is woken.\<close>

theorem silent_router_loses_tunnel:
  assumes inv: "mgr_inv (kc_sys c)"
    and list: "ListConnections (y_store (kc_sys c)) = Inr conns" and conn: "conn \<in> set conns" "c_enabled conn"
    and addr: "ParseAddr (c_hcip conn) = Some a" "silent (o_icmp b) a"
    and up: "the_tunnel (c_name conn) (kc_sys c) = Some t" "k_phase t = StateUp" "k_iface t \<noteq> []"
    and fresh: "kc_fails c (c_name conn) = 0"
  defines "e \<equiv> boot_checks b"
  shows "the_tunnel (c_name conn) (kc_sys (check_ticks e 2 c)) = Some t \<and>
    (\<exists>t'. the_tunnel (c_name conn) (kc_sys (check_ticks e 3 c)) = Some t' \<and> k_phase t' = StateFailed
           \<and> k_iface t' = [] \<and> k_failures t' = k_failures t + 1 \<and> y_nudge (kc_sys (check_ticks e 3 c)))"
  using three_failed_rounds[OF inv list conn addr(1) silent_ping_fails[OF addr(2)] up fresh] unfolding e_def .

section \<open>A process for examples\<close>

text \<open>Its key is 32 bytes, its database that of the manager's examples, and its sockets hear nothing.\<close>

definition quiet_icmp :: "int icmp" where
  "quiet_icmp = \<lparr>ic_listen = \<lambda>_ w. (Inr (), w), ic_close = \<lambda>w. w, ic_ttl = \<lambda>_ w. (Inr (), w),
     ic_deadline = \<lambda>_ w. (Inr (), w), ic_write = \<lambda>_ _ w. (Inr (), w),
     ic_read = \<lambda>w. (Inl (NetTimeout ''i/o timeout''), w + Second), ic_marshal = \<lambda>_ _ data. Inr data,
     ic_parse = \<lambda>_. None, ic_rand = \<lambda>_ w. (Inr [CHR 0x01, CHR 0x02], w), ic_now = \<lambda>w. (w, w),
     ic_ctxErr = \<lambda>w. (None, w), ic_ctxEnd = None, ic_lookup = \<lambda>_ w. (Inr [], w)\<rparr>"

definition demo_boot :: "int boot" where
  "demo_boot = \<lparr>o_getenv = \<lambda>name. if name = ''TSV_VPN_LOG_RETENTION'' then ''24h'' else [],
     o_keyFile = \<lambda>_. Inr (replicate 32 (CHR ''k'')), o_gcm = \<lambda>_. demo_aead,
     o_database = \<lambda>_. (None, \<lparr>mg_version = 0, mg_data = demo_db, mg_fault = \<lambda>_. None\<rparr>),
     o_sql = \<lambda>_ st. Inr st, o_embedded = [], o_listen = \<lambda>_. Inr ''127.0.0.1:4711'',
     o_fraction = \<lambda>_ _ _. 0, o_icmp = quiet_icmp, o_addrs = \<lambda>_. Inr [Some (Addr4 0x0A010002, 32)],
     o_lookup = \<lambda>_ _ w. (Inr [], w), o_decode = \<lambda>_. Inl ''no status'', o_cryptoText = \<lambda>_. ''crypto'',
     o_addrErr = \<lambda>_. ''unable to parse IP'', o_web = demo_web\<rparr>"

definition demo_host :: "int host" where
  "demo_host = \<lparr>ho_fs = \<lparr>fs_files = [], fs_fault = \<lambda>_. None\<rparr>,
     ho_link = \<lparr>lk_node = (\<lambda>_. None), lk_rmErr = None, lk_mkErr = None\<rparr>,
     ho_world = 100 * Second, ho_events = [], ho_out = [], ho_server = None\<rparr>"

lemma demo_boot_open: "boot_open demo_boot box = Inr (demo_db\<lparr>cipher := box\<rparr>)"
  by (simp add: boot_open_def demo_boot_def db_Open_def migrate_def mig_call_def)

lemma demo_starts: "fst (start demo_boot [] demo_host) = Inr ()"
  by code_simp

lemma demo_prepares: "\<exists>s g. prepare demo_boot demo_db ''127.0.0.1:4711'' demo_host = (Inr s, g)"
proof -
  have "\<not> isl (fst (prepare demo_boot demo_db ''127.0.0.1:4711'' demo_host))" by code_simp
  then show ?thesis by (cases "prepare demo_boot demo_db ''127.0.0.1:4711'' demo_host") (auto simp: isl_def split: sum.splits intro: sum.exhaust)
qed

lemma quiet_silent: "silent quiet_icmp a"
proof -
  have "reads quiet_icmp w [] (NetTimeout ''i/o timeout'') (w + Second)" for w
    by (rule reads_fail) (simp add: quiet_icmp_def)
  then show ?thesis unfolding silent_def by fastforce
qed

lemma start_result_life: "fst (start b life h) = fst (start b life' h)"
proof -
  have "fst (start_store b life st g) = fst (start_store b life' st g)" for st g
    by (simp add: start_store_def sbind_def deferred_def launch_def Let_def case_prod_beta split: sum.split)
  then show ?thesis by (simp add: start_def deferred_def case_prod_beta split: sum.split)
qed


lemma start_feeds_pppd_witness:
  "\<exists>s g. prepare demo_boot demo_db ''127.0.0.1:4711'' demo_host = (Inr s, g) \<and>
     lk_node (ho_link g) ''/etc/ppp/chap-secrets'' = Some (Symlink ''/run/tsv-vpn/chap-secrets'') \<and>
     row_sel fst (hook_path ''ip-up.d'') (fs_files (ho_fs g)) = Some (hook_path ''ip-up.d'', hook_script ''127.0.0.1:4711'' ''up'')"
proof -
  obtain s g where p: "prepare demo_boot demo_db ''127.0.0.1:4711'' demo_host = (Inr s, g)" using demo_prepares by blast
  have wf: "row_wf fst (fs_files (ho_fs demo_host))" by (simp add: demo_host_def row_wf_def)
  have "run_dir demo_boot = ''/run/tsv-vpn''" by (simp add: run_dir_def env_or_def demo_boot_def)
  then show ?thesis using start_feeds_pppd[OF p demo_db_wf wf] p by (auto simp: path_join_def DefaultPPPDir_def)
qed

lemma log_retention_applies_witness:
  "\<exists>w. logging_Setup ''/l'' (logRetention (\<lambda>_ _ _. 0) (o_getenv demo_boot)) 0 (40 * Day) (d_fs demo_writer) = Inr (Some w) \<and>
     map fst (fs_files (d_fs w)) = [''/l/notes'', ''/l/tsv-vpn-0001-02-09.log'', ''/l/tsv-vpn-0001-02-10.log''] \<and>
     (\<forall>p \<in> set (fs_files (d_fs (snd (log_prune (42 * Day) w)))). p \<in> set (fs_files (d_fs w)))"
proof -
  let ?text = "concat (map (\<lambda>(n, u). dec n @ u) [(24, ''h'')])"
  let ?r = "logging_Setup ''/l'' (logRetention (\<lambda>_ _ _. 0) (o_getenv demo_boot)) 0 (40 * Day) (d_fs demo_writer)"
  have "map_sum id (map_option (\<lambda>w. map fst (fs_files (d_fs w)))) ?r =
      Inr (Some [''/l/notes'', ''/l/tsv-vpn-0001-02-09.log'', ''/l/tsv-vpn-0001-02-10.log''])" by code_simp
  then obtain w where w: "?r = Inr (Some w)"
    "map fst (fs_files (d_fs w)) = [''/l/notes'', ''/l/tsv-vpn-0001-02-09.log'', ''/l/tsv-vpn-0001-02-10.log'']"
    by (cases ?r) auto
  have shown: "o_getenv demo_boot ''TSV_VPN_LOG_RETENTION'' = ?text" by code_simp
  have ns: "86400000000000 = (\<Sum>(n, u) \<leftarrow> [(24, ''h'')]. n * the (unitMap u))" "(86400000000000::nat) < 2 ^ 63"
    "\<forall>(n, u) \<in> set [(24::nat, ''h'')]. unitMap u \<noteq> None" "[(24::nat, ''h'')] \<noteq> []"
    by (simp_all add: unitMap_def)
  have quiet: "fs_fault (d_fs demo_writer) op = None" for op by (simp add: demo_writer_def)
  have bare: "path_join ''/l'' (filePrefix @ fileSuffix) \<notin> fst ` set (fs_files (d_fs w))"
  proof -
    have "path_join ''/l'' (filePrefix @ fileSuffix) \<notin> set (map fst (fs_files (d_fs w)))" unfolding w(2) by code_simp
    then show ?thesis by simp
  qed
  show ?thesis
    using log_retention_applies[OF ns(4,3,1,2) shown w(1) quiet _ bare, of "42 * Day"] quiet w by auto
qed

lemma silent_router_loses_tunnel_witness:
  "\<exists>t'. the_tunnel ''alpha'' (kc_sys (check_ticks (boot_checks demo_boot) 3 demo_checker)) = Some t'
     \<and> k_phase t' = StateFailed"
proof -
  have "demo_checked \<in> set [demo_checked]" "the_tunnel (c_name demo_checked) (kc_sys demo_checker) = Some demo_up"
    "k_phase demo_up = StateUp" "k_iface demo_up \<noteq> []" "kc_fails demo_checker (c_name demo_checked) = 0"
    by (simp_all add: demo_checker_facts(5,6)) (simp_all add: demo_up_def demo_checker_def)
  moreover have "silent (o_icmp demo_boot) (Addr4 0x0A010009)" using quiet_silent by (simp add: demo_boot_def)
  ultimately show ?thesis
    using silent_router_loses_tunnel[OF demo_checker_facts(1,2) _ demo_checker_facts(3,4), of demo_boot demo_up]
    by (auto simp: demo_checker_facts(6))
qed

end
