(* ===== verification/Sections.thy ===== *)
theory Sections
  imports Threads ManagerInv
begin

text \<open>
  The operations of \<open>reconcile.go\<close> at the grain at which goroutines interleave: every stretch between
  a \<open>Lock\<close> and its \<open>Unlock\<close>, every external command, every call of the store and every line of the log is
  one section.  The map holds pointers, so the tunnels are objects here: an operation that has looked
  one up still writes to it after it has left the map.
\<close>

section \<open>State\<close>

text \<open>\<open>co_sys\<close> holds everything but the tunnels.\<close>

record 'w con =
  co_objs :: "tstate list"
  co_map :: "(string \<times> nat) list"
  co_sys :: "'w sys"

type_synonym ('w, 'a) sec = "('w con, 'a) prog"

definition obj :: "nat \<Rightarrow> 'w con \<Rightarrow> tstate" where
  "obj r c = co_objs c ! r"

definition on_obj :: "nat \<Rightarrow> (tstate \<Rightarrow> tstate) \<Rightarrow> 'w con \<Rightarrow> 'w con" where
  "on_obj r f c = c\<lparr>co_objs := (co_objs c)[r := f (obj r c)]\<rparr>"

text \<open>A section that leaves the tunnels alone.\<close>

definition sysop :: "('w, 'a) act \<Rightarrow> ('w, 'a) sec" where
  "sysop f = sect (\<lambda>c. case f (co_sys c) of (a, y) \<Rightarrow> (a, c\<lparr>co_sys := y\<rparr>))"

definition cmd :: "'w env \<Rightarrow> command \<Rightarrow> ('w, string + string) sec" where
  "cmd e x = sysop (sh e x)"

definition say :: "string \<Rightarrow> ('w, unit) sec" where
  "say msg = sysop (\<lambda>y. ((), logf msg y))"

definition say_error :: "string \<Rightarrow> string + 'a \<Rightarrow> ('w, unit) sec" where
  "say_error what r = (case r of Inl err \<Rightarrow> say (what @ err) | Inr _ \<Rightarrow> Ret ())"

definition read_id :: "nat \<Rightarrow> ('w, int) sec" where
  "read_id r = sect (\<lambda>c. (k_id (obj r c), c))"

text \<open>The lookups of the map, with what the locked section copies; \<open>g\<close> is what it writes before it unlocks.\<close>

definition look_and :: "(tstate \<Rightarrow> tstate) \<Rightarrow> string \<Rightarrow> ('w, (nat \<times> tstate) option) sec" where
  "look_and g name = sect (\<lambda>c. case map_of (co_map c) name of
      None \<Rightarrow> (None, c)
    | Some r \<Rightarrow> (Some (r, obj r c), on_obj r g c))"

definition look :: "string \<Rightarrow> ('w, (nat \<times> tstate) option) sec" where
  "look name = look_and (\<lambda>t. t) name"

text \<open>A locked write, and one that reads the clock while the lock is held.\<close>

definition locked :: "nat \<Rightarrow> (tstate \<Rightarrow> tstate) \<Rightarrow> ('w, unit) sec" where
  "locked r g = sect (\<lambda>c. ((), on_obj r g c))"

definition locked_now :: "'w env \<Rightarrow> nat \<Rightarrow> (time \<Rightarrow> tstate \<Rightarrow> tstate) \<Rightarrow> ('w, unit) sec" where
  "locked_now e r g = sect (\<lambda>c. case in_world (e_now e) (co_sys c) of
     (now, y) \<Rightarrow> ((), on_obj r (g now) (c\<lparr>co_sys := y\<rparr>)))"

section \<open>Commands\<close>

primrec addRoutes_sec :: "'w env \<Rightarrow> string \<Rightarrow> string list \<Rightarrow> ('w, string + unit) sec" where
  "addRoutes_sec e iface [] = Ret (Inr ())"
| "addRoutes_sec e iface (s # ss) = bindp (cmd e (ip_route ''replace'' s iface))
     (\<lambda>r. case r of Inl err \<Rightarrow> Ret (Inl err) | Inr _ \<Rightarrow> addRoutes_sec e iface ss)"

primrec removeRoutes_sec :: "'w env \<Rightarrow> string \<Rightarrow> string list \<Rightarrow> ('w, string + unit) sec" where
  "removeRoutes_sec e iface [] = Ret (Inr ())"
| "removeRoutes_sec e iface (s # ss) = bindp (cmd e (ip_route ''del'' s iface))
     (\<lambda>r. case r of Inl err \<Rightarrow> if alreadyGone err then removeRoutes_sec e iface ss else Ret (Inl err)
          | Inr _ \<Rightarrow> removeRoutes_sec e iface ss)"

definition ensureRule_sec :: "'w env \<Rightarrow> rule \<Rightarrow> ('w, string + unit) sec" where
  "ensureRule_sec e u = bindp (cmd e (iptables ''-C'' u))
     (\<lambda>r. case r of Inr _ \<Rightarrow> Ret (Inr ())
          | Inl _ \<Rightarrow> bindp (cmd e (iptables ''-A'' u))
              (\<lambda>r. Ret (case r of Inl err \<Rightarrow> Inl err | Inr _ \<Rightarrow> Inr ())))"

primrec ensure_each_sec :: "'w env \<Rightarrow> rule list \<Rightarrow> ('w, string + unit) sec" where
  "ensure_each_sec e [] = Ret (Inr ())"
| "ensure_each_sec e (u # us) = bindp (ensureRule_sec e u)
     (\<lambda>r. case r of Inl err \<Rightarrow> Ret (Inl err) | Inr _ \<Rightarrow> ensure_each_sec e us)"

primrec delete_each_sec :: "'w env \<Rightarrow> rule list \<Rightarrow> ('w, string + unit) sec" where
  "delete_each_sec e [] = Ret (Inr ())"
| "delete_each_sec e (u # us) = bindp (cmd e (iptables ''-D'' u))
     (\<lambda>r. case r of Inl err \<Rightarrow> if alreadyGone err then delete_each_sec e us else Ret (Inl err)
          | Inr _ \<Rightarrow> delete_each_sec e us)"

section \<open>Tearing down\<close>

definition tearDown_sec :: "'w env \<Rightarrow> string \<Rightarrow> string \<Rightarrow> string list \<Rightarrow> ('w, unit) sec" where
  "tearDown_sec e name iface subnets =
     (if iface = [] then Ret ()
      else bindp (removeRoutes_sec e iface subnets) (\<lambda>r.
           bindp (say_error (name @ '': remove routes: '') r) (\<lambda>_.
           bindp (delete_each_sec e (natRules iface)) (\<lambda>r.
           say_error (name @ '': remove nat: '') r))))"

definition terminate_sec :: "'w env \<Rightarrow> string \<Rightarrow> ('w, unit) sec" where
  "terminate_sec e name = bindp (cmd e (swanctl e [''--terminate'', ''--ike'', name]))
     (\<lambda>r. case r of Inl err \<Rightarrow>
             if \<not> Contains err ''no matching SAs'' then say (name @ '': terminate: '' @ err) else Ret ()
          | Inr _ \<Rightarrow> Ret ())"

text \<open>\<open>m.setStatus(tunnel.id, ...)\<close>: the id is read when the lock is no longer held.\<close>

definition setStatus_sec :: "'w env \<Rightarrow> nat \<Rightarrow> db_state \<Rightarrow> string \<Rightarrow> ('w, unit) sec" where
  "setStatus_sec e r phase reason = bindp (read_id r) (\<lambda>i.
     bindp (sysop (put_status e ((empty_status i phase)\<lparr>t_err := reason\<rparr>))) (\<lambda>x.
     case x of Inl err \<Rightarrow> say (''connection '' @ dec_int i @ '': record status: '' @ e_text e err)
     | Inr _ \<Rightarrow> Ret ()))"

definition drop_sec :: "'w env \<Rightarrow> string \<Rightarrow> ('w, unit) sec" where
  "drop_sec e name =
     bindp (look_and (\<lambda>t. t\<lparr>k_phase := StateDisconnected, k_iface := [], k_failures := 0, k_retry := 0\<rparr>) name) (\<lambda>x.
     case x of None \<Rightarrow> Ret ()
     | Some (r, t) \<Rightarrow>
         bindp (tearDown_sec e name (k_iface t) (k_subnets t)) (\<lambda>_.
         bindp (cmd e (ctl_Disconnect (e_ctl e) name)) (\<lambda>_.
         bindp (terminate_sec e name) (\<lambda>_.
         setStatus_sec e r StateDisconnected []))))"

definition disconnect_sec :: "'w env \<Rightarrow> nat \<Rightarrow> ('w, unit) sec" where
  "disconnect_sec e r =
     bindp (sect (\<lambda>c. (obj r c, c))) (\<lambda>t.
     bindp (tearDown_sec e (k_name t) (k_iface t) (k_subnets t)) (\<lambda>_.
     bindp (cmd e (ctl_Disconnect (e_ctl e) (k_name t))) (\<lambda>_.
     bindp (cmd e (ctl_Remove (e_ctl e) (k_name t))) (\<lambda>_.
     bindp (terminate_sec e (k_name t)) (\<lambda>_.
     setStatus_sec e r StateDisconnected [])))))"

definition fail_sec :: "'w env \<Rightarrow> string \<Rightarrow> string \<Rightarrow> string \<Rightarrow> ('w, unit) sec" where
  "fail_sec e name iface reason =
     bindp (look name) (\<lambda>x.
     case x of None \<Rightarrow> Ret ()
     | Some (r, t) \<Rightarrow>
         bindp (tearDown_sec e name iface (k_subnets t)) (\<lambda>_.
         bindp (locked_now e r (\<lambda>now t. t\<lparr>k_phase := StateFailed, k_iface := [],
                 k_failures := k_failures t + 1, k_retry := retry_from now (k_failures t + 1)\<rparr>)) (\<lambda>_.
         setStatus_sec e r StateFailed reason)))"

section \<open>Dialling\<close>

definition dialFailed_sec :: "'w env \<Rightarrow> nat \<Rightarrow> string \<Rightarrow> string \<Rightarrow> ('w, unit) sec" where
  "dialFailed_sec e r name err =
     bindp (locked_now e r (\<lambda>now t. t\<lparr>k_phase := StateFailed, k_failures := k_failures t + 1,
            k_retry := retry_from now (k_failures t + 1)\<rparr>)) (\<lambda>_.
     bindp (say (name @ '': dial: '' @ err)) (\<lambda>_.
     setStatus_sec e r StateFailed err))"

definition dial_sec :: "'w env \<Rightarrow> string \<Rightarrow> ('w, unit) sec" where
  "dial_sec e name =
     bindp (look name) (\<lambda>x.
     case x of None \<Rightarrow> Ret ()
     | Some (r, t) \<Rightarrow>
         bindp (cmd e (ctl_Disconnect (e_ctl e) name)) (\<lambda>_.
         bindp (cmd e (swanctl e [''--initiate'', ''--ike'', name, ''--child'', name, ''--timeout'', dec initiateTimeout])) (\<lambda>x.
         case x of Inl err \<Rightarrow> dialFailed_sec e r (k_name t) err
         | Inr _ \<Rightarrow>
             bindp (cmd e (ctl_Connect (e_ctl e) name)) (\<lambda>x.
             case x of Inl err \<Rightarrow> dialFailed_sec e r (k_name t) err
             | Inr _ \<Rightarrow>
                 bindp (locked_now e r (\<lambda>now t. t\<lparr>k_phase := StateConnecting, k_dialed := now\<rparr>)) (\<lambda>_.
                 setStatus_sec e r StateConnecting [])))))"

text \<open>The locked prologue of \<open>step\<close>, with the snapshot that it takes.\<close>

definition enter_sec :: "connection \<Rightarrow> ('w, tstate) sec" where
  "enter_sec conn = sect (\<lambda>c.
     let (r, c1) = (case map_of (co_map c) (c_name conn) of
           Some r \<Rightarrow> (r, c)
         | None \<Rightarrow> (length (co_objs c), c\<lparr>co_objs := co_objs c @ [new_tunnel conn],
                     co_map := co_map c @ [(c_name conn, length (co_objs c))]\<rparr>));
         c2 = on_obj r (\<lambda>t. t\<lparr>k_id := c_id conn, k_subnets := c_subnets conn\<rparr>) c1
     in (obj r c2, c2))"

definition step_sec :: "'w env \<Rightarrow> connection \<Rightarrow> ('w, unit) sec" where
  "step_sec e conn =
     bindp (enter_sec conn) (\<lambda>t.
     bindp (sysop (in_world (e_now e))) (\<lambda>now.
     case k_phase t of
       StateUp \<Rightarrow> Ret ()
     | StateConnecting \<Rightarrow>
         if time_Sub now (k_dialed t) < e_dial e then Ret ()
         else fail_sec e (c_name conn) (k_iface t) ''timed out waiting for a ppp interface''
     | _ \<Rightarrow> if now < k_retry t then Ret () else dial_sec e (c_name conn)))"

section \<open>Configuration and routes\<close>

primrec desired_sec :: "'w env \<Rightarrow> connection list \<Rightarrow> ('w, string + tunnel list) sec" where
  "desired_sec e [] = Ret (Inr [])"
| "desired_sec e (conn # conns) =
     bindp (sysop (\<lambda>y. (ConnectionSecrets (c_id conn) (y_store y), y))) (\<lambda>x.
     case x of Inl err \<Rightarrow> Ret (Inl (e_text e err))
     | Inr sec \<Rightarrow>
         bindp (sysop (in_world (e_resolve e (c_gateway conn)))) (\<lambda>a.
         bindp (say_error (c_name conn @ '': resolve '' @ c_gateway conn @ '': '') a) (\<lambda>_.
         bindp (desired_sec e conns) (\<lambda>ts.
         Ret (case ts of Inl err \<Rightarrow> Inl err
              | Inr ts \<Rightarrow> Inr (FromConnection conn sec (case a of Inl _ \<Rightarrow> [] | Inr addr \<Rightarrow> addr) # ts))))))"

definition writeConfigs_sec :: "'w env \<Rightarrow> connection list \<Rightarrow> ('w, string + tunnel list) sec" where
  "writeConfigs_sec e conns =
     bindp (desired_sec e conns) (\<lambda>x.
     case x of Inl err \<Rightarrow> Ret (Inl err)
     | Inr ts \<Rightarrow>
         bindp (sysop (\<lambda>y. ((changedTunnels (y_rendered y) (fingerprintsOf ts) ts,
                             length (y_rendered y) \<noteq> length (fingerprintsOf ts)), y))) (\<lambda>(changed, stale).
         if changed = [] \<and> \<not> stale then Ret (Inr [])
         else bindp (sysop (write_files e ts)) (\<lambda>x.
           case x of Inl err \<Rightarrow> Ret (Inl err)
           | Inr _ \<Rightarrow> bindp (cmd e (swanctl e [''--load-all'', ''--noprompt''])) (\<lambda>x.
               case x of Inl err \<Rightarrow> Ret (Inl err)
               | Inr _ \<Rightarrow> bindp (sysop (\<lambda>y. ((), y\<lparr>y_rendered := fingerprintsOf ts\<rparr>))) (\<lambda>_.
                   Ret (Inr changed))))))"

definition advertise_sec :: "'w env \<Rightarrow> ('w, string + unit) sec" where
  "advertise_sec e =
     bindp (sysop (\<lambda>y. (AdvertisedRoutes (y_store y), y))) (\<lambda>x.
     case x of Inl err \<Rightarrow> Ret (Inl (e_text e err))
     | Inr rs \<Rightarrow>
         bindp (sysop (\<lambda>y. (join '','' (sort rs) = y_advertised y, y))) (\<lambda>unchanged.
         if unchanged then Ret (Inr ())
         else (case e_tail e of None \<Rightarrow> Ret (Inr ())
           | Some set_routes \<Rightarrow>
               bindp (sysop (in_world (set_routes (sort rs)))) (\<lambda>x.
               case x of Inl err \<Rightarrow> Ret (Inl err)
               | Inr _ \<Rightarrow>
                   bindp (sysop (\<lambda>y. ((), y\<lparr>y_advertised := join '','' (sort rs)\<rparr>))) (\<lambda>_.
                   bindp (say (''advertising '' @ join '','' (sort rs))) (\<lambda>_. Ret (Inr ())))))))"

section \<open>Reconciling\<close>

definition stale_sec :: "string set \<Rightarrow> ('w, nat list) sec" where
  "stale_sec desired = sect (\<lambda>c.
     (map snd (filter (\<lambda>(n, r). n \<notin> desired) (co_map c)), c\<lparr>co_map := filter (\<lambda>(n, r). n \<in> desired) (co_map c)\<rparr>))"

definition redefine_sec :: "'w env \<Rightarrow> tunnel \<Rightarrow> ('w, unit) sec" where
  "redefine_sec e t =
     bindp (drop_sec e (t_name t)) (\<lambda>_.
     bindp (cmd e (ctl_Remove (e_ctl e) (t_name t))) (\<lambda>_.
     bindp (cmd e (ctl_Add (e_ctl e) t (peersDir e))) (\<lambda>r.
     say_error (t_name t @ '': '') r)))"

definition Reconcile_sec :: "'w env \<Rightarrow> ('w, string + unit) sec" where
  "Reconcile_sec e =
     bindp (sysop (\<lambda>y. (ListConnections (y_store y), y))) (\<lambda>x.
     case x of Inl err \<Rightarrow> Ret (Inl (e_text e err))
     | Inr conns \<Rightarrow>
         bindp (stale_sec (c_name ` set (filter c_enabled conns))) (\<lambda>stale.
         bindp (each (disconnect_sec e) stale) (\<lambda>_.
         bindp (writeConfigs_sec e (filter c_enabled conns)) (\<lambda>x.
         case x of Inl err \<Rightarrow> Ret (Inl err)
         | Inr changed \<Rightarrow>
             bindp (each (redefine_sec e) changed) (\<lambda>_.
             bindp (each (step_sec e) (filter c_enabled conns)) (\<lambda>_.
             advertise_sec e))))))"

definition Prerender_sec :: "'w env \<Rightarrow> ('w, string + unit) sec" where
  "Prerender_sec e =
     bindp (sysop (\<lambda>y. (ListConnections (y_store y), y))) (\<lambda>x.
     case x of Inl err \<Rightarrow> Ret (Inl (e_text e err))
     | Inr conns \<Rightarrow> bindp (desired_sec e (filter c_enabled conns)) (\<lambda>x.
         case x of Inl err \<Rightarrow> Ret (Inl err) | Inr ts \<Rightarrow> sysop (write_files e ts)))"

section \<open>Events\<close>

definition PPPUp_sec :: "'w env \<Rightarrow> string \<Rightarrow> string \<Rightarrow> string \<Rightarrow> string \<Rightarrow> ('w, string + unit) sec" where
  "PPPUp_sec e name iface localIP peerIP =
     bindp (look name) (\<lambda>x.
     case x of None \<Rightarrow> Ret (Inl (''unknown connection '' @ go_quote (e_print e) name))
     | Some (r, t) \<Rightarrow>
         bindp (addRoutes_sec e iface (k_subnets t)) (\<lambda>x.
         case x of Inl err \<Rightarrow> bindp (fail_sec e name iface err) (\<lambda>_. Ret (Inl err))
         | Inr _ \<Rightarrow>
             bindp (ensure_each_sec e (natRules iface)) (\<lambda>x.
             case x of Inl err \<Rightarrow> bindp (fail_sec e name iface err) (\<lambda>_. Ret (Inl err))
             | Inr _ \<Rightarrow>
                 bindp (sect (\<lambda>c. (k_id (obj r c), on_obj r (\<lambda>t. t\<lparr>k_iface := iface, k_phase := StateUp,
                     k_failures := 0, k_retry := 0\<rparr>) c))) (\<lambda>i.
                 bindp (say (name @ '': up on '' @ iface @ '' as '' @ localIP)) (\<lambda>_.
                 bindp (sysop (in_world (e_now e))) (\<lambda>now.
                 bindp (sysop (put_status e ((empty_status i StateUp)\<lparr>t_iface := iface, t_local := localIP,
                          t_peer := peerIP, t_connected := now\<rparr>))) (\<lambda>x.
                 Ret (case x of Inl err \<Rightarrow> Inl (e_text e err) | Inr _ \<Rightarrow> Inr ()))))))))"

definition PPPDown_sec :: "'w env \<Rightarrow> string \<Rightarrow> string \<Rightarrow> ('w, string + unit) sec" where
  "PPPDown_sec e name iface =
     bindp (look name) (\<lambda>x.
     case x of None \<Rightarrow> Ret (Inl (''unknown connection '' @ go_quote (e_print e) name))
     | Some (r, t) \<Rightarrow>
         bindp (tearDown_sec e name (if iface = [] then k_iface t else iface) (k_subnets t)) (\<lambda>_.
         bindp (locked_now e r (\<lambda>now t. t\<lparr>k_iface := [], k_phase := StateDisconnected,
                 k_retry := now + minRedialDelay\<rparr>)) (\<lambda>_.
         bindp (say (name @ '': down'')) (\<lambda>_.
         bindp (setStatus_sec e r StateDisconnected []) (\<lambda>_.
         bindp (sysop (\<lambda>y. ((), Nudge y))) (\<lambda>_. Ret (Inr ())))))))"

definition Unhealthy_sec :: "'w env \<Rightarrow> string \<Rightarrow> string \<Rightarrow> ('w, unit) sec" where
  "Unhealthy_sec e name reason =
     bindp (look name) (\<lambda>x.
     case x of None \<Rightarrow> Ret ()
     | Some (r, t) \<Rightarrow>
         bindp (say (name @ '': '' @ reason)) (\<lambda>_.
         bindp (fail_sec e name (k_iface t) reason) (\<lambda>_.
         sysop (\<lambda>y. ((), Nudge y)))))"

definition Invalidate_sec :: "('w, unit) sec" where
  "Invalidate_sec =
     bindp (sysop (\<lambda>y. ((), y\<lparr>y_rendered := []\<rparr>))) (\<lambda>_. sysop (\<lambda>y. ((), Nudge y)))"

text \<open>What runs on a goroutine for each of the manager's events.\<close>

fun thread_of :: "'w env \<Rightarrow> mgr_cmd \<Rightarrow> ('w, unit) sec" where
  "thread_of e EvReconcile = void (Reconcile_sec e)"
| "thread_of e EvPrerender = void (Prerender_sec e)"
| "thread_of e EvInvalidate = Invalidate_sec"
| "thread_of e (EvUp name iface l p) = void (PPPUp_sec e name iface l p)"
| "thread_of e (EvDown name iface) = void (PPPDown_sec e name iface)"
| "thread_of e (EvUnhealthy name reason) = Unhealthy_sec e name reason"
| "thread_of e (EvDb c) = sysop (\<lambda>y. ((), y\<lparr>y_store := db_step c (y_store y)\<rparr>))"

end
