(* ===== verification/SectionsProps.thy ===== *)
theory SectionsProps
  imports Sections
begin

text \<open>
  The operations cut into sections are the operations of \<open>Manager\<close> when nothing comes between their
  sections, and what the manager keeps whatever comes between them.
\<close>

section \<open>The view of the objects as a table\<close>

definition view :: "'w con \<Rightarrow> 'w sys" where
  "view c = (co_sys c)\<lparr>y_tunnels := map (\<lambda>(n, r). obj r c) (co_map c)\<rparr>"

definition con_wf :: "'w con \<Rightarrow> bool" where
  "con_wf c \<longleftrightarrow> distinct (map fst (co_map c)) \<and> distinct (map snd (co_map c)) \<and>
     (\<forall>(n, r) \<in> set (co_map c). r < length (co_objs c) \<and> k_name (obj r c) = n)"

text \<open>\<open>runs_as A p f\<close>: from a well-formed state with \<open>A\<close>, the program by itself does what \<open>f\<close> does to the
  view, and keeps \<open>A\<close>.\<close>

definition runs_as :: "('w con \<Rightarrow> bool) \<Rightarrow> ('w, 'a) sec \<Rightarrow> ('w, 'a) act \<Rightarrow> bool" where
  "runs_as A p f \<longleftrightarrow> (\<forall>c. con_wf c \<longrightarrow> A c \<longrightarrow>
     con_wf (snd (run_prog p c)) \<and> A (snd (run_prog p c)) \<and>
     f (view c) = (fst (run_prog p c), view (snd (run_prog p c))))"

lemma runs_as_Ret [intro]: "runs_as A (Ret a) (\<lambda>s. (a, s))"
  by (simp add: runs_as_def)

lemma runs_as_bindp:
  assumes "runs_as A p f" "\<And>a. runs_as A (k a) (g a)"
  shows "runs_as A (bindp p k) (\<lambda>s. case f s of (a, s') \<Rightarrow> g a s')"
  using assms unfolding runs_as_def by (simp add: case_prod_beta)

text \<open>An effect that neither reads nor writes the tunnels.\<close>

definition apart :: "('w, 'a) act \<Rightarrow> bool" where
  "apart f \<longleftrightarrow> (\<forall>y ts. f (y\<lparr>y_tunnels := ts\<rparr>) = (fst (f y), (snd (f y))\<lparr>y_tunnels := ts\<rparr>))"

definition rest_stable :: "('w con \<Rightarrow> bool) \<Rightarrow> bool" where
  "rest_stable A \<longleftrightarrow> (\<forall>c y. A c \<longrightarrow> A (c\<lparr>co_sys := y\<rparr>))"

lemma runs_as_sysop:
  assumes "rest_stable A" "apart f"
  shows "runs_as A (sysop f) f"
  using assms unfolding runs_as_def rest_stable_def apart_def
  by (auto simp: sysop_def view_def con_wf_def obj_def case_prod_beta)

lemma apart_sh: "apart (sh e x)"
  and apart_in_world: "apart (in_world g)"
  and apart_logf: "apart (\<lambda>y. ((), logf msg y))"
  and apart_put_status: "apart (put_status e st)"
  and apart_write_files: "apart (write_files e ts)"
  and apart_Nudge: "apart (\<lambda>y. ((), Nudge y))"
  by (auto simp: apart_def sh_def in_world_def logf_def put_status_def write_files_def Nudge_def case_prod_beta)

text \<open>The name and the id of an object that the map holds.\<close>

definition held :: "string \<Rightarrow> nat \<Rightarrow> int \<Rightarrow> 'w con \<Rightarrow> bool" where
  "held name r i c \<longleftrightarrow> map_of (co_map c) name = Some r \<and> k_id (obj r c) = i"

definition keeps_names :: "(tstate \<Rightarrow> tstate) \<Rightarrow> bool" where
  "keeps_names g \<longleftrightarrow> (\<forall>t. k_name (g t) = k_name t)"

definition keeps_ids :: "(tstate \<Rightarrow> tstate) \<Rightarrow> bool" where
  "keeps_ids g \<longleftrightarrow> (\<forall>t. k_id (g t) = k_id t)"

definition obj_stable :: "('w con \<Rightarrow> bool) \<Rightarrow> bool" where
  "obj_stable A \<longleftrightarrow> (\<forall>c r g. A c \<longrightarrow> keeps_ids g \<longrightarrow> A (on_obj r g c))"

lemma obj_on_obj: "obj r' (on_obj r g c) = (if r' = r \<and> r < length (co_objs c) then g (obj r c) else obj r' c)"
  by (auto simp: obj_def on_obj_def nth_list_update not_less list_update_beyond)

lemma on_obj_frames [simp]:
  "co_map (on_obj r g c) = co_map c" "co_sys (on_obj r g c) = co_sys c"
  "length (co_objs (on_obj r g c)) = length (co_objs c)"
  by (simp_all add: on_obj_def)

lemma stable_held: "rest_stable (held name r i)" "obj_stable (held name r i)"
  by (auto simp: rest_stable_def obj_stable_def held_def obj_on_obj keeps_ids_def) (simp add: obj_def)

lemma stable_conj:
  "rest_stable A \<Longrightarrow> rest_stable B \<Longrightarrow> rest_stable (\<lambda>c. A c \<and> B c)"
  "obj_stable A \<Longrightarrow> obj_stable B \<Longrightarrow> obj_stable (\<lambda>c. A c \<and> B c)"
  by (auto simp: rest_stable_def obj_stable_def)

lemma stable_True: "rest_stable (\<lambda>_. True)" "obj_stable (\<lambda>_. True)"
  by (simp_all add: rest_stable_def obj_stable_def)

lemma con_wf_on_obj: "con_wf c \<Longrightarrow> keeps_names g \<Longrightarrow> con_wf (on_obj r g c)"
  by (auto simp: con_wf_def obj_on_obj keeps_names_def)

lemma the_tunnel_view:
  assumes "con_wf c"
  shows "the_tunnel name (view c) = map_option (\<lambda>r. obj r c) (map_of (co_map c) name)"
proof -
  have "\<forall>(n, r) \<in> set m. k_name (obj r c) = n \<Longrightarrow>
      find (\<lambda>t. k_name t = name) (map (\<lambda>(n, r). obj r c) m) = map_option (\<lambda>r. obj r c) (map_of m name)" for m
    by (induction m) auto
  then show ?thesis using assms by (auto simp: the_tunnel_def view_def row_sel_def con_wf_def)
qed

lemma view_on_obj:
  assumes "con_wf c" "map_of (co_map c) name = Some r"
  shows "view (on_obj r g c) = upd_tunnel name g (view c)"
proof -
  have d: "inj_on fst (set (co_map c))" "inj_on snd (set (co_map c))"
    using assms(1) by (auto simp: con_wf_def distinct_map)
  have mem: "(name, r) \<in> set (co_map c)" using assms(2) by (rule map_of_SomeD)
  have same: "r' = r \<longleftrightarrow> n = name" if "(n, r') \<in> set (co_map c)" for n r'
    using inj_onD [OF d(1) _ that mem] inj_onD [OF d(2) _ that mem] by auto
  have "map (\<lambda>(n, r'). obj r' (on_obj r g c)) (co_map c) =
      map ((\<lambda>t. if k_name t = name then g t else t) \<circ> (\<lambda>(n, r'). obj r' c)) (co_map c)"
  proof (rule map_cong [OF refl], clarify)
    fix n r' assume m: "(n, r') \<in> set (co_map c)"
    then have "k_name (obj r' c) = n" "r' < length (co_objs c)" using assms(1) by (auto simp: con_wf_def)
    then show "obj r' (on_obj r g c) = ((\<lambda>t. if k_name t = name then g t else t) \<circ> (\<lambda>(n, r'). obj r' c)) (n, r')"
      using same [OF m] by (auto simp: obj_on_obj)
  qed
  then show ?thesis
    by (simp add: view_def upd_tunnel_def row_upd_def)
qed

lemma runs_as_look:
  assumes "rest_stable A" "obj_stable A" "keeps_names g" "keeps_ids g"
    and none: "runs_as A pN fN"
    and some: "\<And>r t. k_name t = name \<Longrightarrow> runs_as (\<lambda>c. A c \<and> held name r (k_id t) c) (pS r t) (fS t)"
  shows "runs_as A (bindp (look_and g name) (\<lambda>x. case x of None \<Rightarrow> pN | Some (r, t) \<Rightarrow> pS r t))
    (\<lambda>s. case the_tunnel name s of None \<Rightarrow> fN s | Some t \<Rightarrow> fS t (upd_tunnel name g s))"
  unfolding runs_as_def
proof (intro allI impI)
  fix c :: "'a con"
  assume c: "con_wf c" "A c"
  let ?q = "run_prog (bindp (look_and g name) (\<lambda>x. case x of None \<Rightarrow> pN | Some (r, t) \<Rightarrow> pS r t)) c"
  show "con_wf (snd ?q) \<and> A (snd ?q) \<and>
      (case the_tunnel name (view c) of None \<Rightarrow> fN (view c) | Some t \<Rightarrow> fS t (upd_tunnel name g (view c))) =
      (fst ?q, view (snd ?q))"
  proof (cases "map_of (co_map c) name")
    case None
    then show ?thesis using none c by (simp add: look_and_def runs_as_def the_tunnel_view)
  next
    case (Some r)
    let ?c = "on_obj r g c"
    have "held name r (k_id (obj r c)) ?c" using Some assms(4) by (simp add: held_def obj_on_obj keeps_ids_def)
    moreover have "con_wf ?c" "A ?c" using c assms by (simp_all add: con_wf_on_obj obj_stable_def)
    moreover have "k_name (obj r c) = name"
      using c(1) map_of_SomeD [OF Some] by (auto simp: con_wf_def)
    ultimately have "con_wf (snd (run_prog (pS r (obj r c)) ?c))" "A (snd (run_prog (pS r (obj r c)) ?c))"
      "fS (obj r c) (view ?c) = (fst (run_prog (pS r (obj r c)) ?c), view (snd (run_prog (pS r (obj r c)) ?c)))"
      using some [where r = r and t = "obj r c"] unfolding runs_as_def by blast+
    then show ?thesis using Some
      by (simp add: look_and_def the_tunnel_view [OF c(1)] view_on_obj [OF c(1) Some])
  qed
qed

lemma runs_as_locked_now:
  assumes "rest_stable A" "obj_stable A" "\<And>now. keeps_names (g now)" "\<And>now. keeps_ids (g now)"
    and "\<And>c. A c \<Longrightarrow> map_of (co_map c) name = Some r"
  shows "runs_as A (locked_now e r g)
    (\<lambda>s. case in_world (e_now e) s of (now, s') \<Rightarrow> ((), upd_tunnel name (g now) s'))"
  unfolding runs_as_def
proof (intro allI impI)
  fix c :: "'a con"
  assume c: "con_wf c" "A c"
  obtain now y where t: "in_world (e_now e) (co_sys c) = (now, y)" by fastforce
  let ?c = "c\<lparr>co_sys := y\<rparr>"
  have "runs_as A (sysop (in_world (e_now e))) (in_world (e_now e))"
    by (rule runs_as_sysop [OF assms(1) apart_in_world])
  note this [unfolded runs_as_def, THEN spec, of c, THEN mp, OF c(1), THEN mp, OF c(2)]
  then have s: "con_wf ?c" "A ?c" "in_world (e_now e) (view c) = (now, view ?c)"
    by (simp_all add: sysop_def t)
  have "con_wf (on_obj r (g now) ?c)" by (rule con_wf_on_obj [OF s(1) assms(3)])
  moreover have "A (on_obj r (g now) ?c)" using assms(2,4) s(2) by (simp add: obj_stable_def)
  moreover have "view (on_obj r (g now) ?c) = upd_tunnel name (g now) (view ?c)"
    by (rule view_on_obj [OF s(1) assms(5) [OF s(2)]])
  ultimately show "con_wf (snd (run_prog (locked_now e r g) c)) \<and> A (snd (run_prog (locked_now e r g) c)) \<and>
      (case in_world (e_now e) (view c) of (now, s') \<Rightarrow> ((), upd_tunnel name (g now) s')) =
      (fst (run_prog (locked_now e r g) c), view (snd (run_prog (locked_now e r g) c)))"
    by (simp add: locked_now_def t s(3))
qed

section \<open>The operations by themselves\<close>

lemma runs_as_cong: "runs_as A p g \<Longrightarrow> (\<And>s. f s = g s) \<Longrightarrow> runs_as A p f"
  by (simp add: runs_as_def)

lemma runs_as_sum:
  "(\<And>x. runs_as A (p x) (f x)) \<Longrightarrow> (\<And>x. runs_as A (q x) (g x)) \<Longrightarrow>
   runs_as A (case r of Inl x \<Rightarrow> p x | Inr x \<Rightarrow> q x) (case r of Inl x \<Rightarrow> f x | Inr x \<Rightarrow> g x)"
  by (cases r) simp_all

lemma runs_as_if:
  "runs_as A p f \<Longrightarrow> runs_as A q g \<Longrightarrow> runs_as A (if b then p else q) (if b then f else g)"
  by simp

lemma runs_as_cmd: "rest_stable A \<Longrightarrow> runs_as A (cmd e x) (sh e x)"
  unfolding cmd_def by (rule runs_as_sysop [OF _ apart_sh])

lemma runs_as_say: "rest_stable A \<Longrightarrow> runs_as A (say msg) (\<lambda>s. ((), logf msg s))"
  unfolding say_def by (rule runs_as_sysop [OF _ apart_logf])

lemmas runs_intros = runs_as_Ret runs_as_bindp runs_as_sum runs_as_if runs_as_cmd runs_as_say

lemma runs_as_say_error:
  "rest_stable A \<Longrightarrow>
   runs_as A (say_error what r) (\<lambda>s. ((), case r of Inl err \<Rightarrow> logf (what @ err) s | Inr _ \<Rightarrow> s))"
  unfolding say_error_def by (rule runs_as_cong, (rule runs_intros | assumption)+, auto split: sum.split)

lemma runs_as_addRoutes:
  "rest_stable A \<Longrightarrow> runs_as A (addRoutes_sec e iface ss) (in_world (addRoutes (e_run e) iface ss))"
proof (induction ss)
  case Nil
  then show ?case by (auto simp: runs_as_def in_world_def)
next
  case (Cons s ss)
  show ?case unfolding addRoutes_sec.simps
    by (rule runs_as_cong, (rule runs_intros Cons | assumption)+, auto simp: in_world_def sh_def split: sum.split prod.split)
qed

lemma runs_as_removeRoutes:
  "rest_stable A \<Longrightarrow> runs_as A (removeRoutes_sec e iface ss) (in_world (removeRoutes (e_run e) iface ss))"
proof (induction ss)
  case Nil
  then show ?case by (auto simp: runs_as_def in_world_def)
next
  case (Cons s ss)
  show ?case unfolding removeRoutes_sec.simps
    by (rule runs_as_cong, (rule runs_intros Cons | assumption)+, auto simp: in_world_def sh_def split: sum.split prod.split)
qed

lemma runs_as_ensureRule:
  "rest_stable A \<Longrightarrow> runs_as A (ensureRule_sec e u) (in_world (ensureRule (e_run e) u))"
  unfolding ensureRule_sec_def
  by (rule runs_as_cong, (rule runs_intros | assumption)+,
      auto simp: in_world_def sh_def ensureRule_def run_unit_def split: sum.split prod.split)

lemma runs_as_ensure_each:
  "rest_stable A \<Longrightarrow> runs_as A (ensure_each_sec e us) (in_world (ensure_each (e_run e) us))"
proof (induction us)
  case Nil
  then show ?case by (auto simp: runs_as_def in_world_def)
next
  case (Cons u us)
  show ?case unfolding ensure_each_sec.simps
    by (rule runs_as_cong, (rule runs_intros Cons runs_as_ensureRule | assumption)+,
        auto simp: in_world_def split: sum.split prod.split)
qed

lemma runs_as_delete_each:
  "rest_stable A \<Longrightarrow> runs_as A (delete_each_sec e us) (in_world (delete_each (e_run e) us))"
proof (induction us)
  case Nil
  then show ?case by (auto simp: runs_as_def in_world_def)
next
  case (Cons u us)
  show ?case unfolding delete_each_sec.simps
    by (rule runs_as_cong, (rule runs_intros Cons | assumption)+, auto simp: in_world_def sh_def split: sum.split prod.split)
qed

lemma runs_as_tearDown:
  "rest_stable A \<Longrightarrow> runs_as A (tearDown_sec e name iface ss) (\<lambda>s. ((), tearDown e name iface ss s))"
  unfolding tearDown_sec_def
  by (rule runs_as_cong, (rule runs_intros runs_as_removeRoutes runs_as_delete_each runs_as_say_error | assumption)+,
      auto simp: tearDown_def tearDownInterface_def disableNAT_def Let_def split: prod.split sum.split)

lemma runs_as_terminate:
  "rest_stable A \<Longrightarrow> runs_as A (terminate_sec e name) (\<lambda>s. ((), terminate e name s))"
  unfolding terminate_sec_def
  by (rule runs_as_cong, (rule runs_intros | assumption)+, auto simp: terminate_def split: prod.split sum.split)

lemma runs_as_read_id:
  "(\<And>c. A c \<Longrightarrow> k_id (obj r c) = i) \<Longrightarrow> runs_as A (read_id r) (\<lambda>s. (i, s))"
  by (simp add: runs_as_def read_id_def)

lemma runs_as_setStatus:
  assumes "rest_stable A" "\<And>c. A c \<Longrightarrow> k_id (obj r c) = i"
  shows "runs_as A (setStatus_sec e r ph why) (\<lambda>s. ((), setStatus e i ph why s))"
  unfolding setStatus_sec_def
  by (rule runs_as_cong, (rule runs_intros runs_as_read_id runs_as_sysop apart_put_status assms | assumption)+,
      auto simp: setStatus_def split: prod.split sum.split)

lemmas stable_intros = stable_conj stable_held stable_True

lemmas keeps_defs = keeps_names_def keeps_ids_def held_def

lemma runs_as_drop:
  assumes "rest_stable A" "obj_stable A"
  shows "runs_as A (drop_sec e name) (\<lambda>s. ((), drop_tunnel e name s))"
  unfolding drop_sec_def
  by (rule runs_as_cong, (rule runs_as_look runs_intros runs_as_tearDown runs_as_terminate runs_as_setStatus
      stable_intros assms | (simp add: keeps_defs; fail))+,
      simp add: drop_tunnel_def Let_def case_prod_beta split: option.split)

lemma runs_as_locked:
  assumes "rest_stable A" "obj_stable A" "\<And>now. keeps_names (g now)" "\<And>now. keeps_ids (g now)"
  shows "runs_as (\<lambda>c. A c \<and> held name r i c) (locked_now e r g)
    (\<lambda>s. case in_world (e_now e) s of (now, s') \<Rightarrow> ((), upd_tunnel name (g now) s'))"
  by (intro runs_as_locked_now stable_intros assms) (simp add: held_def)

lemma upd_tunnel_same [simp]: "upd_tunnel name (\<lambda>t. t) s = s"
  by (simp add: upd_tunnel_def)

lemma runs_as_fail:
  assumes "rest_stable A" "obj_stable A"
  shows "runs_as A (fail_sec e name iface reason) (\<lambda>s. ((), fail e name iface reason s))"
  unfolding fail_sec_def look_def
  by (rule runs_as_cong, (rule runs_as_look runs_intros runs_as_tearDown runs_as_setStatus runs_as_locked
      stable_intros assms | (simp add: keeps_defs; fail))+,
      simp add: fail_def Let_def case_prod_beta split: option.split)

lemma runs_as_dialFailed:
  assumes "rest_stable A" "obj_stable A" "k_name t = name"
  shows "runs_as (\<lambda>c. A c \<and> held name r (k_id t) c) (dialFailed_sec e r (k_name t) err)
    (\<lambda>s. ((), dialFailed e t err s))"
  unfolding dialFailed_sec_def assms(3)
  by (rule runs_as_cong, (rule runs_intros runs_as_setStatus runs_as_locked
      stable_intros assms(1,2) | (simp add: keeps_defs; fail))+,
      simp add: dialFailed_def Let_def case_prod_beta assms(3))

lemma runs_as_dial:
  assumes "rest_stable A" "obj_stable A"
  shows "runs_as A (dial_sec e name) (\<lambda>s. ((), dial e name s))"
  unfolding dial_sec_def look_def
  by (rule runs_as_cong, (rule runs_as_look runs_intros runs_as_dialFailed runs_as_setStatus runs_as_locked
      stable_intros assms | assumption | (simp add: keeps_defs; fail))+,
      auto simp: dial_def dial_attempt_def dial_record_def Let_def case_prod_beta
        the_tunnel_def dest!: row_sel_Some split: option.split sum.split)

lemma runs_as_each:
  assumes "\<And>x. runs_as A (p x) (\<lambda>s. ((), h x s))"
  shows "runs_as A (each p xs) (\<lambda>s. ((), foldl (\<lambda>s x. h x s) s xs))"
proof (induction xs)
  case Nil
  then show ?case by (simp add: runs_as_def)
next
  case (Cons x xs)
  show ?case unfolding each.simps
    by (rule runs_as_cong, (rule runs_intros assms Cons)+, simp)
qed

lemma runs_as_disconnect:
  "runs_as (\<lambda>c. co_objs c = os) (disconnect_sec e r) (\<lambda>s. ((), disconnect e (os ! r) s))"
proof -
  have st: "rest_stable (\<lambda>c :: 'a con. co_objs c = os)" by (simp add: rest_stable_def)
  have rd: "runs_as (\<lambda>c :: 'a con. co_objs c = os) (sect (\<lambda>c. (obj r c, c))) (\<lambda>s. (os ! r, s))"
    by (simp add: runs_as_def obj_def)
  have go: "runs_as (\<lambda>c :: 'a con. co_objs c = os) (bindp (sect (\<lambda>c. (obj r c, c))) k) f"
    if "runs_as (\<lambda>c. co_objs c = os) (k (os ! r)) f" for k :: "tstate \<Rightarrow> ('a, unit) sec" and f
    using that by (simp add: runs_as_def obj_def)
  show ?thesis unfolding disconnect_sec_def
    by (rule go, rule runs_as_cong, (rule runs_intros runs_as_tearDown runs_as_terminate runs_as_setStatus st
        | (simp add: obj_def; fail))+, simp add: disconnect_def Let_def case_prod_beta)
qed

lemma runs_as_stale:
  assumes "runs_as (\<lambda>_. True) k f"
  shows "runs_as (\<lambda>_. True) (bindp (stale_sec D) (\<lambda>rs. bindp (each (disconnect_sec e) rs) (\<lambda>_. k)))
    (\<lambda>s. case staleTunnels D s of (ts, s') \<Rightarrow> f (foldl (\<lambda>s t. disconnect e t s) s' ts))"
  unfolding runs_as_def
proof (intro allI impI)
  fix c :: "'a con"
  assume c: "con_wf c"
  let ?c = "c\<lparr>co_map := filter (\<lambda>(n, r). n \<in> D) (co_map c)\<rparr>"
  let ?rs = "map snd (filter (\<lambda>(n, r). n \<notin> D) (co_map c))"
  have wf: "con_wf ?c" using c by (auto simp: con_wf_def obj_def distinct_map_filter)
  have each: "runs_as (\<lambda>d. co_objs d = co_objs c) (each (disconnect_sec e) ?rs)
      (\<lambda>s. ((), foldl (\<lambda>s r. disconnect e (co_objs c ! r) s) s ?rs))"
    by (rule runs_as_each, rule runs_as_disconnect)
  have names: "\<forall>(n, r) \<in> set (co_map c). k_name (obj r c) = n" using c by (auto simp: con_wf_def)
  then have "filter (\<lambda>(n, r). n \<in> D) (co_map c) = filter (\<lambda>(n, r). k_name (obj r c) \<in> D) (co_map c)"
    "filter (\<lambda>(n, r). n \<notin> D) (co_map c) = filter (\<lambda>(n, r). k_name (obj r c) \<notin> D) (co_map c)"
    by (auto intro!: filter_cong)
  then have v: "staleTunnels D (view c) = (map ((!) (co_objs c)) ?rs, view ?c)"
    by (simp add: view_def staleTunnels_def obj_def filter_map comp_def case_prod_unfold)
  have fold: "foldl (\<lambda>s r. disconnect e (co_objs c ! r) s) s rs = foldl (\<lambda>s t. disconnect e t s) s (map ((!) (co_objs c)) rs)"
    for s rs by (induction rs arbitrary: s) simp_all
  show "con_wf (snd (run_prog (bindp (stale_sec D) (\<lambda>rs. bindp (each (disconnect_sec e) rs) (\<lambda>_. k))) c)) \<and> True \<and>
     (case staleTunnels D (view c) of (ts, s') \<Rightarrow> f (foldl (\<lambda>s t. disconnect e t s) s' ts)) =
     (fst (run_prog (bindp (stale_sec D) (\<lambda>rs. bindp (each (disconnect_sec e) rs) (\<lambda>_. k))) c),
      view (snd (run_prog (bindp (stale_sec D) (\<lambda>rs. bindp (each (disconnect_sec e) rs) (\<lambda>_. k))) c)))"
    using each [unfolded runs_as_def, THEN spec, of ?c] assms [unfolded runs_as_def] wf
    by (simp add: stale_sec_def v fold case_prod_beta)
qed

lemma con_wf_alloc:
  assumes "con_wf c" "map_of (co_map c) (c_name conn) = None"
  shows "con_wf (c\<lparr>co_objs := co_objs c @ [new_tunnel conn], co_map := co_map c @ [(c_name conn, length (co_objs c))]\<rparr>)"
proof -
  have "c_name conn \<notin> fst ` set (co_map c)" using assms(2) by (simp add: map_of_eq_None_iff)
  then show ?thesis using assms(1) unfolding con_wf_def by (fastforce simp: obj_def nth_append new_tunnel_def)
qed

lemma runs_as_enter:
  "runs_as (\<lambda>_. True) (enter_sec conn) (\<lambda>s. (the (the_tunnel (c_name conn) (enter conn s)), enter conn s))"
  unfolding runs_as_def
proof (intro allI impI)
  fix c :: "'a con"
  assume c: "con_wf c"
  let ?n = "c_name conn" and ?g = "\<lambda>t. t\<lparr>k_id := c_id conn, k_subnets := c_subnets conn\<rparr>"
  have g: "keeps_names ?g" by (simp add: keeps_names_def)
  have after: "con_wf (on_obj r ?g d) \<and> view (on_obj r ?g d) = upd_tunnel ?n ?g (view d) \<and>
      the_tunnel ?n (upd_tunnel ?n ?g (view d)) = Some (obj r (on_obj r ?g d))"
    if "con_wf d" "map_of (co_map d) ?n = Some r" for r and d :: "'a con"
    using the_tunnel_view [OF con_wf_on_obj [OF that(1) g], of ?n r] con_wf_on_obj [OF that(1) g]
      view_on_obj [OF that] that(2) by (metis (no_types, lifting) on_obj_frames(1) option.simps(9))
  show "con_wf (snd (run_prog (enter_sec conn) c)) \<and> True \<and>
      (the (the_tunnel ?n (enter conn (view c))), enter conn (view c)) =
      (fst (run_prog (enter_sec conn) c), view (snd (run_prog (enter_sec conn) c)))"
  proof (cases "map_of (co_map c) ?n")
    case (Some r)
    then show ?thesis using after [OF c Some] c
      by (simp add: enter_sec_def enter_def the_tunnel_view Let_def)
  next
    case None
    let ?d = "c\<lparr>co_objs := co_objs c @ [new_tunnel conn], co_map := co_map c @ [(?n, length (co_objs c))]\<rparr>"
    have objs: "\<forall>(n, r) \<in> set (co_map c). obj r ?d = obj r c" "obj (length (co_objs c)) ?d = new_tunnel conn"
      using c by (auto simp: con_wf_def obj_def nth_append)
    have d: "con_wf ?d" by (rule con_wf_alloc [OF c None])
    have m: "map_of (co_map ?d) ?n = Some (length (co_objs c))" using None by (simp add: map_add_def)
    have "view ?d = (view c)\<lparr>y_tunnels := row_ins (new_tunnel conn) (y_tunnels (view c))\<rparr>"
    proof -
      have "map (\<lambda>(n, r). obj r ?d) (co_map c) = map (\<lambda>(n, r). obj r c) (co_map c)"
        using objs(1) by (intro map_cong) auto
      then show ?thesis using objs(2) by (simp add: view_def row_ins_def)
    qed
    then show ?thesis using after [OF d m] c None
      by (simp add: enter_sec_def enter_def the_tunnel_view Let_def)
  qed
qed

lemma the_tunnel_enter: "the_tunnel (c_name conn) (enter conn s) \<noteq> None"
proof -
  have upd: "the_tunnel n (upd_tunnel n g z) \<noteq> None" if "the_tunnel n z \<noteq> None" "keeps_names g"
    for n g and z :: "'a sys"
    using that by (auto simp: the_tunnel_def upd_tunnel_def row_sel_None row_upd_def keeps_names_def)
  have g: "keeps_names (\<lambda>t. t\<lparr>k_id := c_id conn, k_subnets := c_subnets conn\<rparr>)" by (simp add: keeps_names_def)
  show ?thesis unfolding enter_def Let_def
    by (rule upd [OF _ g]) (auto simp: the_tunnel_def row_sel_None row_ins_def new_tunnel_def)
qed

lemma runs_as_phase:
  assumes "runs_as A pu fu" "runs_as A pc fc" "runs_as A po fo"
  shows "runs_as A (case p of StateUp \<Rightarrow> pu | StateConnecting \<Rightarrow> pc | _ \<Rightarrow> po)
    (\<lambda>s. case p of StateUp \<Rightarrow> fu s | StateConnecting \<Rightarrow> fc s | _ \<Rightarrow> fo s)"
  using assms by (cases p) simp_all

lemma step_entered:
  "step e conn s = (case in_world (e_now e) (enter conn s) of
     (now, s') \<Rightarrow> step_from e conn (the (the_tunnel (c_name conn) (enter conn s))) now s')"
  using the_tunnel_enter [of conn s] by (auto simp: step_def Let_def)

lemma runs_as_step: "runs_as (\<lambda>_. True) (step_sec e conn) (\<lambda>s. ((), step e conn s))"
  unfolding step_sec_def
  by (rule runs_as_cong, (rule runs_intros runs_as_enter runs_as_phase runs_as_sysop apart_in_world runs_as_fail
      runs_as_dial stable_True)+)
    (simp add: step_entered step_from_def case_prod_beta split: db_state.split)

lemma runs_as_desired:
  "runs_as (\<lambda>_. True) (desired_sec e conns) (desiredTunnels e conns)"
proof (induction conns)
  case Nil
  then show ?case by (auto simp: runs_as_def)
next
  case (Cons conn conns)
  have sec: "apart (\<lambda>y. (ConnectionSecrets i (y_store y), y))" for i by (simp add: apart_def)
  show ?case unfolding desired_sec.simps
    by (rule runs_as_cong, (rule runs_intros runs_as_sysop sec apart_in_world runs_as_say_error stable_True Cons.IH)+,
        auto simp: Let_def case_prod_beta split: sum.split)
qed

lemma apart_reads:
  "apart (\<lambda>y. (f (y_store y), y))" "apart (\<lambda>y. (g (y_rendered y), y))" "apart (\<lambda>y. (h (y_advertised y), y))"
  "apart (\<lambda>y. ((), y\<lparr>y_rendered := x\<rparr>))" "apart (\<lambda>y. ((), y\<lparr>y_advertised := z\<rparr>))"
  "apart (\<lambda>y. ((), y\<lparr>y_store := k (y_store y)\<rparr>))"
  by (simp_all add: apart_def)

lemma runs_as_sysops: "apart f \<Longrightarrow> runs_as (\<lambda>_. True) (sysop f) f"
  by (rule runs_as_sysop [OF stable_True(1)])

lemma runs_as_writeConfigs:
  "runs_as (\<lambda>_. True) (writeConfigs_sec e conns) (writeConfigs e conns)"
proof -
  have pr: "runs_as A (case x of (a, b) \<Rightarrow> p a b) (case x of (a, b) \<Rightarrow> f a b)"
    if "\<And>a b. runs_as A (p a b) (f a b)" for A x p and f :: "'b \<Rightarrow> 'c \<Rightarrow> ('a, 'd) act"
    using that by (cases x) simp
  have rd: "apart (\<lambda>y. ((changedTunnels (y_rendered y) fs ts, length (y_rendered y) \<noteq> length fs), y))" for fs ts
    by (simp add: apart_def)
  show ?thesis unfolding writeConfigs_sec_def
    by (rule runs_as_cong, (rule runs_intros runs_as_desired pr runs_as_sysops rd apart_write_files apart_reads stable_True)+,
        simp add: writeConfigs_def Let_def case_prod_beta split: sum.split)
qed

lemma runs_as_option:
  "runs_as A p f \<Longrightarrow> (\<And>x. runs_as A (q x) (g x)) \<Longrightarrow>
   runs_as A (case r of None \<Rightarrow> p | Some x \<Rightarrow> q x) (case r of None \<Rightarrow> f | Some x \<Rightarrow> g x)"
  by (cases r) simp_all

lemma runs_as_advertise: "runs_as (\<lambda>_. True) (advertise_sec e) (advertise e)"
  unfolding advertise_sec_def
  by (rule runs_as_cong, (rule runs_intros runs_as_sysops runs_as_option apart_in_world apart_reads stable_True)+,
      simp add: advertise_def Let_def case_prod_beta split: sum.split option.split)

lemma runs_as_redefine: "runs_as (\<lambda>_. True) (redefine_sec e t) (\<lambda>s. ((), redefine e t s))"
  unfolding redefine_sec_def
  by (rule runs_as_cong, (rule runs_intros runs_as_drop runs_as_say_error stable_True)+,
      simp add: redefine_def Let_def case_prod_beta split: sum.split)

lemma runs_as_Reconcile: "runs_as (\<lambda>_. True) (Reconcile_sec e) (Reconcile e)"
  unfolding Reconcile_sec_def
  by (rule runs_as_cong, (rule runs_as_stale runs_intros runs_as_sysops apart_reads runs_as_writeConfigs runs_as_each
      runs_as_redefine runs_as_step runs_as_advertise stable_True)+,
      simp add: Reconcile_def Let_def case_prod_beta split: sum.split)

lemma runs_as_Prerender: "runs_as (\<lambda>_. True) (Prerender_sec e) (Prerender e)"
  unfolding Prerender_sec_def
  by (rule runs_as_cong, (rule runs_intros runs_as_sysops apart_reads apart_write_files runs_as_desired stable_True)+,
      simp add: Prerender_def case_prod_beta split: sum.split)

lemma runs_as_PPPUp: "runs_as (\<lambda>_. True) (PPPUp_sec e name iface l p) (PPPUp e name iface l p)"
proof -
  have up: "runs_as (\<lambda>c. True \<and> held name r i c)
      (sect (\<lambda>c. (k_id (obj r c), on_obj r g c))) (\<lambda>s. (i, upd_tunnel name g s))"
    if "keeps_names g" "keeps_ids g" for r i g
    using that by (auto simp: runs_as_def con_wf_on_obj view_on_obj held_def obj_on_obj keeps_ids_def)
  show ?thesis unfolding PPPUp_sec_def look_def
    by (rule runs_as_cong, (rule runs_as_look runs_intros up runs_as_addRoutes runs_as_ensure_each runs_as_fail
        runs_as_sysop apart_in_world apart_put_status stable_intros | (simp add: keeps_defs; fail))+,
        auto simp: PPPUp_def enableNAT_def Let_def case_prod_beta split: sum.split option.split)
qed

lemma runs_as_PPPDown: "runs_as (\<lambda>_. True) (PPPDown_sec e name iface) (PPPDown e name iface)"
  unfolding PPPDown_sec_def look_def
  by (rule runs_as_cong, (rule runs_as_look runs_intros runs_as_tearDown runs_as_setStatus runs_as_locked
      runs_as_sysop apart_Nudge stable_intros | (simp add: keeps_defs; fail))+,
      simp add: PPPDown_def Let_def case_prod_beta split: option.split)

lemma runs_as_Unhealthy:
  "runs_as (\<lambda>_. True) (Unhealthy_sec e name reason) (\<lambda>s. ((), Unhealthy e name reason s))"
  unfolding Unhealthy_sec_def look_def
  by (rule runs_as_cong, (rule runs_as_look runs_intros runs_as_fail runs_as_sysop apart_Nudge stable_intros
      | (simp add: keeps_defs; fail))+,
      simp add: Unhealthy_def split: option.split)

lemma runs_as_Invalidate: "runs_as (\<lambda>_. True) Invalidate_sec (\<lambda>s. ((), Invalidate s))"
  unfolding Invalidate_sec_def
  by (rule runs_as_cong, (rule runs_intros runs_as_sysops apart_reads apart_Nudge)+, simp add: Invalidate_def)

lemma runs_as_void: "runs_as A p f \<Longrightarrow> runs_as A (void p) (\<lambda>s. ((), snd (f s)))"
  unfolding void_def by (rule runs_as_cong, (rule runs_intros | assumption)+, simp add: case_prod_beta)

lemma runs_as_thread: "runs_as (\<lambda>_. True) (thread_of e c) (\<lambda>s. ((), mgr_step e c s))"
proof (cases c)
  case (EvDb d)
  have "(view k)\<lparr>y_store := f (y_store (view k))\<rparr> = view (k\<lparr>co_sys := (co_sys k)\<lparr>y_store := f (y_store (co_sys k))\<rparr>\<rparr>)"
    for f and k :: "'a con" by (simp add: view_def obj_def)
  then show ?thesis using runs_as_sysops [OF apart_reads(6), of "db_step d"] EvDb
    by (auto simp: runs_as_def sysop_def)
qed (auto intro: runs_as_cong [OF runs_as_void [OF runs_as_Reconcile]] runs_as_cong [OF runs_as_void [OF runs_as_Prerender]]
    runs_as_cong [OF runs_as_void [OF runs_as_PPPUp]] runs_as_cong [OF runs_as_void [OF runs_as_PPPDown]]
    runs_as_Unhealthy runs_as_Invalidate)

text \<open>The manager of \<open>Manager\<close> is what the sections do when no operation begins before another has ended.\<close>

definition alone :: "'w env \<Rightarrow> mgr_cmd \<Rightarrow> 'w con \<Rightarrow> 'w con" where
  "alone e c s = snd (run_prog (thread_of e c) s)"

interpretation whole: refinement "alone e" "mgr_step e" view con_wf for e :: "'w env"
  using runs_as_thread [unfolded runs_as_def] by unfold_locales (auto simp: alone_def dest: prod_eqI)

end
