(* ===== verification/Interleave.thy ===== *)
theory Interleave
  imports SectionsProps
begin

text \<open>
  Goroutines that take turns: the reconciler, the hooks of pppd, the health checker, restarted daemons
  and edits of the store, in any number and cut at every section.
\<close>

section \<open>What every section keeps\<close>

text \<open>What is true of a tunnel between any two sections, whichever goroutines are at work on it.\<close>

definition obj_ok :: "tstate \<Rightarrow> bool" where
  "obj_ok t \<longleftrightarrow> k_phase t \<in> {StateDisconnected, StateConnecting, StateUp, StateFailed} \<and> 0 \<le> k_failures t \<and>
     (k_phase t = StateUp \<longrightarrow> k_iface t \<noteq> [] \<and> k_failures t = 0 \<and> k_retry t = 0) \<and>
     (k_phase t = StateDisconnected \<longrightarrow> k_iface t = []) \<and>
     (k_phase t = StateFailed \<longrightarrow> 1 \<le> k_failures t)"

definition con_ok :: "'w con \<Rightarrow> bool" where
  "con_ok c \<longleftrightarrow> con_wf c \<and> (\<forall>t \<in> set (co_objs c). obj_ok t) \<and> store_wf (y_store (co_sys c))"

text \<open>The updates that locked sections make.\<close>

definition good :: "(tstate \<Rightarrow> tstate) \<Rightarrow> bool" where
  "good g \<longleftrightarrow> keeps_names g \<and> (\<forall>t. obj_ok t \<longrightarrow> obj_ok (g t))"

lemma con_ok_on_obj:
  assumes "con_ok c" "good g"
  shows "con_ok (on_obj r g c)"
proof -
  have "set (co_objs (on_obj r g c)) \<subseteq> (if r < length (co_objs c) then {g (co_objs c ! r)} else {}) \<union> set (co_objs c)"
    using set_update_subset_insert [of "co_objs c" r] by (auto simp: on_obj_def obj_def list_update_beyond)
  moreover have "con_wf (on_obj r g c)" using assms by (simp add: con_ok_def good_def con_wf_on_obj)
  ultimately show ?thesis using assms by (fastforce simp: con_ok_def good_def split: if_splits)
qed

lemma con_ok_sys: "con_ok c \<Longrightarrow> store_wf (y_store y) \<Longrightarrow> con_ok (c\<lparr>co_sys := y\<rparr>)"
  by (auto simp: con_ok_def con_wf_def obj_def)

definition keeps_store :: "('w, 'a) act \<Rightarrow> bool" where
  "keeps_store f \<longleftrightarrow> (\<forall>y. store_wf (y_store y) \<longrightarrow> store_wf (y_store (snd (f y))))"

lemma safe_sysop: "keeps_store f \<Longrightarrow> safe con_ok (sysop f)"
  unfolding sysop_def
  by (rule safe_sect) (simp add: keeps_store_def case_prod_beta con_ok_sys con_ok_def [THEN iffD1])

lemma safe_look_and: "good g \<Longrightarrow> safe con_ok (look_and g name)"
  unfolding look_and_def by (rule safe_sect) (auto simp: con_ok_on_obj split: option.split)

lemma good_id: "good (\<lambda>t. t)"
  by (simp add: good_def keeps_names_def)

lemma safe_locked_now: "(\<And>now. good (g now)) \<Longrightarrow> safe con_ok (locked_now e r g)"
  unfolding locked_now_def
  by (rule safe_sect) (simp add: in_world_def case_prod_beta con_ok_on_obj con_ok_sys con_ok_def [THEN iffD1])

lemma safe_read: "safe con_ok (sect (\<lambda>c. (f c, c)))"
  by (rule safe_sect) simp

lemma safe_sum: "(\<And>x. safe J (p x)) \<Longrightarrow> (\<And>x. safe J (q x)) \<Longrightarrow> safe J (case r of Inl x \<Rightarrow> p x | Inr x \<Rightarrow> q x)"
  by (cases r) simp_all

lemma safe_option: "safe J p \<Longrightarrow> (\<And>x. safe J (q x)) \<Longrightarrow> safe J (case r of None \<Rightarrow> p | Some x \<Rightarrow> q x)"
  by (cases r) simp_all

lemma safe_pair: "(\<And>a b. safe J (p a b)) \<Longrightarrow> safe J (case x of (a, b) \<Rightarrow> p a b)"
  by (cases x) simp_all

lemma safe_if: "safe J p \<Longrightarrow> safe J q \<Longrightarrow> safe J (if b then p else q)"
  by simp

lemma safe_phase:
  "safe J pu \<Longrightarrow> safe J pc \<Longrightarrow> safe J po \<Longrightarrow> safe J (case p of StateUp \<Rightarrow> pu | StateConnecting \<Rightarrow> pc | _ \<Rightarrow> po)"
  by (cases p) simp_all

lemma keeps_stores:
  "keeps_store (sh e x)" "keeps_store (in_world h)" "keeps_store (\<lambda>y. ((), logf msg y))" "keeps_store (put_status e st)"
  "keeps_store (write_files e ts)" "keeps_store (\<lambda>y. ((), Nudge y))" "keeps_store (\<lambda>y. (f y, y))"
  "keeps_store (\<lambda>y. ((), y\<lparr>y_rendered := u\<rparr>))" "keeps_store (\<lambda>y. ((), y\<lparr>y_advertised := v\<rparr>))"
  by (simp_all add: keeps_store_def SetStatus_wf)

lemmas safe_rules = safe_intros safe_sum safe_option safe_pair safe_if safe_phase safe_sysop safe_read safe_look_and good_id
  keeps_stores

lemma safe_cmd: "safe con_ok (cmd e x)" and safe_say: "safe con_ok (say msg)"
  and safe_say_error: "safe con_ok (say_error what r)" and safe_read_id: "safe con_ok (read_id i)"
  and safe_look: "safe con_ok (look name)"
  unfolding cmd_def say_def say_error_def read_id_def look_def by (rule safe_rules)+

lemmas safe_basics = safe_rules safe_cmd safe_say safe_say_error safe_read_id safe_look

lemma safe_ip:
  "safe con_ok (addRoutes_sec e iface ss)" "safe con_ok (removeRoutes_sec e iface ss)"
  "safe con_ok (ensure_each_sec e us)" "safe con_ok (delete_each_sec e us)"
proof -
  show "safe con_ok (addRoutes_sec e iface ss)"
    by (induction ss) (simp_all, (rule safe_basics | assumption)+)
  show "safe con_ok (removeRoutes_sec e iface ss)"
    by (induction ss) (simp_all, (rule safe_basics | assumption)+)
  show "safe con_ok (ensure_each_sec e us)"
    by (induction us) (simp_all add: ensureRule_sec_def, (rule safe_basics | assumption)+)
  show "safe con_ok (delete_each_sec e us)"
    by (induction us) (simp_all, (rule safe_basics | assumption)+)
qed

lemma safe_teardown: "safe con_ok (tearDown_sec e name iface ss)" "safe con_ok (terminate_sec e name)"
    "safe con_ok (setStatus_sec e r ph why)"
  unfolding tearDown_sec_def terminate_sec_def setStatus_sec_def by (rule safe_basics safe_ip)+

lemmas safe_tools = safe_basics safe_ip safe_teardown

lemma safe_drop: "safe con_ok (drop_sec e name)"
proof -
  have "good (\<lambda>t. t\<lparr>k_phase := StateDisconnected, k_iface := [], k_failures := 0, k_retry := 0\<rparr>)"
    by (simp add: good_def keeps_names_def obj_ok_def)
  then show ?thesis unfolding drop_sec_def by - (rule safe_tools | assumption)+
qed

lemma safe_disconnect: "safe con_ok (disconnect_sec e r)"
  unfolding disconnect_sec_def by (rule safe_tools)+

lemma good_failed: "good (\<lambda>t. t\<lparr>k_phase := StateFailed, k_iface := [], k_failures := k_failures t + 1,
    k_retry := retry_from now (k_failures t + 1)\<rparr>)"
  by (simp add: good_def keeps_names_def obj_ok_def)

lemma good_refused: "good (\<lambda>t. t\<lparr>k_phase := StateFailed, k_failures := k_failures t + 1,
    k_retry := retry_from now (k_failures t + 1)\<rparr>)"
  by (simp add: good_def keeps_names_def obj_ok_def)

lemma good_dialled: "good (\<lambda>t. t\<lparr>k_phase := StateConnecting, k_dialed := now\<rparr>)"
  by (simp add: good_def keeps_names_def obj_ok_def)

lemma good_down: "good (\<lambda>t. t\<lparr>k_iface := [], k_phase := StateDisconnected, k_retry := now\<rparr>)"
  by (simp add: good_def keeps_names_def obj_ok_def)

lemma safe_fail: "safe con_ok (fail_sec e name iface reason)"
  unfolding fail_sec_def by (rule safe_tools safe_locked_now good_failed)+

lemma safe_dial: "safe con_ok (dial_sec e name)"
  unfolding dial_sec_def dialFailed_sec_def
  by (rule safe_tools safe_locked_now good_refused good_dialled)+

lemma safe_enter: "safe con_ok (enter_sec conn)"
  unfolding enter_sec_def
proof (rule safe_sect)
  fix c :: "'a con"
  assume c: "con_ok c"
  have g: "good (\<lambda>t. t\<lparr>k_id := c_id conn, k_subnets := c_subnets conn\<rparr>)"
    by (simp add: good_def keeps_names_def obj_ok_def)
  let ?d = "c\<lparr>co_objs := co_objs c @ [new_tunnel conn], co_map := co_map c @ [(c_name conn, length (co_objs c))]\<rparr>"
  have "con_ok ?d" if "map_of (co_map c) (c_name conn) = None"
    using c con_wf_alloc [OF _ that] by (auto simp: con_ok_def new_tunnel_def obj_ok_def)
  then show "con_ok (snd (let (r, c1) = (case map_of (co_map c) (c_name conn) of
           Some r \<Rightarrow> (r, c) | None \<Rightarrow> (length (co_objs c), ?d));
         c2 = on_obj r (\<lambda>t. t\<lparr>k_id := c_id conn, k_subnets := c_subnets conn\<rparr>) c1 in (obj r c2, c2)))"
    using c g by (auto simp: Let_def con_ok_on_obj split: option.split)
qed

lemma safe_step: "safe con_ok (step_sec e conn)"
  unfolding step_sec_def by (rule safe_tools safe_enter safe_fail safe_dial)+

lemma safe_stale: "safe con_ok (stale_sec D)"
  unfolding stale_sec_def
  by (rule safe_sect) (auto simp: con_ok_def con_wf_def obj_def distinct_map_filter)

lemma safe_desired: "safe con_ok (desired_sec e conns)"
  by (induction conns) (simp_all, (rule safe_tools | assumption)+)

lemma safe_writeConfigs: "safe con_ok (writeConfigs_sec e conns)"
proof -
  have "keeps_store (\<lambda>y. ((changedTunnels (y_rendered y) fs ts, length (y_rendered y) \<noteq> length fs), y))" for fs ts
    by (simp add: keeps_store_def)
  then show ?thesis unfolding writeConfigs_sec_def by - (rule safe_tools safe_desired | assumption)+
qed

lemma safe_Reconcile: "safe con_ok (Reconcile_sec e)"
  unfolding Reconcile_sec_def redefine_sec_def advertise_sec_def
  by (rule safe_tools safe_stale safe_disconnect safe_writeConfigs safe_drop safe_step)+

lemma safe_PPPUp: "iface \<noteq> [] \<Longrightarrow> safe con_ok (PPPUp_sec e name iface l p)"
proof -
  assume i: "iface \<noteq> []"
  have "good (\<lambda>t. t\<lparr>k_iface := iface, k_phase := StateUp, k_failures := 0, k_retry := 0\<rparr>)"
    using i by (simp add: good_def keeps_names_def obj_ok_def)
  then have "safe con_ok (sect (\<lambda>c. (k_id (obj r c), on_obj r (\<lambda>t. t\<lparr>k_iface := iface, k_phase := StateUp,
      k_failures := 0, k_retry := 0\<rparr>) c)))" for r
    by (intro safe_sect) (simp add: con_ok_on_obj)
  then show ?thesis unfolding PPPUp_sec_def by - (rule safe_tools safe_fail | assumption)+
qed

lemma safe_thread: "mgr_allowed c \<Longrightarrow> safe con_ok (thread_of e c)"
proof (cases c)
  case (EvDb d)
  assume "mgr_allowed c"
  then show ?thesis using EvDb by (auto intro!: safe_sysop simp: keeps_store_def db_step_wf)
next
  case EvPrerender
  show ?thesis unfolding EvPrerender thread_of.simps Prerender_sec_def by (rule safe_tools safe_desired)+
next
  case EvInvalidate
  show ?thesis unfolding EvInvalidate thread_of.simps Invalidate_sec_def by (rule safe_tools)+
next
  case (EvDown name iface)
  show ?thesis unfolding EvDown thread_of.simps PPPDown_sec_def by (rule safe_tools safe_locked_now good_down)+
next
  case (EvUnhealthy name reason)
  show ?thesis unfolding EvUnhealthy thread_of.simps Unhealthy_sec_def by (rule safe_tools safe_fail)+
qed (auto intro: safe_void safe_Reconcile safe_PPPUp)

section \<open>Any interleaving\<close>

definition goroutines :: "'w env \<Rightarrow> ('w con, unit) prog set" where
  "goroutines e = {thread_of e c | c. mgr_allowed c}"

interpretation sched: shared "goroutines e" con_ok for e :: "'w env"
  by unfold_locales (auto simp: goroutines_def safe_thread)


text \<open>A run in which no operation begins before another has ended is one of the schedules.\<close>

lemma alone_scheduled:
  assumes "mgr_allowed c"
  shows "(tick (goroutines e))\<^sup>*\<^sup>* (s, ps) (alone e c s, ps @ [Ret ()])"
proof -
  have "tick (goroutines e) (s, ps) (s, ps @ [thread_of e c])"
    using assms by (intro begin_op) (auto simp: goroutines_def)
  moreover obtain n where "turns (replicate n (length ps)) (s, ps @ [thread_of e c]) = (alone e c s, ps @ [Ret ()])"
    using finishes [of "length ps" "ps @ [thread_of e c]" s] by (auto simp: alone_def)
  then have "(tick (goroutines e))\<^sup>*\<^sup>* (s, ps @ [thread_of e c]) (alone e c s, ps @ [Ret ()])"
    by (metis turns_ticks)
  ultimately show ?thesis by (rule converse_rtranclp_into_rtranclp)
qed

lemma runs_scheduled:
  "\<forall>c \<in> set cs. mgr_allowed c \<Longrightarrow>
   \<exists>qs. list_all ended qs \<and> (tick (goroutines e))\<^sup>*\<^sup>* (s, ps) (run_cmds (alone e) cs s, ps @ qs)"
proof (induction cs arbitrary: s ps)
  case Nil
  show ?case by (intro exI [of _ "[]"]) simp
next
  case (Cons c cs)
  then obtain qs where "list_all ended qs"
    "(tick (goroutines e))\<^sup>*\<^sup>* (alone e c s, ps @ [Ret ()]) (run_cmds (alone e) cs (alone e c s), (ps @ [Ret ()]) @ qs)"
    by fastforce
  then show ?case using Cons.prems alone_scheduled [of c e s ps]
    by (intro exI [of _ "Ret () # qs"]) (auto intro: rtranclp_trans)
qed


end
