(* ===== verification/Races.thy ===== *)
theory Races
  imports Interleave NetProps
begin

text \<open>
  The interleavings of \<open>Interleave\<close> on a concrete kernel: two schedules of the goroutines that end where
  the code does not mean to, and the witnesses of the properties of all schedules.
\<close>

text \<open>A manager whose one connection has been dialled, and one that has just started.\<close>

definition race_con :: "kern con" where
  "race_con = \<lparr>co_objs = [demo_connecting], co_map = [(''alpha'', 0)], co_sys = kern_sys\<lparr>y_tunnels := []\<rparr>\<rparr>"

definition fresh_con :: "kern con" where
  "fresh_con = \<lparr>co_objs = [], co_map = [], co_sys = kern_sys\<lparr>y_tunnels := []\<rparr>\<rparr>"

lemma race_con_ok: "con_ok race_con" "con_ok fresh_con" "view race_con = kern_sys"
proof -
  show "con_ok race_con"
    using demo_db_wf by (simp add: con_ok_def con_wf_def obj_ok_def race_con_def obj_def demo_connecting_def kern_sys_def new_sys_def)
  show "con_ok fresh_con"
    using demo_db_wf by (simp add: con_ok_def con_wf_def fresh_con_def kern_sys_def new_sys_def)
  show "view race_con = kern_sys" by (simp add: view_def race_con_def obj_def kern_sys_def)
qed

definition hook_up :: mgr_cmd where
  "hook_up = EvUp ''alpha'' ''ppp0'' ''10.9.0.2'' ''10.9.0.1''"

definition orphan_threads :: "mgr_cmd list" where
  "orphan_threads = [hook_up, EvDb (CmdEnable 1 False 200), EvReconcile, EvDown ''alpha'' ''ppp0'']"

text \<open>The hook has looked up its tunnel; the operator turns the connection off and the reconciler removes
  it; the hook goes on; pppd, told to hang up, reports the interface down.\<close>

definition orphan_end :: "kern con \<times> (kern con, unit) prog list" where
  "orphan_end = turns ([0, 1] @ replicate 20 2 @ replicate 12 0 @ replicate 8 3)
     (race_con, map (thread_of kern_env) orphan_threads)"

text \<open>The reconciler has told xl2tpd to connect; pppd reports the interface up before the reconciler takes
  its lock to record the dial.\<close>

definition overtaken_end :: "kern con \<times> (kern con, unit) prog list" where
  "overtaken_end = turns (replicate 17 0 @ replicate 1 1 @ replicate 14 1 @ replicate 8 0)
     (fresh_con, map (thread_of kern_env) [EvReconcile, hook_up])"

lemma schedule_reached:
  assumes "\<forall>c \<in> set cs. mgr_allowed c"
  shows "(tick (goroutines e))\<^sup>*\<^sup>* (s, []) (turns xs (s, map (thread_of e) cs))"
proof -
  have "set (map (thread_of e) cs) \<subseteq> goroutines e" using assms by (auto simp: goroutines_def)
  then show ?thesis using begin_ticks turns_ticks by (metis rtranclp_trans)
qed

lemma orphan_reached: "(tick (goroutines kern_env))\<^sup>*\<^sup>* (race_con, []) orphan_end"
  unfolding orphan_end_def by (rule schedule_reached) (simp add: orphan_threads_def hook_up_def)

lemma overtaken_reached: "(tick (goroutines kern_env))\<^sup>*\<^sup>* (fresh_con, []) overtaken_end"
  unfolding overtaken_end_def by (rule schedule_reached) (simp add: hook_up_def)


text \<open>A report of pppd can overtake the dial: the reconciler, which records the dial last, marks as connecting a
  tunnel that is up, with its interface.\<close>

lemma dial_overtaken:
  "\<exists>s ps. (tick (goroutines kern_env))\<^sup>*\<^sup>* (fresh_con, []) (s, ps) \<and> list_all ended ps \<and>
     mgr_Status ''alpha'' (view s) = (StateConnecting, ''ppp0'') \<and> kn_rules (y_world (view s)) = natRules ''ppp0''"
proof -
  obtain s ps where e: "overtaken_end = (s, ps)" by fastforce
  have "case overtaken_end of (s, ps) \<Rightarrow> map ended ps = [True, True] \<and>
      mgr_Status ''alpha'' (view s) = (StateConnecting, ''ppp0'') \<and> kn_rules (y_world (view s)) = natRules ''ppp0''"
    by code_simp
  then show ?thesis using overtaken_reached unfolding e by (intro exI [of _ s] exI [of _ ps]) auto
qed

section \<open>Witnesses\<close>



end
