(* ===== verification/Spec2Isabelle.thy ===== *)
theory Spec2Isabelle
  imports NetProps Migrate Supervise Changelog Ring Logging Sessions ScanRun WebRaces BootProps Races
begin

text \<open>
  A verification development for tsv-vpn: a program that keeps IPsec/L2TP tunnels to routers up,
  advertises what lies behind them to a tailnet and is configured through a web interface.  Names
  are those of the Go source; a name that clashes with one of HOL or of another package has a
  prefix or suffix (\<open>exec_Run\<close>, \<open>db_Open\<close>, \<open>token_Valid\<close>).

  \<^bold>\<open>The program and how its parts interact.\<close>  The web server (\<open>internal/web\<close>) and the pppd hooks
  (\<open>internal/tunnel/hooks.go\<close>) change the store (\<open>internal/db\<close>) and wake the manager
  (\<open>internal/tunnel/reconcile.go\<close>), which compares the store with the tunnels it has, writes the
  daemons' configuration (\<open>render.go\<close>), dials and tears down (\<open>control.go\<close>, \<open>netcfg.go\<close>) through the
  command runner (\<open>internal/run\<close>), and tells tailscaled what to route (\<open>internal/tailnet\<close>).  The
  health checker (\<open>internal/health\<close>) pings through the tunnels and hands those that do not answer
  back to the manager.  The supervisor (\<open>internal/supervise\<close>) keeps the daemons running; what they
  print goes to the log buffer (\<open>internal/logbuf\<close>), which the web server shows.

  \<^bold>\<open>Conventions.\<close>  A function that returns a value and an error is a sum, the error on the left
  (\<open>Prelude\<close>).  Strings are lists of characters read as bytes (\<open>GoStrings\<close> has the parts of Go's
  string packages that the source uses).  Times and durations are integers of nanoseconds (\<open>GoTime\<close>,
  \<open>Dates\<close>).  Addresses are words of 32 and 128 bits with Go's parsing and printing (\<open>Netip\<close>,
  \<open>NetipText\<close>, \<open>NetipRoundtrip\<close>).  A struct that is mutated is a record passed through the
  operations.  A section under a mutex is one step.  The operations of the manager, which release its
  mutex in the middle, are modelled twice: as one step each (\<open>Manager\<close>), and cut into sections that
  interleave (\<open>Sections\<close>); so are the handlers that take a password (\<open>WebAuth\<close>, \<open>WebRaces\<close>).

  \<^bold>\<open>Theories and the code they model.\<close>
  \<^item> \<open>Store\<close>, with \<open>Validate\<close> and \<open>Tables\<close>: \<open>internal/db\<close>.  A table is a list of rows; every
    statement consults the state of the database, so that it can fail, and a transaction is kept or
    undone as a whole (\<open>in_tx\<close>).  \<open>StoreInv\<close> states what the tables keep (\<open>store_wf\<close>), \<open>StoreRuns\<close>
    that every operation keeps it, \<open>StoreProps\<close> what the clients get: no address is routed twice,
    secrets come back, blank secrets are kept, failures leave no trace.
  \<^item> \<open>Migrate\<close>: \<open>internal/db/db.go\<close>, opening and migrating.  The applied files are always a prefix
    of the embedded ones, and the version says which.
  \<^item> \<open>Crypto\<close>: \<open>internal/crypto\<close>, the key file and the framing of sealed secrets.
  \<^item> \<open>Runner\<close> and \<open>Netcfg\<close>: \<open>internal/run\<close>, \<open>internal/tailnet\<close>, \<open>netcfg.go\<close> and \<open>control.go\<close>: the
    commands in their order, what is shown of them, and which errors count as already gone.
  \<^item> \<open>Render\<close> and \<open>RenderProps\<close>: \<open>render.go\<close>, the files line by line, with readers that get back the
    fields of each tunnel.
  \<^item> \<open>Manager\<close>: \<open>reconcile.go\<close>.  \<open>ManagerInv\<close> has the life cycle of a tunnel as a step relation
    (\<open>moves\<close>) and the manager as a machine of events (\<open>mgr_step\<close>); \<open>ManagerProps\<close> has what the
    reconciler guarantees, \<open>NetProps\<close> what its commands do on a kernel with an address table and
    chains of rules, and two orders of events that it does not expect.
  \<^item> \<open>Threads\<close>, \<open>Sections\<close>, \<open>SectionsProps\<close>, \<open>Interleave\<close> and \<open>Races\<close>: \<open>reconcile.go\<close> again, with its
    goroutines.  \<open>Threads\<close> has programs of atomic sections and their interleavings (\<open>tick\<close>); \<open>Sections\<close>
    cuts every operation of the manager at its locks, commands and statements, the tunnels being
    shared objects behind the pointers of the map; \<open>SectionsProps\<close> shows that without interruption this
    is \<open>Manager\<close> (\<open>runs_as\<close>, \<open>view\<close>); \<open>Interleave\<close> has what holds under every schedule, and \<open>Races\<close> two
    schedules that go wrong.
  \<^item> \<open>Hooks\<close>: \<open>hooks.go\<close>, from the query of the hook script to the manager's event.
  \<^item> \<open>Health\<close> and \<open>HealthProps\<close>: \<open>check.go\<close> and \<open>report.go\<close>.
  \<^item> \<open>Supervise\<close>, \<open>Ring\<close>, \<open>Logging\<close>, \<open>Changelog\<close>: \<open>supervise.go\<close>, \<open>ring.go\<close>, \<open>logging.go\<close> and
    \<open>changelog.go\<close>.
  \<^item> \<open>Discover\<close>, \<open>Sweep\<close>, \<open>Candidates\<close> and \<open>Icmp\<close>: \<open>internal/discover\<close>.  The worker pool of a sweep is a
    step relation over the goroutines (\<open>sweep_step\<close>), so that a sweep's result is stated for every
    schedule.  \<open>Icmp\<close> has the pinger and the hop probe over a raw socket; their read loops are
    partial functions (\<open>ping_wait\<close>, \<open>hop_wait\<close>), shown to return whenever reads end (\<open>reads\<close>), with
    the pinger of the health checks (\<open>internal/health/ping.go\<close>).
  \<^item> \<open>Sessions\<close>: the login throttle, the session tokens and the stored password of \<open>auth.go\<close> and
    \<open>credentials.go\<close>.
  \<^item> \<open>Web\<close>, \<open>WebAuth\<close>, \<open>WebPages\<close>, \<open>WebNet\<close>, \<open>WebServer\<close>: \<open>internal/web\<close>.  The state holds the
    checker (which holds the manager's system), the store, the clock, the sessions, the throttle,
    the logs and the scans.  A handler takes a request and returns the state and a \<open>reply\<close>: a code,
    a header, cookies and a body that is the name of a template with its data.  \<open>WebServer\<close> has
    the routing, \<open>main_mux\<close> the public and the private part.
  \<^item> \<open>WebInv\<close> and \<open>WebProps\<close>: every request keeps the invariants of manager, store and checker; the
    whole program is a machine of requests, turns of the manager, checks and scans (\<open>web_step\<close>);
    nothing private is answered without a session.  \<open>WebAccess\<close>, \<open>WebReplies\<close> and \<open>WebScan\<close> have what
    signing in, changing the password, the pages and a scan give.
  \<^item> \<open>ScanRun\<close>: \<open>runScan\<close> with its goroutines around the sweep's (\<open>scan_step\<close>): a scan ends, its page says that
    it runs until then, and every result has landed in the job by then.
  \<^item> \<open>WebRaces\<close>: the handlers that take a password, cut at their locks, comparisons and statements as
    \<open>Sections\<close> cuts the manager.  Under every schedule nobody gets in without the password; the throttle
    does not bound guesses that arrive together, and a login that was compared in time outlives a
    change of the password.
  \<^item> \<open>Startup\<close>, \<open>Durations\<close>, \<open>Boot\<close> and \<open>BootProps\<close>: \<open>cmd/tsv-vpn\<close>.  \<open>start\<close> is the function of that
    name: what it opens, installs and launches is a list of events, with its deferred closes, and
    what its services do until the signal is a run of \<open>web_step\<close>.  \<open>Durations\<close> has the parser of the
    durations in the environment.  \<open>BootProps\<close>: everything or nothing is launched and what was opened
    is closed, the program keeps its invariants from the start on, pppd finds hooks and secrets, and a
    router that sends no packet loses its tunnel through all the layers from the socket up.

  \<^bold>\<open>Interfaces.\<close>  \<open>machine\<close> and \<open>refinement\<close> (\<open>Machine\<close>) are the contracts of the components
  with state: the store, the manager, the checker, the log buffer and the whole program interpret
  them, and the manager's sections refine the manager through them.  \<open>shared\<close> (\<open>Threads\<close>) is the contract
  of operations that run at once on one state, interpreted by the manager with the store and by the
  handlers.  \<open>kernel_like\<close> (\<open>Netcfg\<close>) states what ip and iptables promise, interpreted on a kernel of
  tables; the order of addresses is the type's (\<open>NetipOrder\<close>).  \<open>Tables\<close> states what a keyed table
  promises, interpreted on the four tables of the store and on the tunnels of the manager and the files of the renderer; \<open>Crypto\<close> what a secret box promises.

  \<^bold>\<open>Parameters.\<close>  What is not under \<open>src/\<close> is an argument: the AEAD (\<open>aead_correct\<close>: opening what
  was sealed under the same nonce and key gives it back), bcrypt (\<open>bcrypt_correct\<close>: a hash matches its password), the
  command runner with the world it acts on (\<open>kernel_like\<close>: documented behaviour of ip and iptables),
  the clock, the random source, the resolver, the raw socket and the package that builds and parses
  ICMP messages, the decoder of tailscale's JSON, products in floating point, the effect of a
  migration's SQL, and the file system where only a few calls are used.

  \<^bold>\<open>Bounds.\<close>  No definition needs fuel.  Loops over lists are structural; the loop over the
  hosts of a subnet ends because the address grows and \<open>Hosts\<close> refuses a subnet with more than
  \<open>MaxSweepBits\<close> host bits, and a sweep ends because a measure over its queue and workers falls with
  each step (\<open>sweep_completes\<close>); so does the measure of a scan (\<open>scan_ends\<close>).  A read loop on a socket
  ends with the reads.  The endless loops of the supervisor, the manager and the checker are lists of
  attempts and turns of any length.

  \<^bold>\<open>Not modelled.\<close>  HTML templates, style sheets and scripts (a page is its template's name and
  data); the sockets of the listeners, signals and goroutines as such, which are events of \<open>start\<close>;
  the slog handlers of \<open>logging.go\<close>; \<open>version.go\<close>, a constant and an embedded file.  The
  handlers of the web server that take no password are one step each; the calls they make on the store
  interleave one by one in \<open>Interleave\<close>.  That two requests can both set the first password is
  \<open>setup_race\<close>.
\<close>

end
